(* ===== verification/GoBase.thy ===== *)
theory GoBase
  imports Main "HOL-Library.Word" "HOL-Library.Multiset"
begin

text \<open>
  The prelude: what every component of the model takes from the Go language itself.
  Integers keep their width (Go's \<open>int\<close> and \<open>int64\<close> are 64-bit two's complement on every
  platform the operator is built for), instants are nanoseconds on an unbounded axis,
  durations are 64-bit, and formatted text is kept as its format string with its arguments,
  so that no theorem depends on how \<open>fmt.Sprintf\<close> lays a value out.
\<close>

section \<open>Collections of facts the components share\<close>

named_theorems go_simps \<open>Definitions of small Go helpers, for unfolding\<close>
named_theorems shape_simps \<open>What an operation leaves unchanged\<close>

section \<open>Integers and time\<close>

type_synonym i64 = "64 word"
type_synonym i32 = "32 word"

text \<open>\<open>time.Time\<close>: nanoseconds since the epoch. \<open>time.Duration\<close>: an \<open>int64\<close> of nanoseconds.\<close>

type_synonym time = int
type_synonym duration = i64

definition Nanosecond :: duration where "Nanosecond = 1"
definition Second :: duration where "Second = 1000000000"
definition Minute :: duration where "Minute = 60 * Second"
definition Hour :: duration where "Hour = 60 * Minute"

definition time_Add :: "time \<Rightarrow> duration \<Rightarrow> time" where
  "time_Add t d = t + sint d"

definition time_After :: "time \<Rightarrow> time \<Rightarrow> bool" where
  "time_After t u \<longleftrightarrow> u < t"

definition time_Before :: "time \<Rightarrow> time \<Rightarrow> bool" where
  "time_Before t u \<longleftrightarrow> t < u"

text \<open>\<open>Time.Sub\<close> saturates at the ends of the \<open>Duration\<close> range.\<close>

definition time_Sub :: "time \<Rightarrow> time \<Rightarrow> duration" where
  "time_Sub t u = word_of_int (max (- (2 ^ 63)) (min (2 ^ 63 - 1) (t - u)))"

lemmas [go_simps] = time_Add_def time_After_def time_Before_def
  Second_def Minute_def Hour_def

text \<open>Signed comparison, and the two bounds every \<open>int64\<close> has.\<close>

lemma sint_i64_lower: "- (2 ^ 63) \<le> sint (a :: i64)"
  using sint_ge [of a] by simp

lemma sint_i64_upper: "sint (a :: i64) < 2 ^ 63"
  using sint_lt [of a] by simp

lemma sint_word_of_int_i64:
  "- (2 ^ 63) \<le> k \<Longrightarrow> k < 2 ^ 63 \<Longrightarrow> sint (word_of_int k :: i64) = k"
  by (simp add: sint_sbintrunc' signed_take_bit_int_eq_self)

lemma sint_add_i64:
  "- (2 ^ 63) \<le> sint a + sint b \<Longrightarrow> sint a + sint b < 2 ^ 63 \<Longrightarrow>
     sint (a + b :: i64) = sint a + sint b"
  by (simp add: sint_word_add signed_take_bit_int_eq_self)

text \<open>\<open>n++\<close> below an upper limit does not wrap.\<close>

lemma sint_inc_i64: "sint (a :: i64) < sint (b :: i64) \<Longrightarrow> sint (a + 1) = sint a + 1"
  using sint_i64_upper [of b] sint_i64_lower [of a] by (subst sint_add_i64) auto

section \<open>Text, errors and dynamic values\<close>

text \<open>
  \<open>fmt.Sprintf f args\<close> and \<open>fmt.Errorf f args\<close> become \<open>TFmt f args\<close>; a plain string
  or \<open>errors.New s\<close> is \<open>TLit s\<close>. \<open>GText\<close> is an error passed as \<open>%w\<close> or \<open>%v\<close>.
\<close>

datatype gotext = TLit string | TFmt string "goarg list"
  and goarg = GStr string | GInt int | GStrs "string list" | GText gotext

text \<open>A value of Go's \<open>any\<close>, as templates, JSON documents and Redis fields use it.\<close>

datatype any =
    ANil
  | ABool bool
  | AInt i64
  | AFloat "64 word" \<comment> \<open>the bit pattern of a \<open>float64\<close>\<close>
  | AStr string
  | AList "any list"
  | AMap "string \<rightharpoonup> any"

text \<open>\<open>s, _ := v.(string)\<close>: the empty string when the value is missing or not a string.\<close>

fun any_string :: "any option \<Rightarrow> string" where
  "any_string (Some (AStr s)) = s"
| "any_string _ = []"

section \<open>Association lists updated through an index\<close>

text \<open>
  \<open>&xs[i]\<close> in the source is the index \<open>i\<close> here, and a write through the pointer is an
  update at that index. A write at an index that does not exist is no operation; the
  source never makes one, because every pointer comes from the slice itself.
\<close>

definition update_at :: "nat \<Rightarrow> ('a \<Rightarrow> 'a) \<Rightarrow> 'a list \<Rightarrow> 'a list" where
  "update_at i g xs = (if i < length xs then xs[i := g (xs ! i)] else xs)"

lemma length_update_at [simp]: "length (update_at i g xs) = length xs"
  by (simp add: update_at_def)

lemma nth_update_at:
  "j < length xs \<Longrightarrow> update_at i g xs ! j = (if i = j then g (xs ! j) else xs ! j)"
  by (simp add: update_at_def nth_list_update)

lemma update_at_same [simp]: "i < length xs \<Longrightarrow> update_at i g xs ! i = g (xs ! i)"
  by (simp add: nth_update_at)

lemma update_at_other [simp]: "i \<noteq> j \<Longrightarrow> update_at i g xs ! j = xs ! j"
  by (simp add: update_at_def)

lemma map_update_at:
  "(\<And>x. h (g x) = h x) \<Longrightarrow> map h (update_at i g xs) = map h xs"
  by (simp add: update_at_def map_update list_update_same_conv)

lemma update_at_Cons_Suc [simp]: "update_at (Suc i) g (x # xs) = x # update_at i g xs"
  by (simp add: update_at_def)

lemma update_at_Cons_0 [simp]: "update_at 0 g (x # xs) = g x # xs"
  by (simp add: update_at_def)

lemma update_at_commute:
  "i \<noteq> j \<Longrightarrow> update_at i g (update_at j h xs) = update_at j h (update_at i g xs)"
  by (rule nth_equalityI) (auto simp: nth_update_at)

lemma fold_update_at_nth:
  "distinct ks \<Longrightarrow> j < length xs \<Longrightarrow>
     fold (\<lambda>i. update_at i g) ks xs ! j = (if j \<in> set ks then g (xs ! j) else xs ! j)"
  by (induction ks arbitrary: xs) (auto simp: nth_update_at)

section \<open>Folds with an invariant\<close>

lemma fold_invariant:
  "P s \<Longrightarrow> (\<And>x s. x \<in> set xs \<Longrightarrow> P s \<Longrightarrow> P (g x s)) \<Longrightarrow> P (fold g xs s)"
  by (induction xs arbitrary: s) auto

lemma fold_invariant2:
  "Q s s \<Longrightarrow> (\<And>x t. x \<in> set xs \<Longrightarrow> Q s t \<Longrightarrow> Q s (g x t)) \<Longrightarrow> Q s (fold g xs s)"
  by (rule fold_invariant [where P = "Q s"]) auto

text \<open>A fold whose steps commute does not depend on the order, so neither does a \<open>range\<close> over a map.\<close>

lemma fold_permuted:
  assumes "\<And>x y. x \<in> set xs \<Longrightarrow> y \<in> set xs \<Longrightarrow> x \<noteq> y \<Longrightarrow> g x \<circ> g y = g y \<circ> g x"
    and "distinct xs" and "distinct ys" and "set ys = set xs"
  shows "fold g ys s = fold g xs s"
proof -
  have "fold g xs = fold g ys"
  proof (rule fold_multiset_equiv)
    show "g x \<circ> g y = g y \<circ> g x" if "x \<in> set xs" and "y \<in> set xs" for x y
      using that assms(1) by (cases "x = y") auto
    show "mset xs = mset ys"
      using assms(2-4) by (simp add: set_eq_iff_mset_eq_distinct)
  qed
  then show ?thesis by simp
qed

end
