(* ===== verification/GoStrings.thy ===== *)
theory GoStrings
  imports GoBase
begin

text \<open>
  The functions of \<open>strings\<close>, \<open>bytes\<close> and \<open>strconv\<close> that the source calls, on byte strings.
  \<open>TrimSpace\<close> trims every Unicode space, written as its UTF-8 bytes; \<open>ToLower\<close> and \<open>ToUpper\<close> map the ASCII letters,
  which is all their callers can observe (the text of each caller says why).
\<close>

section \<open>strings\<close>

definition HasPrefix :: "string \<Rightarrow> string \<Rightarrow> bool" where
  "HasPrefix s p \<longleftrightarrow> take (length p) s = p"

definition HasSuffix :: "string \<Rightarrow> string \<Rightarrow> bool" where
  "HasSuffix s p \<longleftrightarrow> length p \<le> length s \<and> drop (length s - length p) s = p"

definition TrimPrefix :: "string \<Rightarrow> string \<Rightarrow> string" where
  "TrimPrefix s p = (if HasPrefix s p then drop (length p) s else s)"

text \<open>\<open>strings.CutPrefix\<close>: the rest and whether the prefix was there.\<close>

definition CutPrefix :: "string \<Rightarrow> string \<Rightarrow> string \<times> bool" where
  "CutPrefix s p = (if HasPrefix s p then (drop (length p) s, True) else (s, False))"

fun Contains :: "string \<Rightarrow> string \<Rightarrow> bool" where
  "Contains [] p = (p = [])"
| "Contains (c # s) p = (HasPrefix (c # s) p \<or> Contains s p)"

text \<open>\<open>strings.Index\<close>, with \<open>None\<close> for the source's \<open>-1\<close>.\<close>

fun Index :: "string \<Rightarrow> string \<Rightarrow> nat option" where
  "Index [] p = (if p = [] then Some 0 else None)"
| "Index (c # s) p = (if HasPrefix (c # s) p then Some 0 else map_option Suc (Index s p))"

text \<open>
  \<open>Split\<close> and \<open>SplitSeq\<close> for a separator that is not empty, the only kind the source passes: each
  element of \<open>split_at\<close> ends where the separator is next found.
\<close>

function split_at :: "string \<Rightarrow> string \<Rightarrow> string list" where
  "split_at sep s =
     (case Index s sep of
        None \<Rightarrow> [s]
      | Some i \<Rightarrow> if sep = [] then [s]
                  else take i s # split_at sep (drop (i + length sep) s))"
  by pat_completeness auto

lemma Index_bound: "Index s p = Some i \<Longrightarrow> i + length p \<le> length s"
proof (induction s arbitrary: i)
  case Nil
  then show ?case by (simp split: if_splits)
next
  case (Cons c s)
  show ?case
  proof (cases "HasPrefix (c # s) p")
    case True
    then have "length p \<le> length (c # s)"
      unfolding HasPrefix_def by (metis length_take min.absorb_iff2 min.commute)
    with True Cons.prems show ?thesis by simp
  next
    case False
    with Cons show ?thesis by auto
  qed
qed

termination split_at
proof (relation "measure (\<lambda>(sep, s). length s)")
  fix sep s :: string and i
  assume "Index s sep = Some i" and "sep \<noteq> []"
  then have "i + length sep \<le> length s" and "0 < length sep"
    using Index_bound by auto
  then have "length s - (i + length sep) < length s" by linarith
  then show "((sep, drop (i + length sep) s), sep, s) \<in> measure (\<lambda>(sep, s). length s)"
    by simp
qed simp

declare split_at.simps [simp del]

text \<open>\<open>unicode.IsSpace\<close> as UTF-8: each rune that \<open>TrimSpace\<close> removes.\<close>

definition space_seqs :: "string list" where
  "space_seqs =
     [[CHR 0x09], [CHR 0x0A], [CHR 0x0B], [CHR 0x0C], [CHR 0x0D], [CHR 0x20],
      [CHR 0xC2, CHR 0x85], [CHR 0xC2, CHR 0xA0], [CHR 0xE1, CHR 0x9A, CHR 0x80],
      [CHR 0xE2, CHR 0x80, CHR 0x80], [CHR 0xE2, CHR 0x80, CHR 0x81],
      [CHR 0xE2, CHR 0x80, CHR 0x82], [CHR 0xE2, CHR 0x80, CHR 0x83],
      [CHR 0xE2, CHR 0x80, CHR 0x84], [CHR 0xE2, CHR 0x80, CHR 0x85],
      [CHR 0xE2, CHR 0x80, CHR 0x86], [CHR 0xE2, CHR 0x80, CHR 0x87],
      [CHR 0xE2, CHR 0x80, CHR 0x88], [CHR 0xE2, CHR 0x80, CHR 0x89],
      [CHR 0xE2, CHR 0x80, CHR 0x8A], [CHR 0xE2, CHR 0x80, CHR 0xA8],
      [CHR 0xE2, CHR 0x80, CHR 0xA9], [CHR 0xE2, CHR 0x80, CHR 0xAF],
      [CHR 0xE2, CHR 0x81, CHR 0x9F], [CHR 0xE3, CHR 0x80, CHR 0x80]]"

lemma space_seqs_nonempty: "p \<in> set space_seqs \<Longrightarrow> p \<noteq> []"
  by (auto simp: space_seqs_def)

function trim_left :: "string \<Rightarrow> string" where
  "trim_left s =
     (if s = [] then []
      else case find (HasPrefix s) space_seqs of
             None \<Rightarrow> s
           | Some p \<Rightarrow> trim_left (drop (length p) s))"
  by pat_completeness auto

termination trim_left
proof (relation "measure length")
  fix s p
  assume "s \<noteq> []" and "find (HasPrefix s) space_seqs = Some p"
  then have "p \<noteq> []" by (auto simp: find_Some_iff dest: space_seqs_nonempty [OF nth_mem])
  with \<open>s \<noteq> []\<close> show "(drop (length p) s, s) \<in> measure length" by simp
qed simp

function trim_right :: "string \<Rightarrow> string" where
  "trim_right s =
     (if s = [] then []
      else case find (HasSuffix s) space_seqs of
             None \<Rightarrow> s
           | Some p \<Rightarrow> trim_right (take (length s - length p) s))"
  by pat_completeness auto

termination trim_right
proof (relation "measure length")
  fix s p
  assume "s \<noteq> []" and "find (HasSuffix s) space_seqs = Some p"
  then have "p \<noteq> []" by (auto simp: find_Some_iff dest: space_seqs_nonempty [OF nth_mem])
  with \<open>s \<noteq> []\<close> show "(take (length s - length p) s, s) \<in> measure length"
    by (cases s) auto
qed simp

declare trim_left.simps [simp del] trim_right.simps [simp del]

definition TrimSpace :: "string \<Rightarrow> string" where
  "TrimSpace s = trim_right (trim_left s)"

lemma TrimSpace_empty [simp]: "TrimSpace [] = []"
  by (simp add: TrimSpace_def trim_left.simps trim_right.simps)

definition lower_char :: "char \<Rightarrow> char" where
  "lower_char c = (let n = (of_char c :: nat) in if 65 \<le> n \<and> n \<le> 90 then char_of (n + 32) else c)"

definition upper_char :: "char \<Rightarrow> char" where
  "upper_char c = (let n = (of_char c :: nat) in if 97 \<le> n \<and> n \<le> 122 then char_of (n - 32) else c)"

definition ToLower :: "string \<Rightarrow> string" where
  "ToLower s = map lower_char s"

definition ToUpper :: "string \<Rightarrow> string" where
  "ToUpper s = map upper_char s"

text \<open>\<open>strings.Fields\<close>: the maximal runs between Unicode spaces; \<open>w\<close> is the current run, reversed.\<close>

function fields_from :: "string \<Rightarrow> string \<Rightarrow> string list" where
  "fields_from w [] = (if w = [] then [] else [rev w])"
| "fields_from w (c # s) =
     (case find (HasPrefix (c # s)) space_seqs of
        None \<Rightarrow> fields_from (c # w) s
      | Some p \<Rightarrow>
          (if w = [] then fields_from [] (drop (length p) (c # s))
           else rev w # fields_from [] (drop (length p) (c # s))))"
  by pat_completeness auto

lemma space_prefix_shorter:
  "find (HasPrefix (c # s)) space_seqs = Some p \<Longrightarrow> length (drop (length p) (c # s)) < length (c # s)"
proof -
  assume "find (HasPrefix (c # s)) space_seqs = Some p"
  then have "p \<noteq> []" by (auto simp: find_Some_iff dest: space_seqs_nonempty [OF nth_mem])
  then show ?thesis by (cases p) auto
qed

termination fields_from
  by (relation "measure (\<lambda>(w, s). length s)") (use space_prefix_shorter in auto)

declare fields_from.simps(2) [simp del]

definition Fields :: "string \<Rightarrow> string list" where
  "Fields s = fields_from [] s"

section \<open>strconv\<close>

definition digit_char :: "nat \<Rightarrow> char" where
  "digit_char d = char_of (48 + d)"

definition is_digit :: "char \<Rightarrow> bool" where
  "is_digit c \<longleftrightarrow> 48 \<le> (of_char c :: nat) \<and> (of_char c :: nat) \<le> 57"

definition digit_val :: "char \<Rightarrow> nat" where
  "digit_val c = of_char c - 48"

fun nat_digits :: "nat \<Rightarrow> string" where
  "nat_digits n = (if n < 10 then [digit_char n] else nat_digits (n div 10) @ [digit_char (n mod 10)])"

declare nat_digits.simps [simp del]

text \<open>\<open>strconv.Itoa\<close>, and what \<open>%d\<close> prints.\<close>

definition Itoa :: "int \<Rightarrow> string" where
  "Itoa k = (if k < 0 then CHR ''-'' # nat_digits (nat (- k)) else nat_digits (nat k))"

definition digits_val :: "string \<Rightarrow> nat" where
  "digits_val s = foldl (\<lambda>v c. 10 * v + digit_val c) 0 s"

text \<open>
  \<open>ParseInt(s, 10, 64)\<close> and \<open>Atoi\<close>: an optional sign and at least one digit. On a value out of
  range the Go functions return the nearest \<open>int64\<close> together with the error, on a syntax error 0.
\<close>

datatype num_error = ErrSyntax | ErrRange

fun split_sign :: "string \<Rightarrow> bool \<times> string" where
  "split_sign (c # s) =
     (if c = CHR ''-'' then (True, s) else if c = CHR ''+'' then (False, s) else (False, c # s))"
| "split_sign [] = (False, [])"

definition ParseInt :: "string \<Rightarrow> i64 \<times> num_error option" where
  "ParseInt s =
     (let (neg, ds) = split_sign s in
      if ds = [] \<or> \<not> list_all is_digit ds then (0, Some ErrSyntax)
      else let v = int (digits_val ds) in
           if \<not> neg \<and> 2 ^ 63 \<le> v then (word_of_int (2 ^ 63 - 1), Some ErrRange)
           else if neg \<and> 2 ^ 63 < v then (word_of_int (- (2 ^ 63)), Some ErrRange)
           else (word_of_int (if neg then - v else v), None))"

lemma digit_char_props:
  "d < 10 \<Longrightarrow> is_digit (digit_char d) \<and> digit_val (digit_char d) = d"
  by (simp add: digit_char_def is_digit_def digit_val_def)

lemma digits_val_snoc: "digits_val (s @ [c]) = 10 * digits_val s + digit_val c"
  by (simp add: digits_val_def)

lemma nat_digits_nonempty: "nat_digits n \<noteq> []"
  by (subst nat_digits.simps) simp

lemma nat_digits_props: "list_all is_digit (nat_digits n) \<and> digits_val (nat_digits n) = n"
proof (induction n rule: nat_digits.induct)
  case (1 n)
  show ?case
  proof (cases "n < 10")
    case True
    then show ?thesis
      by (simp add: nat_digits.simps [of n] digit_char_props digits_val_def)
  next
    case False
    with 1 have "list_all is_digit (nat_digits (n div 10)) \<and> digits_val (nat_digits (n div 10)) = n div 10"
      by simp
    with False show ?thesis
      by (simp add: nat_digits.simps [of n] digits_val_snoc digit_char_props)
  qed
qed

lemma hd_nat_digits: "is_digit (hd (nat_digits n))"
  using nat_digits_props [of n] nat_digits_nonempty [of n] by (cases "nat_digits n") auto

lemma split_sign_digits: "split_sign (nat_digits n) = (False, nat_digits n)"
proof -
  obtain c s where cs: "nat_digits n = c # s"
    using nat_digits_nonempty by (cases "nat_digits n") auto
  have "is_digit c" using hd_nat_digits [of n] cs by simp
  then have "c \<noteq> CHR ''-''" and "c \<noteq> CHR ''+''" by (auto simp: is_digit_def)
  then show ?thesis by (simp add: cs)
qed

text \<open>Every \<open>int64\<close> survives being printed and read back.\<close>

lemma ParseInt_Itoa: "ParseInt (Itoa (sint n)) = (n, None)"
proof (cases "sint n < 0")
  case True
  have "- (2 ^ 63) \<le> sint n" by (rule sint_i64_lower)
  with True have "\<not> 2 ^ 63 < int (nat (- sint n))" by simp
  with True show ?thesis
    by (simp add: ParseInt_def Itoa_def nat_digits_props nat_digits_nonempty)
next
  case False
  have "sint n < 2 ^ 63" by (rule sint_i64_upper)
  with False show ?thesis
    by (simp add: ParseInt_def Itoa_def nat_digits_props nat_digits_nonempty split_sign_digits)
qed

lemma Itoa_nonempty: "Itoa k \<noteq> []"
  by (simp add: Itoa_def nat_digits_nonempty)

text \<open>\<open>strconv.Atoi\<close>: the value, or its error.\<close>

definition Atoi :: "string \<Rightarrow> num_error + i64" where
  "Atoi s = (case ParseInt s of (n, None) \<Rightarrow> Inr n | (_, Some e) \<Rightarrow> Inl e)"

lemma Atoi_Itoa [simp]: "Atoi (Itoa (sint n)) = Inr n"
  by (simp add: Atoi_def ParseInt_Itoa)

end
