(* ===== verification/ArkTypes.thy ===== *)
theory ArkTypes
  imports GoStrings
begin

text \<open>
  The API types of \<^verbatim>\<open>api/v1alpha1\<close>: one record per Go struct, one datatype per string enum whose values
  the API server validates. A pointer field is an \<open>option\<close>; an \<open>omitempty\<close> string or number keeps
  its Go zero value. A Go map that the code only looks up is \<open>'k \<rightharpoonup> 'v\<close>; a map that the code ranges
  over is an association list, in the order in which this run visits it.
\<close>

section \<open>metav1\<close>

datatype ConditionStatus = ConditionTrue | ConditionFalse | ConditionUnknown

record Condition =
  cType :: string
  cStatus :: ConditionStatus
  cObservedGeneration :: i64
  cReason :: string
  cMessage :: gotext
  cLastTransitionTime :: time

record ObjectMeta =
  mName :: string
  mNamespace :: string
  mGeneration :: i64
  mDeletionTimestamp :: "time option"
  mAnnotations :: "string \<rightharpoonup> string"
  mLabels :: "string \<rightharpoonup> string"
  mController :: "string option" \<comment> \<open>name of the controlling owner reference\<close>

record NamespacedName =
  nnName :: string
  nnNamespace :: string

definition ConditionReady :: string where "ConditionReady = ''Ready''"

section \<open>ArkFlow\<close>

record TokenUsage =
  tuInputTokens :: i64
  tuOutputTokens :: i64
  tuTotalTokens :: i64

datatype StepPhase = StepPending | StepRunning | StepSucceeded | StepFailed | StepSkipped

datatype FlowPhase =
  FlowEmpty \<comment> \<open>the zero value: the flow has not been reconciled yet\<close>
  | FlowPending | FlowRunning | FlowSucceeded | FlowFailed

record LoopSpec =
  lCondition :: string
  lMaxIterations :: i64

record ArkFlowStep =
  sName :: string
  sArkAgent :: string
  sInputs :: "(string \<times> string) list"
  sDependsOn :: "string list"
  sOutputSchema :: string
  sIf :: string
  sLoop :: "LoopSpec option"

record ArkFlowSpec =
  fsSteps :: "ArkFlowStep list"
  fsInput :: "string \<rightharpoonup> string"
  fsOutput :: string
  fsTimeoutSeconds :: i64
  fsMaxTokens :: i64

record ArkFlowStepStatus =
  stName :: string
  stPhase :: StepPhase
  stTaskID :: string
  stOutput :: string
  stOutputJSON :: string
  stStartTime :: "time option"
  stCompletionTime :: "time option"
  stMessage :: gotext
  stIterations :: i64
  stTokenUsage :: "TokenUsage option"

record ArkFlowStatus =
  fPhase :: FlowPhase
  fSteps :: "ArkFlowStepStatus list"
  fStartTime :: "time option"
  fCompletionTime :: "time option"
  fOutput :: string
  fObservedGeneration :: i64
  fTotalTokenUsage :: "TokenUsage option"
  fConditions :: "Condition list"

record ArkFlow =
  flMeta :: ObjectMeta
  flSpec :: ArkFlowSpec
  flStatus :: ArkFlowStatus

section \<open>ArkAgent\<close>

record MCPServerSpec =
  mcpName :: string
  mcpURL :: string

record WebhookToolSpec =
  wtName :: string
  wtDescription :: string
  wtURL :: string
  wtMethod :: string
  wtInputSchema :: string

record LocalObjectReference =
  lorName :: string

record KeySelector =
  ksName :: string
  ksKey :: string

record SystemPromptSource =
  spConfigMapKeyRef :: "KeySelector option"
  spSecretKeyRef :: "KeySelector option"

record ArkonisLimits =
  limMaxTokensPerCall :: i64
  limMaxConcurrentTasks :: i64
  limTimeoutSeconds :: i64
  limMaxDailyTokens :: i64

datatype ProbeType = ProbeTypeSemantic | ProbeTypePing

record ArkonisProbe =
  prType :: ProbeType
  prIntervalSeconds :: i64
  prValidatorPrompt :: string

record ArkAgentSpec =
  asReplicas :: "i32 option"
  asModel :: string
  asSystemPrompt :: string
  asSystemPromptRef :: "SystemPromptSource option"
  asMCPServers :: "MCPServerSpec list"
  asLimits :: "ArkonisLimits option"
  asLivenessProbe :: "ArkonisProbe option"
  asConfigRef :: "LocalObjectReference option"
  asMemoryRef :: "LocalObjectReference option"
  asTools :: "WebhookToolSpec list"

record ArkAgentStatus =
  aReadyReplicas :: i32
  aReplicas :: i32
  aObservedGeneration :: i64
  aDailyTokenUsage :: "TokenUsage option"
  aConditions :: "Condition list"

record ArkAgent =
  agMeta :: ObjectMeta
  agSpec :: ArkAgentSpec
  agStatus :: ArkAgentStatus

section \<open>ArkEvent\<close>

datatype TriggerSourceType =
  TriggerSourceCron | TriggerSourceWebhook | TriggerSourcePipelineOutput | TriggerSourceOther string

datatype ConcurrencyPolicy = ConcurrencyAllow | ConcurrencyForbid

record PipelineOutputSource =
  poName :: string
  poOnPhase :: FlowPhase

record ArkEventSource =
  srcType :: TriggerSourceType
  srcCron :: string
  srcPipelineOutput :: "PipelineOutputSource option"

record ArkEventTarget =
  tgPipeline :: string
  tgInput :: "(string \<times> string) list"

record ArkEventSpec =
  esSource :: ArkEventSource
  esTargets :: "ArkEventTarget list"
  esConcurrencyPolicy :: ConcurrencyPolicy
  esSuspended :: bool

record ArkEventStatus =
  eLastFiredAt :: "time option"
  eNextFireAt :: "time option"
  eFiredCount :: i64
  eWebhookURL :: string
  eObservedGeneration :: i64
  eConditions :: "Condition list"

record ArkEvent =
  evMeta :: ObjectMeta
  evSpec :: ArkEventSpec
  evStatus :: ArkEventStatus

section \<open>ArkSettings, ArkMemory, ArkService\<close>

datatype MemoryBackend =
  MemoryBackendEmpty \<comment> \<open>the zero value of an omitted field\<close>
  | MemoryBackendInContext | MemoryBackendVectorStore | MemoryBackendRedis

record PromptFragments =
  pfPersona :: string
  pfOutputRules :: string

record ArkSettingsSpec =
  ssTemperature :: string
  ssOutputFormat :: string
  ssMemoryBackend :: MemoryBackend
  ssPromptFragments :: PromptFragments

record ArkSettingsStatus =
  setObservedGeneration :: i64
  setConditions :: "Condition list"

record ArkSettings =
  seMeta :: ObjectMeta
  seSpec :: ArkSettingsSpec
  seStatus :: ArkSettingsStatus

datatype VectorStoreProvider = Qdrant | Pinecone | Weaviate

record RedisMemoryConfig =
  rmcSecretRef :: LocalObjectReference
  rmcTTLSeconds :: i64
  rmcMaxEntries :: i64

record VectorStoreMemoryConfig =
  vmcProvider :: VectorStoreProvider
  vmcEndpoint :: string
  vmcCollection :: string
  vmcSecretRef :: "LocalObjectReference option"
  vmcTTLSeconds :: i64

record ArkMemorySpec =
  msBackend :: MemoryBackend
  msRedis :: "RedisMemoryConfig option"
  msVectorStore :: "VectorStoreMemoryConfig option"

record ArkMemoryStatus =
  memObservedGeneration :: i64
  memConditions :: "Condition list"

record ArkMemory =
  meMeta :: ObjectMeta
  meSpec :: ArkMemorySpec
  meStatus :: ArkMemoryStatus

datatype RoutingStrategy = RoundRobin | LeastBusy | RandomRoute

datatype AgentProtocol = ProtocolA2A | ProtocolHTTP

record ArkServicePort =
  vpProtocol :: AgentProtocol
  vpPort :: i32

record ArkServiceSpec =
  vsSelectorAgent :: string
  vsRoutingStrategy :: RoutingStrategy
  vsPorts :: "ArkServicePort list"

record ArkServiceStatus =
  vReadyReplicas :: i32
  vObservedGeneration :: i64
  vConditions :: "Condition list"

record ArkService =
  svMeta :: ObjectMeta
  svSpec :: ArkServiceSpec
  svStatus :: ArkServiceStatus

section \<open>What the model takes from outside the repository\<close>

text \<open>
  \<open>templates\<close>: \<open>text/template\<close> with \<open>missingkey=zero\<close>, as parsing (an error, or the parsed
  template) and executing the parsed template on data. \<open>json.Unmarshal\<close> into an \<open>any\<close>. The
  condition helpers of \<open>k8s.io/apimachinery/pkg/api/meta\<close>. \<open>rangeNat\<close> is the order in which a
  \<open>range\<close> over a Go map of pointers visits its entries (indices here), \<open>rangeInputs\<close> the order for
  a map of strings: Go leaves both unspecified.
\<close>

record ext =
  xParse :: "string \<Rightarrow> gotext + (any \<Rightarrow> gotext + string)"
  xUnmarshal :: "string \<Rightarrow> gotext + any"
  xSetStatusCondition :: "Condition list \<Rightarrow> Condition \<Rightarrow> Condition list"
  xRemoveStatusCondition :: "Condition list \<Rightarrow> string \<Rightarrow> Condition list"
  xIsStatusConditionTrue :: "Condition list \<Rightarrow> string \<Rightarrow> bool"
  xRangeNat :: "nat list \<Rightarrow> nat list"
  xRangeInputs :: "(string \<times> string) list \<Rightarrow> (string \<times> string) list"

text \<open>Ranging over a map visits each entry exactly once.\<close>

definition range_ok :: "ext \<Rightarrow> bool" where
  "range_ok E \<longleftrightarrow> (\<forall>xs. mset (xRangeNat E xs) = mset xs) \<and> (\<forall>xs. mset (xRangeInputs E xs) = mset xs)"

text \<open>The three documented laws of the condition helpers that the controllers rely on.\<close>

definition condition_laws :: "ext \<Rightarrow> bool" where
  "condition_laws E \<longleftrightarrow>
     (\<forall>cs c. \<exists>c' \<in> set (xSetStatusCondition E cs c).
        cType c' = cType c \<and> cStatus c' = cStatus c \<and> cReason c' = cReason c \<and> cMessage c' = cMessage c) \<and>
     (\<forall>cs c. cStatus c = ConditionTrue \<longrightarrow> xIsStatusConditionTrue E (xSetStatusCondition E cs c) (cType c)) \<and>
     (\<forall>cs t. \<not> xIsStatusConditionTrue E (xRemoveStatusCondition E cs t) t)"

lemma range_ok_nat: "range_ok E \<Longrightarrow> set (xRangeNat E xs) = set xs"
  unfolding range_ok_def by (metis set_mset_mset)

lemma range_ok_nat_distinct: "range_ok E \<Longrightarrow> distinct (xRangeNat E xs) = distinct xs"
  unfolding range_ok_def by (metis mset_eq_imp_distinct_iff)

lemma range_ok_inputs: "range_ok E \<Longrightarrow> mset (xRangeInputs E xs) = mset xs"
  by (simp add: range_ok_def)

text \<open>Errors of the API server's client.\<close>

datatype api_error = ApiNotFound gotext | ApiAlreadyExists gotext | ApiOther gotext

fun IsNotFound :: "api_error \<Rightarrow> bool" where
  "IsNotFound (ApiNotFound _) = True"
| "IsNotFound _ = False"

fun api_text :: "api_error \<Rightarrow> gotext" where
  "api_text (ApiNotFound t) = t"
| "api_text (ApiAlreadyExists t) = t"
| "api_text (ApiOther t) = t"

text \<open>\<open>ctrl.Result\<close>: only \<open>RequeueAfter\<close> is used.\<close>

record ctrl_result =
  RequeueAfter :: duration

definition no_requeue :: ctrl_result where
  "no_requeue = \<lparr>RequeueAfter = 0\<rparr>"

section \<open>The order of step phases\<close>

text \<open>
  Phases are ordered by how far a step has come; only a loop moves a step backwards.
\<close>

fun phase_rank :: "StepPhase \<Rightarrow> nat" where
  "phase_rank StepPending = 0"
| "phase_rank StepRunning = 1"
| "phase_rank StepSucceeded = 2"
| "phase_rank StepFailed = 3"
| "phase_rank StepSkipped = 4"

lemma phase_rank_inj [simp]: "phase_rank p = phase_rank q \<longleftrightarrow> p = q"
  by (cases p; cases q) auto

instantiation StepPhase :: linorder
begin

definition less_eq_StepPhase :: "StepPhase \<Rightarrow> StepPhase \<Rightarrow> bool" where
  "less_eq_StepPhase p q \<longleftrightarrow> phase_rank p \<le> phase_rank q"

definition less_StepPhase :: "StepPhase \<Rightarrow> StepPhase \<Rightarrow> bool" where
  "less_StepPhase p q \<longleftrightarrow> phase_rank p < phase_rank q"

instance
proof
  fix p q :: StepPhase
  assume "p \<le> q" and "q \<le> p"
  then have "phase_rank p = phase_rank q" by (simp add: less_eq_StepPhase_def)
  then show "p = q" by simp
qed (auto simp: less_eq_StepPhase_def less_StepPhase_def)

end

end
