(* ===== verification/FlowDag.thy ===== *)
theory FlowDag
  imports ArkTypes
begin

text \<open>
  \<^verbatim>\<open>internal/flow/dag.go\<close>: terminal phases, the name-to-status index, the readiness test and the
  validation of the dependency graph. The first half is the code; the second proves that the
  three-colour search accepts exactly the flows whose dependencies are known and acyclic.
\<close>

section \<open>Phases and the status index\<close>

fun IsTerminalPhase :: "FlowPhase \<Rightarrow> bool" where
  "IsTerminalPhase p = (p = FlowSucceeded \<or> p = FlowFailed)"

text \<open>
  \<open>map[string]*ArkFlowStepStatus\<close>: each pointer is an index into \<open>Status.Steps\<close>. A name that
  occurs twice maps to its last occurrence, because the loop overwrites.
\<close>

fun index_from :: "nat \<Rightarrow> string list \<Rightarrow> (string \<rightharpoonup> nat) \<Rightarrow> (string \<rightharpoonup> nat)" where
  "index_from k [] m = m"
| "index_from k (n # ns) m = index_from (Suc k) ns (m(n \<mapsto> k))"

definition BuildStatusByName :: "ArkFlow \<Rightarrow> (string \<rightharpoonup> nat)" where
  "BuildStatusByName f = index_from 0 (map stName (fSteps (flStatus f))) Map.empty"

fun DepsSucceeded :: "string list \<Rightarrow> (string \<rightharpoonup> nat) \<Rightarrow> ArkFlowStepStatus list \<Rightarrow> bool" where
  "DepsSucceeded [] m sts = True"
| "DepsSucceeded (dep # deps) m sts =
     (case m dep of
        None \<Rightarrow> False
      | Some i \<Rightarrow>
          if stPhase (sts ! i) \<noteq> StepSucceeded \<and> stPhase (sts ! i) \<noteq> StepSkipped then False
          else DepsSucceeded deps m sts)"

section \<open>Validation\<close>

text \<open>The dependency check: the first unknown name, in the order of the steps and of their lists.\<close>

fun check_step_deps :: "string set \<Rightarrow> string \<Rightarrow> string list \<Rightarrow> gotext option" where
  "check_step_deps names step [] = None"
| "check_step_deps names step (dep # deps) =
     (if dep \<notin> names
      then Some (TFmt ''step %q depends on unknown step %q'' [GStr step, GStr dep])
      else check_step_deps names step deps)"

fun check_deps :: "string set \<Rightarrow> ArkFlowStep list \<Rightarrow> gotext option" where
  "check_deps names [] = None"
| "check_deps names (s # ss) =
     (case check_step_deps names (sName s) (sDependsOn s) of
        Some e \<Rightarrow> Some e
      | None \<Rightarrow> check_deps names ss)"

datatype color = White | Gray | Black

text \<open>
  The adjacency map \<open>adj\<close>, last assignment first, so that \<^const>\<open>map_of\<close> reads it as the Go map; a
  missing key reads as the empty list.
\<close>

type_synonym adjacency = "(string \<times> string list) list"

definition flow_adj :: "ArkFlowStep list \<Rightarrow> adjacency" where
  "flow_adj steps = rev (map (\<lambda>s. (sName s, sDependsOn s)) steps)"

definition deps_of :: "adjacency \<Rightarrow> string \<Rightarrow> string list" where
  "deps_of adj n = (case map_of adj n of None \<Rightarrow> [] | Some ds \<Rightarrow> ds)"

definition cycle_error :: "string \<Rightarrow> string \<Rightarrow> gotext" where
  "cycle_error n d =
     TFmt (''cycle detected: step %q '' @ [CHR 0xE2, CHR 0x86, CHR 0x92] @ '' %q forms a cycle'')
       [GStr n, GStr d]"

text \<open>
  \<open>dfs_deps adj n ds c\<close> is the body of the closure \<open>dfs\<close> from the point where \<open>color[n]\<close> is gray and the
  dependencies \<open>ds\<close> of \<open>n\<close> are still to be visited; \<open>dfs\<close> is the whole call.
\<close>

function dfs_deps :: "adjacency \<Rightarrow> string \<Rightarrow> string list \<Rightarrow> (string \<Rightarrow> color) \<Rightarrow> gotext + (string \<Rightarrow> color)" where
  "dfs_deps adj n [] c = Inr (c(n := Black))"
| "dfs_deps adj n (d # ds) c =
     (case c d of
        Gray \<Rightarrow> Inl (cycle_error n d)
      | White \<Rightarrow>
          (case dfs_deps adj d (deps_of adj d) (c(d := Gray)) of
             Inl e \<Rightarrow> Inl e
           | Inr c' \<Rightarrow> dfs_deps adj n ds c')
      | Black \<Rightarrow> dfs_deps adj n ds c)"
  by pat_completeness auto

definition white_keys :: "adjacency \<Rightarrow> (string \<Rightarrow> color) \<Rightarrow> string set" where
  "white_keys adj c = {k \<in> fst ` set adj. c k = White}"

lemma finite_white_keys [simp]: "finite (white_keys adj c)"
  by (simp add: white_keys_def)

lemma deps_of_outside: "d \<notin> fst ` set adj \<Longrightarrow> deps_of adj d = []"
  by (simp add: deps_of_def map_of_eq_None_iff [THEN iffD2])

lemma dfs_deps_white:
  "dfs_deps_dom (adj, n, ds, c) \<Longrightarrow> dfs_deps adj n ds c = Inr c' \<Longrightarrow> c' k = White \<Longrightarrow> c k = White"
proof (induction arbitrary: c' rule: dfs_deps.pinduct)
  case (1 adj n c)
  then show ?case by (auto simp: dfs_deps.psimps split: if_splits)
next
  case (2 adj n d ds c)
  show ?case
  proof (cases "c d")
    case White
    with "2.hyps" "2.prems" obtain c1
      where inner: "dfs_deps adj d (deps_of adj d) (c(d := Gray)) = Inr c1"
        and outer: "dfs_deps adj n ds c1 = Inr c'"
      by (auto simp: dfs_deps.psimps split: sum.splits)
    have "c1 k = White" using "2.IH"(2) [OF White inner outer "2.prems"(2)] .
    then have "(c(d := Gray)) k = White" using "2.IH"(1) [OF White inner] by blast
    then show ?thesis by (simp split: if_splits)
  next
    case Gray
    with "2.hyps" "2.prems" show ?thesis by (simp add: dfs_deps.psimps)
  next
    case Black
    with "2.hyps" "2.prems" have "dfs_deps adj n ds c = Inr c'" by (simp add: dfs_deps.psimps)
    then show ?thesis using "2.IH"(3) [OF Black] "2.prems"(2) by blast
  qed
qed

lemma white_keys_mono:
  "(\<And>k. c' k = White \<Longrightarrow> c k = White) \<Longrightarrow> card (white_keys adj c') \<le> card (white_keys adj c)"
  by (rule card_mono) (auto simp: white_keys_def)

lemma white_keys_mark:
  "d \<in> fst ` set adj \<Longrightarrow> c d = White \<Longrightarrow>
     card (white_keys adj (c(d := Gray))) < card (white_keys adj c)"
  by (rule psubset_card_mono) (auto simp: white_keys_def)

termination dfs_deps
proof (relation "measures [\<lambda>(adj, n, ds, c). card (white_keys adj c), \<lambda>(adj, n, ds, c). length ds]")
  show "wf (measures [\<lambda>(adj, n, ds, c). card (white_keys adj c), \<lambda>(adj, n, ds, c). length ds])"
    by simp
next
  fix adj :: adjacency and n d :: string and ds :: "string list" and c :: "string \<Rightarrow> color"
  assume white: "c d = White"
  show "((adj, d, deps_of adj d, c(d := Gray)), adj, n, d # ds, c)
    \<in> measures [\<lambda>(adj, n, ds, c). card (white_keys adj c), \<lambda>(adj, n, ds, c). length ds]"
  proof (cases "d \<in> fst ` set adj")
    case True
    with white show ?thesis by (simp add: white_keys_mark)
  next
    case False
    moreover have "card (white_keys adj (c(d := Gray))) \<le> card (white_keys adj c)"
      by (rule white_keys_mono) (auto split: if_splits)
    ultimately show ?thesis by (auto simp: deps_of_outside)
  qed
next
  fix adj :: adjacency and n d :: string and ds :: "string list" and c c' :: "string \<Rightarrow> color"
  assume "c d = White" and r: "dfs_deps adj d (deps_of adj d) (c(d := Gray)) = Inr c'"
    and dom: "dfs_deps_dom (adj, d, deps_of adj d, c(d := Gray))"
  have "c k = White" if "c' k = White" for k
    using dfs_deps_white [OF dom r that] by (auto split: if_splits)
  then have "card (white_keys adj c') \<le> card (white_keys adj c)" by (rule white_keys_mono)
  then show "((adj, n, ds, c'), adj, n, d # ds, c)
    \<in> measures [\<lambda>(adj, n, ds, c). card (white_keys adj c), \<lambda>(adj, n, ds, c). length ds]"
    by auto
qed simp_all

definition dfs :: "adjacency \<Rightarrow> string \<Rightarrow> (string \<Rightarrow> color) \<Rightarrow> gotext + (string \<Rightarrow> color)" where
  "dfs adj n c = dfs_deps adj n (deps_of adj n) (c(n := Gray))"

fun dfs_steps :: "adjacency \<Rightarrow> ArkFlowStep list \<Rightarrow> (string \<Rightarrow> color) \<Rightarrow> gotext + (string \<Rightarrow> color)" where
  "dfs_steps adj [] c = Inr c"
| "dfs_steps adj (s # ss) c =
     (if c (sName s) = White
      then (case dfs adj (sName s) c of Inl e \<Rightarrow> Inl e | Inr c' \<Rightarrow> dfs_steps adj ss c')
      else dfs_steps adj ss c)"

definition ValidateDAG :: "ArkFlow \<Rightarrow> gotext option" where
  "ValidateDAG f =
     (let steps = fsSteps (flSpec f) in
      case check_deps (sName ` set steps) steps of
        Some e \<Rightarrow> Some e
      | None \<Rightarrow>
          (case dfs_steps (flow_adj steps) steps (\<lambda>_. White) of
             Inl e \<Rightarrow> Some e
           | Inr _ \<Rightarrow> None))"

section \<open>The search is right\<close>

definition edges :: "adjacency \<Rightarrow> (string \<times> string) set" where
  "edges adj = {(a, d). d \<in> set (deps_of adj a)}"

lemma edgesI [intro]: "d \<in> set (deps_of adj a) \<Longrightarrow> (a, d) \<in> edges adj"
  by (simp add: edges_def)

text \<open>What a successful search from \<open>n\<close> does to the colours.\<close>

lemma dfs_deps_effect:
  assumes "dfs_deps adj n ds c = Inr c'" and "c n = Gray"
  shows "c' n = Black \<and> (\<forall>k. c k = Black \<longrightarrow> c' k = Black) \<and>
    (\<forall>k. k \<noteq> n \<longrightarrow> (c' k = Gray \<longleftrightarrow> c k = Gray)) \<and> (\<forall>d \<in> set ds. c' d = Black)"
  using assms
proof (induction adj n ds c arbitrary: c' rule: dfs_deps.induct)
  case (1 adj n c)
  then show ?case by auto
next
  case (2 adj n d ds c)
  show ?case
  proof (cases "c d")
    case White
    with "2.prems" have "d \<noteq> n" by auto
    from White "2.prems" obtain c1
      where inner: "dfs_deps adj d (deps_of adj d) (c(d := Gray)) = Inr c1"
        and outer: "dfs_deps adj n ds c1 = Inr c'"
      by (auto split: sum.splits)
    have E1: "c1 d = Black \<and> (\<forall>k. (c(d := Gray)) k = Black \<longrightarrow> c1 k = Black) \<and>
        (\<forall>k. k \<noteq> d \<longrightarrow> (c1 k = Gray \<longleftrightarrow> (c(d := Gray)) k = Gray))"
      using "2.IH"(1) [OF White inner] by auto
    have B1: "c k = Black \<Longrightarrow> c1 k = Black" for k
      using E1 White by (cases "k = d") auto
    have G1: "c1 k = Gray \<longleftrightarrow> c k = Gray" for k
      using E1 White by (cases "k = d") auto
    with "2.prems"(2) have "c1 n = Gray" by blast
    from "2.IH"(2) [OF White inner outer this] E1 B1 G1 show ?thesis by auto
  next
    case Gray
    with "2.prems" show ?thesis by simp
  next
    case Black
    with "2.prems" have "dfs_deps adj n ds c = Inr c'" by simp
    from "2.IH"(3) [OF Black this "2.prems"(2)] Black show ?thesis by auto
  qed
qed

text \<open>Black nodes are closed under dependencies and lie on no cycle.\<close>

definition black_closed :: "adjacency \<Rightarrow> (string \<Rightarrow> color) \<Rightarrow> bool" where
  "black_closed adj c \<longleftrightarrow> (\<forall>b. c b = Black \<longrightarrow>
     (\<forall>d \<in> set (deps_of adj b). c d = Black) \<and> (b, b) \<notin> (edges adj)\<^sup>+)"

lemma black_closed_reaches:
  assumes "(a, b) \<in> (edges adj)\<^sup>*" and "black_closed adj c" and "c a = Black"
  shows "c b = Black"
  using assms by (induction rule: rtrancl_induct) (auto simp: black_closed_def edges_def)

lemma black_closed_mark_gray:
  "black_closed adj c \<Longrightarrow> c d = White \<Longrightarrow> black_closed adj (c(d := Gray))"
  unfolding black_closed_def by (metis color.distinct(3,5) fun_upd_apply)

lemma black_closed_finish:
  assumes closed: "black_closed adj c" and gray: "c n = Gray"
    and deps: "\<forall>d \<in> set (deps_of adj n). c d = Black"
  shows "black_closed adj (c(n := Black))"
proof -
  have "(n, n) \<notin> (edges adj)\<^sup>+"
  proof
    assume "(n, n) \<in> (edges adj)\<^sup>+"
    then obtain d where "(n, d) \<in> edges adj" and "(d, n) \<in> (edges adj)\<^sup>*"
      by (meson tranclD)
    with deps have "c d = Black" by (simp add: edges_def)
    then have "c n = Black" using \<open>(d, n) \<in> (edges adj)\<^sup>*\<close> closed by (blast intro: black_closed_reaches)
    with gray show False by simp
  qed
  with closed deps show ?thesis unfolding black_closed_def by auto
qed

lemma dfs_deps_closed:
  assumes "dfs_deps adj n ds c = Inr c'" and "c n = Gray" and "black_closed adj c"
    and "\<forall>d \<in> set (deps_of adj n). d \<in> set ds \<or> c d = Black"
  shows "black_closed adj c'"
  using assms
proof (induction adj n ds c arbitrary: c' rule: dfs_deps.induct)
  case (1 adj n c)
  then show ?case by (auto intro: black_closed_finish)
next
  case (2 adj n d ds c)
  show ?case
  proof (cases "c d")
    case White
    with "2.prems" have "d \<noteq> n" by auto
    from White "2.prems" obtain c1
      where inner: "dfs_deps adj d (deps_of adj d) (c(d := Gray)) = Inr c1"
        and outer: "dfs_deps adj n ds c1 = Inr c'"
      by (auto split: sum.splits)
    have "black_closed adj (c(d := Gray))"
      using "2.prems"(3) White by (rule black_closed_mark_gray)
    then have closed1: "black_closed adj c1"
      by (rule "2.IH"(1) [OF White inner, rotated]) auto
    note E = dfs_deps_effect [OF inner]
    have E1: "c1 d = Black" "c1 n = Gray"
      using E \<open>d \<noteq> n\<close> "2.prems"(2) by auto
    have B1: "c k = Black \<Longrightarrow> c1 k = Black" for k
      using E White by (cases "k = d") auto
    show ?thesis
      by (rule "2.IH"(2) [OF White inner outer E1(2) closed1]) (use "2.prems"(4) E1(1) B1 in auto)
  next
    case Gray
    with "2.prems" show ?thesis by simp
  next
    case Black
    with "2.prems"(1) have rest: "dfs_deps adj n ds c = Inr c'" by simp
    show ?thesis
      by (rule "2.IH"(3) [OF Black rest "2.prems"(2,3)]) (use "2.prems"(4) Black in auto)
  qed
qed

text \<open>An error is a real cycle: the gray nodes are the path that leads to the current one.\<close>

lemma dfs_deps_error:
  assumes "dfs_deps adj n ds c = Inl e" and "c n = Gray" and "set ds \<subseteq> set (deps_of adj n)"
    and "\<forall>g. c g = Gray \<longrightarrow> (g, n) \<in> (edges adj)\<^sup>*"
  shows "\<exists>a d. e = cycle_error a d \<and> (a, d) \<in> edges adj \<and> (d, a) \<in> (edges adj)\<^sup>*"
  using assms
proof (induction adj n ds c rule: dfs_deps.induct)
  case (1 adj n c)
  then show ?case by simp
next
  case (2 adj n d ds c)
  have edge: "(n, d) \<in> edges adj" using "2.prems"(3) by auto
  show ?case
  proof (cases "c d")
    case White
    with "2.prems" have "d \<noteq> n" by auto
    have path: "\<forall>g. (c(d := Gray)) g = Gray \<longrightarrow> (g, d) \<in> (edges adj)\<^sup>*"
      using "2.prems"(4) edge by (auto intro: rtrancl_into_rtrancl)
    show ?thesis
    proof (cases "dfs_deps adj d (deps_of adj d) (c(d := Gray))")
      case (Inl e')
      with "2.prems"(1) White have "e' = e" by simp
      with Inl have "dfs_deps adj d (deps_of adj d) (c(d := Gray)) = Inl e" by blast
      then show ?thesis by (rule "2.IH"(1) [OF White]) (use path in auto)
    next
      case (Inr c1)
      with "2.prems"(1) White have outer: "dfs_deps adj n ds c1 = Inl e" by simp
      from dfs_deps_effect [OF Inr] have g: "\<And>k. c1 k = Gray \<Longrightarrow> c k = Gray" "c1 n = Gray"
        using \<open>d \<noteq> n\<close> "2.prems"(2) by (auto split: if_splits) (metis color.distinct(5))
      show ?thesis
        using "2.IH"(2) [OF White Inr outer g(2)] "2.prems"(3,4) g(1) by auto
    qed
  next
    case Gray
    with "2.prems"(1) have "e = cycle_error n d" by simp
    with edge "2.prems"(4) Gray show ?thesis by blast
  next
    case Black
    with "2.prems" show ?thesis using "2.IH"(3) [OF Black] by auto
  qed
qed

lemma dfs_steps_Inr:
  assumes "dfs_steps adj ss c = Inr c'" and "black_closed adj c" and "\<forall>k. c k \<noteq> Gray"
  shows "black_closed adj c' \<and> (\<forall>k. c' k \<noteq> Gray) \<and> (\<forall>k. c k = Black \<longrightarrow> c' k = Black) \<and>
    (\<forall>s \<in> set ss. c' (sName s) = Black)"
  using assms
proof (induction adj ss c arbitrary: c' rule: dfs_steps.induct)
  case (1 adj c)
  then show ?case by simp
next
  case (2 adj s ss c)
  show ?case
  proof (cases "c (sName s) = White")
    case True
    with "2.prems" obtain c1
      where inner: "dfs_deps adj (sName s) (deps_of adj (sName s)) (c(sName s := Gray)) = Inr c1"
        and outer: "dfs_steps adj ss c1 = Inr c'"
      by (auto simp: dfs_def split: sum.splits)
    note E = dfs_deps_effect [OF inner]
    have closed: "black_closed adj c1"
      by (rule dfs_deps_closed [OF inner _ black_closed_mark_gray [OF "2.prems"(2) True]]) auto
    have nogray: "c1 k \<noteq> Gray" for k
      using E "2.prems"(3) by (cases "k = sName s") auto
    have black: "c k = Black \<Longrightarrow> c1 k = Black" for k
      using E True by (cases "k = sName s") auto
    show ?thesis
      using "2.IH"(1) [OF True _ outer closed] inner nogray black E by (auto simp: dfs_def)
  next
    case False
    with "2.prems" have rest: "dfs_steps adj ss c = Inr c'" and "c (sName s) = Black"
      by (auto intro: color.exhaust [of "c (sName s)"])
    with "2.IH"(2) [OF False rest "2.prems"(2,3)] show ?thesis by auto
  qed
qed

lemma dfs_steps_Inl:
  assumes "dfs_steps adj ss c = Inl e" and "\<forall>k. c k \<noteq> Gray"
  shows "\<exists>a d. e = cycle_error a d \<and> (a, d) \<in> edges adj \<and> (d, a) \<in> (edges adj)\<^sup>*"
  using assms
proof (induction adj ss c rule: dfs_steps.induct)
  case (1 adj c)
  then show ?case by simp
next
  case (2 adj s ss c)
  show ?case
  proof (cases "c (sName s) = White")
    case True
    show ?thesis
    proof (cases "dfs adj (sName s) c")
      case (Inl e')
      with "2.prems"(1) True have "dfs_deps adj (sName s) (deps_of adj (sName s)) (c(sName s := Gray)) = Inl e"
        by (simp add: dfs_def)
      then show ?thesis by (rule dfs_deps_error) (use "2.prems"(2) in \<open>auto split: if_splits\<close>)
    next
      case (Inr c1)
      with "2.prems"(1) True have rest: "dfs_steps adj ss c1 = Inl e" by simp
      have "c1 k \<noteq> Gray" for k
        using dfs_deps_effect [OF Inr [unfolded dfs_def]] "2.prems"(2) by (cases "k = sName s") auto
      with "2.IH"(1) [OF True Inr rest] show ?thesis by blast
    qed
  next
    case False
    with "2.prems" have "dfs_steps adj ss c = Inl e" by simp
    from "2.IH"(2) [OF False this "2.prems"(2)] show ?thesis .
  qed
qed

section \<open>The specification of validation\<close>

text \<open>Every dependency names a step, and the dependency relation has no cycle.\<close>

definition deps_known :: "ArkFlow \<Rightarrow> bool" where
  "deps_known f \<longleftrightarrow> (\<Union>s \<in> set (fsSteps (flSpec f)). set (sDependsOn s)) \<subseteq> sName ` set (fsSteps (flSpec f))"

definition flow_graph :: "ArkFlow \<Rightarrow> (string \<times> string) set" where
  "flow_graph f = edges (flow_adj (fsSteps (flSpec f)))"

lemma check_step_deps_None: "check_step_deps names n ds = None \<longleftrightarrow> set ds \<subseteq> names"
  by (induction ds) auto

lemma check_deps_None: "check_deps names ss = None \<longleftrightarrow> (\<Union>s \<in> set ss. set (sDependsOn s)) \<subseteq> names"
proof (induction ss)
  case Nil
  then show ?case by simp
next
  case (Cons s ss)
  then show ?case
    using check_step_deps_None [of names "sName s" "sDependsOn s"]
    by (cases "check_step_deps names (sName s) (sDependsOn s)") auto
qed

lemma check_step_deps_Some:
  "check_step_deps names n ds = Some e \<Longrightarrow>
     \<exists>d \<in> set ds. d \<notin> names \<and> e = TFmt ''step %q depends on unknown step %q'' [GStr n, GStr d]"
  by (induction ds) (auto split: if_splits)

lemma check_deps_Some:
  "check_deps names ss = Some e \<Longrightarrow>
     \<exists>s \<in> set ss. \<exists>d \<in> set (sDependsOn s). d \<notin> names \<and>
       e = TFmt ''step %q depends on unknown step %q'' [GStr (sName s), GStr d]"
  by (induction ss) (auto split: option.splits dest: check_step_deps_Some)

lemma edges_flow_adj_names:
  assumes "(a, d) \<in> edges (flow_adj ss)"
  shows "\<exists>s \<in> set ss. sName s = a \<and> d \<in> set (sDependsOn s)"
proof -
  from assms obtain ds where "map_of (flow_adj ss) a = Some ds" and "d \<in> set ds"
    by (cases "map_of (flow_adj ss) a") (auto simp: edges_def deps_of_def)
  then show ?thesis by (auto simp: flow_adj_def dest!: map_of_SomeD)
qed

lemma deps_of_flow_adj:
  assumes "distinct (map sName ss)" and "s \<in> set ss"
  shows "deps_of (flow_adj ss) (sName s) = sDependsOn s"
proof -
  have "distinct (map fst (flow_adj ss))"
    using assms(1) by (simp add: flow_adj_def rev_map [symmetric] comp_def)
  moreover have "(sName s, sDependsOn s) \<in> set (flow_adj ss)"
    using assms(2) by (simp add: flow_adj_def)
  ultimately have "map_of (flow_adj ss) (sName s) = Some (sDependsOn s)"
    by (rule map_of_is_SomeI)
  then show ?thesis by (simp add: deps_of_def)
qed

lemma edges_flow_adj_distinct:
  assumes "distinct (map sName ss)"
  shows "edges (flow_adj ss) = {(sName s, d) | s d. s \<in> set ss \<and> d \<in> set (sDependsOn s)}"
proof (rule set_eqI, clarify)
  fix a d
  show "((a, d) \<in> edges (flow_adj ss)) = ((a, d) \<in> {(sName s, d) | s d. s \<in> set ss \<and> d \<in> set (sDependsOn s)})"
    using edges_flow_adj_names [of a d ss] deps_of_flow_adj [OF assms] by (auto simp: edges_def)
qed

lemma dfs_all_Inr:
  assumes "dfs_steps (flow_adj ss) ss (\<lambda>_. White) = Inr c"
  shows "acyclic (edges (flow_adj ss))"
proof (rule acyclicI, rule allI, rule notI)
  fix a
  assume cyc: "(a, a) \<in> (edges (flow_adj ss))\<^sup>+"
  then obtain s where "s \<in> set ss" and "sName s = a"
    by (meson edges_flow_adj_names tranclD)
  moreover have "black_closed (flow_adj ss) c \<and> (\<forall>s \<in> set ss. c (sName s) = Black)"
    using dfs_steps_Inr [OF assms] by (simp add: black_closed_def)
  ultimately show False using cyc by (auto simp: black_closed_def)
qed

lemma dfs_all_Inl:
  assumes "dfs_steps (flow_adj ss) ss (\<lambda>_. White) = Inl e"
  shows "\<exists>a d. e = cycle_error a d \<and> (a, d) \<in> edges (flow_adj ss) \<and> (d, a) \<in> (edges (flow_adj ss))\<^sup>*"
  by (rule dfs_steps_Inl [OF assms]) simp

lemma ValidateDAG_None:
  "ValidateDAG f = None \<longleftrightarrow> deps_known f \<and> acyclic (flow_graph f)"
proof (cases "check_deps (sName ` set (fsSteps (flSpec f))) (fsSteps (flSpec f))")
  case None
  show ?thesis
  proof (cases "dfs_steps (flow_adj (fsSteps (flSpec f))) (fsSteps (flSpec f)) (\<lambda>_. White)")
    case (Inl e)
    with dfs_all_Inl [OF Inl] have "\<not> acyclic (flow_graph f)"
      unfolding flow_graph_def acyclic_def by (meson rtrancl_into_trancl2)
    with None Inl show ?thesis by (simp add: ValidateDAG_def Let_def)
  next
    case (Inr c)
    from None have "deps_known f" by (simp only: deps_known_def check_deps_None)
    with None Inr dfs_all_Inr [OF Inr] show ?thesis
      by (simp add: ValidateDAG_def Let_def flow_graph_def)
  qed
next
  case (Some e)
  then have "\<not> deps_known f"
    unfolding deps_known_def check_deps_None [symmetric] by simp
  with Some show ?thesis by (simp add: ValidateDAG_def Let_def)
qed

section \<open>The interface of the status index\<close>

text \<open>
  What every user of \<open>statusByName\<close> relies on: a pointer leads to an entry with the name it was
  looked up by, and every name of the status has a pointer. Two names never share an entry, so
  writes through different names do not interfere.
\<close>

locale status_index =
  fixes m :: "string \<rightharpoonup> nat" and names :: "string list"
  assumes index_name: "m n = Some i \<Longrightarrow> i < length names \<and> names ! i = n"
    and index_total: "n \<in> set names \<Longrightarrow> \<exists>i. m n = Some i"
begin

lemma no_alias: "m a = Some i \<Longrightarrow> m b = Some i \<Longrightarrow> a = b"
  using index_name by metis

lemma domain: "dom m = set names"
proof (rule set_eqI)
  fix n
  show "n \<in> dom m \<longleftrightarrow> n \<in> set names"
    using index_name [of n] index_total [of n] by (metis domD domI nth_mem)
qed

lemma index_unique:
  assumes "distinct names" and "i < length names"
  shows "m (names ! i) = Some i"
proof -
  obtain j where j: "m (names ! i) = Some j" using index_total assms(2) by (meson nth_mem)
  with index_name have "j < length names" and "names ! j = names ! i" by auto
  with assms have "j = i" by (simp add: nth_eq_iff_index_eq)
  with j show ?thesis by simp
qed

lemma deps_succeeded:
  "DepsSucceeded deps m sts \<longleftrightarrow>
     (\<forall>d \<in> set deps. \<exists>i. m d = Some i \<and> (stPhase (sts ! i) = StepSucceeded \<or> stPhase (sts ! i) = StepSkipped))"
  by (induction deps) (auto split: option.splits)

end

lemma index_from_Some:
  "index_from k ns m n = Some i \<Longrightarrow>
     (k \<le> i \<and> i < k + length ns \<and> ns ! (i - k) = n) \<or> (m n = Some i \<and> n \<notin> set ns)"
proof (induction ns arbitrary: k m)
  case Nil
  then show ?case by simp
next
  case (Cons a ns)
  from Cons.prems have "index_from (Suc k) ns (m(a \<mapsto> k)) n = Some i" by simp
  from Cons.IH [OF this] show ?case
    by (auto split: if_splits simp: nth_Cons')
qed

lemma index_from_total: "n \<in> set ns \<or> m n \<noteq> None \<Longrightarrow> \<exists>i. index_from k ns m n = Some i"
  by (induction ns arbitrary: k m) auto

interpretation by_name: status_index "BuildStatusByName f" "map stName (fSteps (flStatus f))" for f
proof (unfold_locales, goal_cases)
  case (1 n i)
  then show ?case
    using index_from_Some [of 0 "map stName (fSteps (flStatus f))" Map.empty n i]
    by (simp add: BuildStatusByName_def)
next
  case (2 n)
  then show ?case
    using index_from_total [of n "map stName (fSteps (flStatus f))" Map.empty 0]
    by (simp add: BuildStatusByName_def)
qed

text \<open>With two entries of one name, the earlier one has no pointer: only the last is reachable.\<close>

lemma index_from_last:
  "index_from k ns m n = Some i \<Longrightarrow> j < length ns \<Longrightarrow> ns ! j = n \<Longrightarrow> k + j \<le> i"
proof (induction ns arbitrary: k m j)
  case Nil
  then show ?case by simp
next
  case (Cons a ns)
  show ?case
  proof (cases "n \<in> set ns")
    case True
    then obtain j' where j': "j' < length ns" "ns ! j' = n" by (auto simp: in_set_conv_nth)
    show ?thesis
    proof (cases j)
      case 0
      with Cons.IH [OF _ j'] Cons.prems(1) show ?thesis by fastforce
    next
      case (Suc j1)
      with Cons.IH [of "Suc k" _ j1] Cons.prems show ?thesis by simp
    qed
  next
    case False
    with Cons.prems have "j = 0" by (cases j) auto
    with False Cons.prems show ?thesis
      using index_from_Some [of "Suc k" ns "m(a \<mapsto> k)" n i] by (auto split: if_splits)
  qed
qed

lemma BuildStatusByName_last:
  "BuildStatusByName f n = Some i \<Longrightarrow> j < length (fSteps (flStatus f)) \<Longrightarrow>
     stName (fSteps (flStatus f) ! j) = n \<Longrightarrow> j \<le> i"
  unfolding BuildStatusByName_def
  using index_from_last [of 0 "map stName (fSteps (flStatus f))" Map.empty n i j] by simp

lemma BuildStatusByName_names:
  "map stName (fSteps (flStatus g)) = map stName (fSteps (flStatus f)) \<Longrightarrow>
     BuildStatusByName g = BuildStatusByName f"
  by (simp add: BuildStatusByName_def)

end
