(* ===== verification/FlowTemplate.thy ===== *)
theory FlowTemplate
  imports FlowDag
begin

text \<open>
  \<^verbatim>\<open>internal/flow/template.go\<close>: truthiness, template resolution, the prompt of a step and the template
  data of a flow. \<open>ToLower\<close> maps ASCII letters only, which decides \<open>IsTruthy\<close> exactly: no other
  rune lower-cases to a letter of \<open>false\<close> or \<open>no\<close>, and none becomes or stops being a space.
\<close>

definition nl :: string where "nl = [CHR 0x0A]"

definition IsTruthy :: "string \<Rightarrow> bool" where
  "IsTruthy s = (let s = TrimSpace (ToLower s)
     in s \<noteq> [] \<and> s \<noteq> ''false'' \<and> s \<noteq> ''0'' \<and> s \<noteq> ''no'')"

definition ResolveTemplate :: "ext \<Rightarrow> string \<Rightarrow> any \<Rightarrow> gotext + string" where
  "ResolveTemplate E tmplStr data =
     (case xParse E tmplStr of
        Inl err \<Rightarrow> Inl err
      | Inr t \<Rightarrow> (case t data of Inl err \<Rightarrow> Inl err | Inr buf \<Rightarrow> Inr buf))"

fun prompt_inputs :: "ext \<Rightarrow> any \<Rightarrow> (string \<times> string) list \<Rightarrow> string \<Rightarrow> gotext + string" where
  "prompt_inputs E data [] buf = Inr buf"
| "prompt_inputs E data ((key, tmplStr) # rest) buf =
     (case ResolveTemplate E tmplStr data of
        Inl err \<Rightarrow> Inl (TFmt ''input %q: %w'' [GStr key, GText err])
      | Inr resolved \<Rightarrow> prompt_inputs E data rest (buf @ key @ '': '' @ resolved @ nl))"

definition ResolvePrompt :: "ext \<Rightarrow> ArkFlowStep \<Rightarrow> any \<Rightarrow> gotext + string" where
  "ResolvePrompt E step data =
     (case prompt_inputs E data (xRangeInputs E (sInputs step)) [] of
        Inl err \<Rightarrow> Inl err
      | Inr buf \<Rightarrow>
          Inr (if sOutputSchema step \<noteq> []
               then buf @ nl @ ''Respond with valid JSON matching this schema:'' @ nl @ sOutputSchema step @ nl
               else buf))"

definition step_entry :: "ext \<Rightarrow> ArkFlowStepStatus \<Rightarrow> any" where
  "step_entry E st =
     (let entry = [''output'' \<mapsto> AStr (stOutput st)] in
      AMap (if stOutputJSON st \<noteq> []
            then (case xUnmarshal E (stOutputJSON st) of
                    Inl _ \<Rightarrow> entry
                  | Inr parsed \<Rightarrow> entry(''data'' \<mapsto> parsed))
            else entry))"

definition BuildTemplateData :: "ext \<Rightarrow> ArkFlow \<Rightarrow> (string \<rightharpoonup> nat) \<Rightarrow> any" where
  "BuildTemplateData E f m =
     (let stepsData = (\<lambda>name. map_option (\<lambda>i. step_entry E (fSteps (flStatus f) ! i)) (m name)) in
      AMap [''pipeline'' \<mapsto> AMap [''input'' \<mapsto> AMap (\<lambda>k. map_option AStr (fsInput (flSpec f) k))],
            ''steps'' \<mapsto> AMap stepsData])"

section \<open>What a prompt holds\<close>

text \<open>The line an input contributes, when its template resolves.\<close>

definition prompt_line :: "ext \<Rightarrow> any \<Rightarrow> string \<times> string \<Rightarrow> string" where
  "prompt_line E data kv =
     (case ResolveTemplate E (snd kv) data of Inl _ \<Rightarrow> [] | Inr r \<Rightarrow> fst kv @ '': '' @ r @ nl)"

definition resolves :: "ext \<Rightarrow> any \<Rightarrow> string \<times> string \<Rightarrow> bool" where
  "resolves E data kv \<longleftrightarrow> (case ResolveTemplate E (snd kv) data of Inl _ \<Rightarrow> False | Inr _ \<Rightarrow> True)"

lemma prompt_inputs_ok:
  "list_all (resolves E data) kvs \<Longrightarrow>
     prompt_inputs E data kvs buf = Inr (buf @ concat (map (prompt_line E data) kvs))"
  by (induction kvs arbitrary: buf)
     (auto simp: resolves_def prompt_line_def split: sum.splits)

lemma prompt_inputs_error:
  "\<not> list_all (resolves E data) kvs \<Longrightarrow> \<exists>e. prompt_inputs E data kvs buf = Inl e"
  by (induction kvs arbitrary: buf) (auto simp: resolves_def split: sum.splits)

lemma list_all_range_inputs:
  "range_ok E \<Longrightarrow> list_all P (xRangeInputs E kvs) \<longleftrightarrow> list_all P kvs"
  unfolding list_all_iff using range_ok_inputs [of E kvs] by (metis mset_eq_setD)

lemma ResolvePrompt_total:
  assumes "range_ok E"
  shows "(\<exists>p. ResolvePrompt E step data = Inr p) \<longleftrightarrow> list_all (resolves E data) (sInputs step)"
proof (cases "list_all (resolves E data) (sInputs step)")
  case True
  with assms have "list_all (resolves E data) (xRangeInputs E (sInputs step))"
    by (simp add: list_all_range_inputs)
  from prompt_inputs_ok [OF this] True show ?thesis by (simp add: ResolvePrompt_def)
next
  case False
  with assms have "\<not> list_all (resolves E data) (xRangeInputs E (sInputs step))"
    by (simp add: list_all_range_inputs)
  from prompt_inputs_error [OF this] obtain e
    where "prompt_inputs E data (xRangeInputs E (sInputs step)) [] = Inl e" by blast
  with False show ?thesis by (simp add: ResolvePrompt_def)
qed

end
