(* ===== verification/FlowStep.thy ===== *)
theory FlowStep
  imports FlowTemplate
begin

text \<open>
  \<^verbatim>\<open>internal/flow/step.go\<close>: initialising a flow's steps, parsing their JSON output, evaluating loops and
  the two value helpers. The functions that the source applies to \<open>f\<close> in place return the new flow.
\<close>

text \<open>The zero \<open>time.Time\<close>, 1 January of year 1.\<close>

definition zero_time :: time where "zero_time = -62135596800000000000"

definition SetCondition :: "ext \<Rightarrow> ArkFlow \<Rightarrow> ConditionStatus \<Rightarrow> string \<Rightarrow> gotext \<Rightarrow> ArkFlow" where
  "SetCondition E f status reason message =
     f\<lparr>flStatus := (flStatus f)\<lparr>fConditions :=
         xSetStatusCondition E (fConditions (flStatus f))
           \<lparr>cType = ''Ready'', cStatus = status, cObservedGeneration = mGeneration (flMeta f),
            cReason = reason, cMessage = message, cLastTransitionTime = zero_time\<rparr>\<rparr>\<rparr>"

definition pending_status :: "ArkFlowStep \<Rightarrow> ArkFlowStepStatus" where
  "pending_status step =
     \<lparr>stName = sName step, stPhase = StepPending, stTaskID = [], stOutput = [], stOutputJSON = [],
      stStartTime = None, stCompletionTime = None, stMessage = TLit [], stIterations = 0,
      stTokenUsage = None\<rparr>"

definition InitializeSteps :: "ext \<Rightarrow> ArkFlow \<Rightarrow> time \<Rightarrow> ArkFlow" where
  "InitializeSteps E f now =
     (if fPhase (flStatus f) \<noteq> FlowEmpty then f
      else let f = f\<lparr>flStatus := (flStatus f)\<lparr>fPhase := FlowRunning, fStartTime := Some now,
                 fSteps := map pending_status (fsSteps (flSpec f))\<rparr>\<rparr>
           in SetCondition E f ConditionTrue ''Validated'' (TLit ''Flow DAG is valid; execution started''))"

section \<open>Structured output\<close>

fun extract_lines :: "ext \<Rightarrow> string \<Rightarrow> string list \<Rightarrow> string" where
  "extract_lines E s [] = []"
| "extract_lines E s (line # lines) =
     (let line = TrimSpace line in
      if HasPrefix line ''```'' then extract_lines E s lines
      else if HasPrefix line ''{'' \<or> HasPrefix line ''['' then
        (case Index s line of
           None \<Rightarrow> []
         | Some start \<Rightarrow>
             (let candidate = TrimSpace (case Index (drop start s) (nl @ ''```'') of
                                           None \<Rightarrow> drop start s
                                         | Some e \<Rightarrow> take e (drop start s))
              in case xUnmarshal E candidate of Inr _ \<Rightarrow> candidate | Inl _ \<Rightarrow> []))
      else extract_lines E s lines)"

definition ExtractJSON :: "ext \<Rightarrow> string \<Rightarrow> string" where
  "ExtractJSON E s =
     (let s = TrimSpace s in
      if s = [] then []
      else case xUnmarshal E s of Inr _ \<Rightarrow> s | Inl _ \<Rightarrow> extract_lines E s (split_at nl s))"

definition schemaByName :: "ArkFlowStep list \<Rightarrow> (string \<rightharpoonup> string)" where
  "schemaByName steps =
     fold (\<lambda>step m. if sOutputSchema step \<noteq> [] then m(sName step \<mapsto> sOutputSchema step) else m)
       steps Map.empty"

text \<open>The entries of \<open>statusByName\<close>: the indices that have a pointer.\<close>

definition status_entries :: "(string \<rightharpoonup> nat) \<Rightarrow> ArkFlowStepStatus list \<Rightarrow> nat list" where
  "status_entries m sts = filter (\<lambda>i. m (stName (sts ! i)) = Some i) [0..<length sts]"

definition parse_output :: "ext \<Rightarrow> (string \<rightharpoonup> string) \<Rightarrow> ArkFlowStepStatus \<Rightarrow> ArkFlowStepStatus" where
  "parse_output E schemas st =
     (if schemas (stName st) = None then st
      else if stPhase st \<noteq> StepSucceeded \<or> stOutput st = [] \<or> stOutputJSON st \<noteq> [] then st
      else let raw = ExtractJSON E (stOutput st) in
           if raw \<noteq> []
           then (case xUnmarshal E raw of Inr _ \<Rightarrow> st\<lparr>stOutputJSON := raw\<rparr> | Inl _ \<Rightarrow> st)
           else st)"

definition ParseOutputJSON :: "ext \<Rightarrow> ArkFlow \<Rightarrow> (string \<rightharpoonup> nat) \<Rightarrow> ArkFlow" where
  "ParseOutputJSON E f m =
     (let schemas = schemaByName (fsSteps (flSpec f)); sts = fSteps (flStatus f) in
      f\<lparr>flStatus := (flStatus f)\<lparr>fSteps :=
          fold (\<lambda>i. update_at i (parse_output E schemas)) (xRangeNat E (status_entries m sts)) sts\<rparr>\<rparr>)"

section \<open>Loops\<close>

definition loop_max :: "LoopSpec \<Rightarrow> i64" where
  "loop_max lp = (if sint (lMaxIterations lp) \<le> 0 then 10 else lMaxIterations lp)"

definition loop_reset :: "i64 \<Rightarrow> ArkFlowStepStatus \<Rightarrow> ArkFlowStepStatus" where
  "loop_reset maxIter st =
     st\<lparr>stIterations := stIterations st + 1, stPhase := StepPending, stTaskID := [],
        stOutput := [], stOutputJSON := [], stStartTime := None, stCompletionTime := None,
        stMessage := TFmt ''loop iteration %d/%d'' [GInt (sint (stIterations st + 1)), GInt (sint maxIter)]\<rparr>"

definition eval_loop :: "ext \<Rightarrow> any \<Rightarrow> LoopSpec \<Rightarrow> ArkFlowStepStatus \<Rightarrow> ArkFlowStepStatus" where
  "eval_loop E data lp st =
     (if stPhase st \<noteq> StepSucceeded then st
      else if sint (loop_max lp) \<le> sint (stIterations st) then st
      else case ResolveTemplate E (lCondition lp) data of
             Inl _ \<Rightarrow> st
           | Inr condResult \<Rightarrow> if \<not> IsTruthy condResult then st else loop_reset (loop_max lp) st)"

definition eval_loop_step ::
  "ext \<Rightarrow> (string \<rightharpoonup> nat) \<Rightarrow> any \<Rightarrow> ArkFlowStep \<Rightarrow> ArkFlowStepStatus list \<Rightarrow> ArkFlowStepStatus list" where
  "eval_loop_step E m data step sts =
     (case sLoop step of
        None \<Rightarrow> sts
      | Some lp \<Rightarrow> (case m (sName step) of None \<Rightarrow> sts | Some i \<Rightarrow> update_at i (eval_loop E data lp) sts))"

definition EvaluateLoops :: "ext \<Rightarrow> ArkFlow \<Rightarrow> (string \<rightharpoonup> nat) \<Rightarrow> any \<Rightarrow> ArkFlow" where
  "EvaluateLoops E f m data =
     f\<lparr>flStatus := (flStatus f)\<lparr>fSteps :=
         fold (eval_loop_step E m data) (fsSteps (flSpec f)) (fSteps (flStatus f))\<rparr>\<rparr>"

section \<open>Redis values\<close>

fun ToInt64 :: "any option \<Rightarrow> i64" where
  "ToInt64 (Some (AInt n)) = n"
| "ToInt64 (Some (AStr s)) = fst (ParseInt s)"
| "ToInt64 _ = 0"

section \<open>What stays the same\<close>

text \<open>The identity of a flow and of its steps, which no operation changes.\<close>

definition same_shape :: "ArkFlow \<Rightarrow> ArkFlow \<Rightarrow> bool" where
  "same_shape f g \<longleftrightarrow> flMeta g = flMeta f \<and> flSpec g = flSpec f \<and>
     map stName (fSteps (flStatus g)) = map stName (fSteps (flStatus f))"

lemma same_shape_refl [simp]: "same_shape f f"
  by (simp add: same_shape_def)

lemma same_shape_trans [trans]: "same_shape f g \<Longrightarrow> same_shape g h \<Longrightarrow> same_shape f h"
  by (simp add: same_shape_def)

lemma same_shape_length: "same_shape f g \<Longrightarrow> length (fSteps (flStatus g)) = length (fSteps (flStatus f))"
  by (auto simp: same_shape_def dest: map_eq_imp_length_eq)

lemma same_shape_index: "same_shape f g \<Longrightarrow> BuildStatusByName g = BuildStatusByName f"
  by (rule BuildStatusByName_names) (simp add: same_shape_def)

lemma parse_output_name [simp]: "stName (parse_output E schemas st) = stName st"
  by (simp add: parse_output_def Let_def split: sum.splits)

lemma eval_loop_name [simp]: "stName (eval_loop E data lp st) = stName st"
  by (simp add: eval_loop_def loop_reset_def split: sum.splits)

lemma eval_loop_step_names [simp]: "map stName (eval_loop_step E m data step sts) = map stName sts"
  by (simp add: eval_loop_step_def map_update_at split: option.splits)

lemma SetCondition_frame [shape_simps]:
  "flMeta (SetCondition E f s r t) = flMeta f" "flSpec (SetCondition E f s r t) = flSpec f"
  "fSteps (flStatus (SetCondition E f s r t)) = fSteps (flStatus f)"
  "fPhase (flStatus (SetCondition E f s r t)) = fPhase (flStatus f)"
  "fStartTime (flStatus (SetCondition E f s r t)) = fStartTime (flStatus f)"
  "fCompletionTime (flStatus (SetCondition E f s r t)) = fCompletionTime (flStatus f)"
  "fOutput (flStatus (SetCondition E f s r t)) = fOutput (flStatus f)"
  "fObservedGeneration (flStatus (SetCondition E f s r t)) = fObservedGeneration (flStatus f)"
  "fTotalTokenUsage (flStatus (SetCondition E f s r t)) = fTotalTokenUsage (flStatus f)"
  by (simp_all add: SetCondition_def)

lemma ParseOutputJSON_frame [shape_simps]:
  "flMeta (ParseOutputJSON E f m) = flMeta f" "flSpec (ParseOutputJSON E f m) = flSpec f"
  "fPhase (flStatus (ParseOutputJSON E f m)) = fPhase (flStatus f)"
  "fStartTime (flStatus (ParseOutputJSON E f m)) = fStartTime (flStatus f)"
  by (simp_all add: ParseOutputJSON_def Let_def)

lemma EvaluateLoops_frame [shape_simps]:
  "flMeta (EvaluateLoops E f m data) = flMeta f" "flSpec (EvaluateLoops E f m data) = flSpec f"
  "fPhase (flStatus (EvaluateLoops E f m data)) = fPhase (flStatus f)"
  "fStartTime (flStatus (EvaluateLoops E f m data)) = fStartTime (flStatus f)"
  by (simp_all add: EvaluateLoops_def)

lemma same_shape_SetCondition: "same_shape f (SetCondition E f s r t)"
  by (simp add: same_shape_def SetCondition_frame)

lemma same_shape_ParseOutputJSON: "same_shape f (ParseOutputJSON E f m)"
proof -
  have "map stName (fold (\<lambda>i. update_at i (parse_output E schemas)) is sts) = map stName sts" for "is" schemas sts
    by (rule fold_invariant [where P = "\<lambda>s. map stName s = map stName sts"]) (auto simp: map_update_at)
  then show ?thesis by (simp add: same_shape_def ParseOutputJSON_def Let_def)
qed

lemma same_shape_EvaluateLoops: "same_shape f (EvaluateLoops E f m data)"
proof -
  have "map stName (fold (eval_loop_step E m data) ss sts) = map stName sts" for ss sts
    by (rule fold_invariant [where P = "\<lambda>s. map stName s = map stName sts"]) auto
  then show ?thesis by (simp add: same_shape_def EvaluateLoops_def)
qed

section \<open>The result of parsing, entry by entry\<close>

lemma distinct_status_entries: "distinct (status_entries m sts)"
  by (simp add: status_entries_def)

lemma set_status_entries: "set (status_entries m sts) = {i. i < length sts \<and> m (stName (sts ! i)) = Some i}"
  by (auto simp: status_entries_def)

text \<open>
  Whatever order the map is visited in, each entry with a pointer is parsed once, and the others
  are left alone.
\<close>

lemma ParseOutputJSON_nth:
  assumes "range_ok E" and "i < length (fSteps (flStatus f))"
  shows "fSteps (flStatus (ParseOutputJSON E f m)) ! i =
    (if m (stName (fSteps (flStatus f) ! i)) = Some i
     then parse_output E (schemaByName (fsSteps (flSpec f))) (fSteps (flStatus f) ! i)
     else fSteps (flStatus f) ! i)"
  using assms
  by (simp add: ParseOutputJSON_def Let_def fold_update_at_nth range_ok_nat_distinct
      distinct_status_entries range_ok_nat set_status_entries)

lemma schemaByName_fold:
  "fold (\<lambda>step m. if sOutputSchema step \<noteq> [] then m(sName step \<mapsto> sOutputSchema step) else m) steps m0 n \<noteq> None
     \<longleftrightarrow> m0 n \<noteq> None \<or> (\<exists>s \<in> set steps. sName s = n \<and> sOutputSchema s \<noteq> [])"
  by (induction steps arbitrary: m0) auto

lemma schemaByName_iff:
  "schemaByName steps n \<noteq> None \<longleftrightarrow> (\<exists>s \<in> set steps. sName s = n \<and> sOutputSchema s \<noteq> [])"
  unfolding schemaByName_def using schemaByName_fold [of steps Map.empty n] by simp

text \<open>What \<open>ExtractJSON\<close> returns parses, unless it is empty.\<close>

lemma extract_lines_parses:
  "extract_lines E s lines \<noteq> [] \<Longrightarrow> \<exists>v. xUnmarshal E (extract_lines E s lines) = Inr v"
proof (induction lines)
  case Nil
  then show ?case by simp
next
  case (Cons line lines)
  then show ?case
    by (auto simp: Let_def split: if_splits option.splits sum.splits)
qed

lemma ExtractJSON_parses: "ExtractJSON E s \<noteq> [] \<Longrightarrow> \<exists>v. xUnmarshal E (ExtractJSON E s) = Inr v"
  by (auto simp: ExtractJSON_def Let_def extract_lines_parses split: if_splits sum.splits)

end
