(* ===== verification/FlowPhaseLogic.thy ===== *)
theory FlowPhaseLogic
  imports FlowStep
begin

text \<open>
  \<^verbatim>\<open>internal/flow/phase.go\<close>: token totals, the timeout and the phase of the whole flow. Token counts are
  64-bit and their sums wrap, as in the source; the deadline is computed in 64-bit nanoseconds.
\<close>

definition add_tokens :: "ArkFlowStepStatus \<Rightarrow> i64 \<times> i64 \<Rightarrow> i64 \<times> i64" where
  "add_tokens st tot =
     (case stTokenUsage st of
        None \<Rightarrow> tot
      | Some u \<Rightarrow> (fst tot + tuInputTokens u, snd tot + tuOutputTokens u))"

definition SumStepTokens :: "ArkFlow \<Rightarrow> i64 \<times> ArkFlow" where
  "SumStepTokens f =
     (let (totalIn, totalOut) = fold add_tokens (fSteps (flStatus f)) (0, 0);
          f' = (if 0 < sint totalIn \<or> 0 < sint totalOut
                then f\<lparr>flStatus := (flStatus f)\<lparr>fTotalTokenUsage :=
                       Some \<lparr>tuInputTokens = totalIn, tuOutputTokens = totalOut,
                             tuTotalTokens = totalIn + totalOut\<rparr>\<rparr>\<rparr>
                else f)
      in (totalIn + totalOut, f'))"

definition EnforceTimeout :: "ext \<Rightarrow> ArkFlow \<Rightarrow> time \<Rightarrow> bool \<times> ArkFlow" where
  "EnforceTimeout E f now =
     (case fStartTime (flStatus f) of
        None \<Rightarrow> (False, f)
      | Some start \<Rightarrow>
          if sint (fsTimeoutSeconds (flSpec f)) \<le> 0 then (False, f)
          else let deadline = time_Add start (fsTimeoutSeconds (flSpec f) * Second) in
               if \<not> time_After now deadline then (False, f)
               else let f = f\<lparr>flStatus := (flStatus f)\<lparr>fPhase := FlowFailed, fCompletionTime := Some now\<rparr>\<rparr>
                    in (True, SetCondition E f ConditionFalse ''TimedOut''
                          (TFmt ''flow exceeded timeout of %ds'' [GInt (sint (fsTimeoutSeconds (flSpec f)))])))"

text \<open>The scan of the step phases: whether one failed, and whether all are done.\<close>

definition scan_step :: "ArkFlowStepStatus \<Rightarrow> bool \<times> bool \<Rightarrow> bool \<times> bool" where
  "scan_step st r =
     (case stPhase st of
        StepFailed \<Rightarrow> (True, snd r)
      | StepSucceeded \<Rightarrow> r
      | StepSkipped \<Rightarrow> r
      | _ \<Rightarrow> (fst r, False))"

definition UpdateFlowPhase :: "ext \<Rightarrow> ArkFlow \<Rightarrow> any \<Rightarrow> time \<Rightarrow> ArkFlow" where
  "UpdateFlowPhase E f data now =
     (let (timedOut, f) = EnforceTimeout E f now in
      if timedOut then f
      else let (totalTokens, f) = SumStepTokens f in
      if 0 < sint (fsMaxTokens (flSpec f)) \<and> sint (fsMaxTokens (flSpec f)) < sint totalTokens then
        SetCondition E
          (f\<lparr>flStatus := (flStatus f)\<lparr>fPhase := FlowFailed, fCompletionTime := Some now\<rparr>\<rparr>)
          ConditionFalse ''BudgetExceeded''
          (TFmt ''token budget of %d exceeded: used %d''
             [GInt (sint (fsMaxTokens (flSpec f))), GInt (sint totalTokens)])
      else let (failed, allDone) = fold scan_step (fSteps (flStatus f)) (False, True) in
      if failed then
        SetCondition E
          (f\<lparr>flStatus := (flStatus f)\<lparr>fPhase := FlowFailed, fCompletionTime := Some now\<rparr>\<rparr>)
          ConditionFalse ''StepFailed'' (TLit ''one or more steps failed'')
      else if allDone then
        (let st = (flStatus f)\<lparr>fPhase := FlowSucceeded, fCompletionTime := Some now\<rparr>;
             st = (if fsOutput (flSpec f) \<noteq> []
                   then st\<lparr>fOutput := (case ResolveTemplate E (fsOutput (flSpec f)) data of
                                        Inl _ \<Rightarrow> [] | Inr out \<Rightarrow> out)\<rparr>
                   else st)
         in SetCondition E (f\<lparr>flStatus := st\<rparr>) ConditionTrue ''Succeeded''
              (TLit ''all steps completed successfully''))
      else f)"

section \<open>What the scans compute\<close>

definition step_done :: "ArkFlowStepStatus \<Rightarrow> bool" where
  "step_done st \<longleftrightarrow> stPhase st = StepSucceeded \<or> stPhase st = StepSkipped"

definition step_failed :: "ArkFlowStepStatus \<Rightarrow> bool" where
  "step_failed st \<longleftrightarrow> stPhase st = StepFailed"

lemma scan_fold:
  "fold scan_step sts (b, d) =
     (b \<or> list_ex step_failed sts, d \<and> list_all (\<lambda>st. step_failed st \<or> step_done st) sts)"
  by (induction sts arbitrary: b d)
     (auto simp: scan_step_def step_failed_def step_done_def split: StepPhase.splits)

definition st_in :: "ArkFlowStepStatus \<Rightarrow> i64" where
  "st_in st = (case stTokenUsage st of None \<Rightarrow> 0 | Some u \<Rightarrow> tuInputTokens u)"

definition st_out :: "ArkFlowStepStatus \<Rightarrow> i64" where
  "st_out st = (case stTokenUsage st of None \<Rightarrow> 0 | Some u \<Rightarrow> tuOutputTokens u)"

lemma add_tokens_fold:
  "fold add_tokens sts (a, b) = (a + sum_list (map st_in sts), b + sum_list (map st_out sts))"
  by (induction sts arbitrary: a b)
     (auto simp: add_tokens_def st_in_def st_out_def algebra_simps split: option.splits)

text \<open>The total the budget is compared with, and when it is the true sum.\<close>

definition total_tokens :: "ArkFlowStepStatus list \<Rightarrow> i64" where
  "total_tokens sts = sum_list (map st_in sts) + sum_list (map st_out sts)"

lemma SumStepTokens_fst: "fst (SumStepTokens f) = total_tokens (fSteps (flStatus f))"
  by (simp add: SumStepTokens_def add_tokens_fold total_tokens_def Let_def)

lemma SumStepTokens_frame [shape_simps]:
  "flMeta (snd (SumStepTokens f)) = flMeta f" "flSpec (snd (SumStepTokens f)) = flSpec f"
  "fSteps (flStatus (snd (SumStepTokens f))) = fSteps (flStatus f)"
  "fPhase (flStatus (snd (SumStepTokens f))) = fPhase (flStatus f)"
  "fCompletionTime (flStatus (snd (SumStepTokens f))) = fCompletionTime (flStatus f)"
  "fStartTime (flStatus (snd (SumStepTokens f))) = fStartTime (flStatus f)"
  "fOutput (flStatus (snd (SumStepTokens f))) = fOutput (flStatus f)"
  by (simp_all add: SumStepTokens_def Let_def add_tokens_fold)

lemma sum_list_sint_nonneg:
  assumes "\<forall>x \<in> set xs. 0 \<le> sint (x :: i64)" and "sum_list (map sint xs) < 2 ^ 63"
  shows "sint (sum_list xs) = sum_list (map sint xs)"
  using assms
proof (induction xs)
  case Nil
  then show ?case by simp
next
  case (Cons x xs)
  have nonneg: "0 \<le> sum_list (map sint xs)"
    using Cons.prems(1) by (intro sum_list_nonneg) auto
  with Cons.prems have "sint (sum_list xs) = sum_list (map sint xs)" by (intro Cons.IH) auto
  with Cons.prems nonneg show ?case by (simp add: sint_add_i64)
qed

section \<open>The verdict on a flow\<close>

text \<open>
  What \<open>UpdateFlowPhase\<close> is meant to decide, in order of precedence, with no reference to how the
  scan is written.
\<close>

datatype verdict = TimedOut | OverBudget | SomeFailed | AllDone | Undecided

definition timed_out :: "ArkFlow \<Rightarrow> time \<Rightarrow> bool" where
  "timed_out f now \<longleftrightarrow> 0 < sint (fsTimeoutSeconds (flSpec f)) \<and>
     (case fStartTime (flStatus f) of
        None \<Rightarrow> False
      | Some start \<Rightarrow> start + sint (fsTimeoutSeconds (flSpec f) * Second) < now)"

definition over_budget :: "ArkFlow \<Rightarrow> bool" where
  "over_budget f \<longleftrightarrow> 0 < sint (fsMaxTokens (flSpec f)) \<and>
     sint (fsMaxTokens (flSpec f)) < sint (total_tokens (fSteps (flStatus f)))"

definition flow_verdict :: "ArkFlow \<Rightarrow> time \<Rightarrow> verdict" where
  "flow_verdict f now =
     (if timed_out f now then TimedOut
      else if over_budget f then OverBudget
      else if list_ex step_failed (fSteps (flStatus f)) then SomeFailed
      else if list_all step_done (fSteps (flStatus f)) then AllDone
      else Undecided)"

fun verdict_phase :: "FlowPhase \<Rightarrow> verdict \<Rightarrow> FlowPhase" where
  "verdict_phase p TimedOut = FlowFailed"
| "verdict_phase p OverBudget = FlowFailed"
| "verdict_phase p SomeFailed = FlowFailed"
| "verdict_phase p AllDone = FlowSucceeded"
| "verdict_phase p Undecided = p"

lemma EnforceTimeout_fst: "fst (EnforceTimeout E f now) = timed_out f now"
  by (auto simp: EnforceTimeout_def timed_out_def time_After_def time_Add_def Let_def split: option.splits)

lemma EnforceTimeout_False: "\<not> timed_out f now \<Longrightarrow> EnforceTimeout E f now = (False, f)"
  by (auto simp: EnforceTimeout_def timed_out_def time_After_def time_Add_def Let_def split: option.splits)

lemma EnforceTimeout_True:
  "timed_out f now \<Longrightarrow> EnforceTimeout E f now = (True, SetCondition E
     (f\<lparr>flStatus := (flStatus f)\<lparr>fPhase := FlowFailed, fCompletionTime := Some now\<rparr>\<rparr>)
     ConditionFalse ''TimedOut''
     (TFmt ''flow exceeded timeout of %ds'' [GInt (sint (fsTimeoutSeconds (flSpec f)))]))"
  by (auto simp: EnforceTimeout_def timed_out_def time_After_def time_Add_def Let_def split: option.splits)

lemma no_failed_all:
  "\<not> list_ex step_failed sts \<Longrightarrow>
     list_all (\<lambda>st. step_failed st \<or> step_done st) sts = list_all step_done sts"
  by (auto simp: list_ex_iff list_all_iff)

lemma UpdateFlowPhase_phase:
  "fPhase (flStatus (UpdateFlowPhase E f data now)) = verdict_phase (fPhase (flStatus f)) (flow_verdict f now)"
proof (cases "timed_out f now")
  case True
  then show ?thesis
    by (simp add: UpdateFlowPhase_def EnforceTimeout_True flow_verdict_def SetCondition_frame)
next
  case False
  obtain tot f' where S: "SumStepTokens f = (tot, f')" by fastforce
  have f': "tot = total_tokens (fSteps (flStatus f))" "flSpec f' = flSpec f"
    "fSteps (flStatus f') = fSteps (flStatus f)" "fPhase (flStatus f') = fPhase (flStatus f)"
    using SumStepTokens_fst [of f] SumStepTokens_frame [of f] S by auto
  from False show ?thesis
    by (simp add: UpdateFlowPhase_def EnforceTimeout_False S f' flow_verdict_def over_budget_def
        SetCondition_frame scan_fold no_failed_all Let_def)
qed

lemma UpdateFlowPhase_frame [shape_simps]:
  "flMeta (UpdateFlowPhase E f data now) = flMeta f" "flSpec (UpdateFlowPhase E f data now) = flSpec f"
  "fSteps (flStatus (UpdateFlowPhase E f data now)) = fSteps (flStatus f)"
  "fStartTime (flStatus (UpdateFlowPhase E f data now)) = fStartTime (flStatus f)"
proof -
  obtain tot f' where S: "SumStepTokens f = (tot, f')" by fastforce
  have f': "flMeta f' = flMeta f" "flSpec f' = flSpec f" "fSteps (flStatus f') = fSteps (flStatus f)"
    "fStartTime (flStatus f') = fStartTime (flStatus f)"
    using SumStepTokens_frame [of f] S by auto
  show "flMeta (UpdateFlowPhase E f data now) = flMeta f" "flSpec (UpdateFlowPhase E f data now) = flSpec f"
    "fSteps (flStatus (UpdateFlowPhase E f data now)) = fSteps (flStatus f)"
    "fStartTime (flStatus (UpdateFlowPhase E f data now)) = fStartTime (flStatus f)"
    by (cases "timed_out f now";
        simp add: UpdateFlowPhase_def EnforceTimeout_True EnforceTimeout_False S f' SetCondition_frame
          scan_fold Let_def)+
qed

lemma same_shape_UpdateFlowPhase: "same_shape f (UpdateFlowPhase E f data now)"
  by (simp add: same_shape_def UpdateFlowPhase_frame)

end
