(* ===== verification/StepLife.thy ===== *)
theory StepLife
  imports FlowPhaseLogic
begin

text \<open>
  The abstract specification of a step: its phase and its loop counter, and the six moves the
  documentation of \<open>ArkFlowStepPhase\<close> and \<open>LoopSpec\<close> promises. Every operation of the flow package, of
  the flow controller and of the local executor refines it: each step status it changes moves
  along these transitions only.
\<close>

section \<open>The lifecycle\<close>

type_synonym life = "StepPhase \<times> int"

definition life_of :: "ArkFlowStepStatus \<Rightarrow> life" where
  "life_of st = (stPhase st, sint (stIterations st))"

inductive life_step :: "int \<Rightarrow> life \<Rightarrow> life \<Rightarrow> bool" for lim :: int where
  submit: "life_step lim (StepPending, n) (StepRunning, n)"
| skip: "life_step lim (StepPending, n) (StepSkipped, n)"
| reject: "life_step lim (StepPending, n) (StepFailed, n)"
| succeed: "life_step lim (StepRunning, n) (StepSucceeded, n)"
| break: "life_step lim (StepRunning, n) (StepFailed, n)"
| again: "n < lim \<Longrightarrow> life_step lim (StepSucceeded, n) (StepPending, n + 1)"

inductive_cases life_from_failed: "life_step lim (StepFailed, n) l"
inductive_cases life_from_skipped: "life_step lim (StepSkipped, n) l"
inductive_simps life_from_pending: "life_step lim (StepPending, n) l"
inductive_simps life_from_running: "life_step lim (StepRunning, n) l"
inductive_simps life_from_succeeded: "life_step lim (StepSucceeded, n) l"

text \<open>How far a step still is from its end: it decreases with every move.\<close>

fun phase_weight :: "StepPhase \<Rightarrow> nat" where
  "phase_weight StepPending = 3"
| "phase_weight StepRunning = 2"
| "phase_weight StepSucceeded = 1"
| "phase_weight StepFailed = 0"
| "phase_weight StepSkipped = 0"

fun life_rank :: "int \<Rightarrow> life \<Rightarrow> nat" where
  "life_rank lim (p, n) = 4 * nat (lim - n) + phase_weight p"

lemma life_step_decreases: "life_step lim a b \<Longrightarrow> life_rank lim b < life_rank lim a"
  by (induction rule: life_step.induct) auto

lemma life_steps_rank: "(life_step lim)\<^sup>*\<^sup>* a b \<Longrightarrow> life_rank lim b \<le> life_rank lim a"
  by (induction rule: rtranclp_induct) (auto dest: life_step_decreases)

lemma life_steps_rank_strict:
  "(life_step lim)\<^sup>*\<^sup>* a b \<Longrightarrow> a \<noteq> b \<Longrightarrow> life_rank lim b < life_rank lim a"
  by (metis life_step_decreases life_steps_rank converse_rtranclpE order_le_less_trans)

text \<open>The counter never passes the limit, and grows only through a loop.\<close>

lemma life_steps_bound:
  "(life_step lim)\<^sup>*\<^sup>* a b \<Longrightarrow> snd a \<le> snd b \<and> (snd a \<le> lim \<longrightarrow> snd b \<le> lim)"
  by (induction rule: rtranclp_induct) (auto elim: life_step.cases)

text \<open>The number of runs begun so far is a function of the state: one per loop, and the current one.\<close>

fun runs_begun :: "life \<Rightarrow> int" where
  "runs_begun (p, n) = (if p = StepRunning \<or> p = StepSucceeded then n + 1 else n)"

lemma life_step_runs:
  "life_step lim a b \<Longrightarrow> fst b \<noteq> StepFailed \<Longrightarrow>
     runs_begun b = runs_begun a + (if fst a = StepPending \<and> fst b = StepRunning then 1 else 0)"
  by (induction rule: life_step.induct) auto

text \<open>Failed and skipped steps stay as they are.\<close>

lemma life_final:
  "(life_step lim)\<^sup>*\<^sup>* (p, n) l \<Longrightarrow> p = StepFailed \<or> p = StepSkipped \<Longrightarrow> l = (p, n)"
  by (induction rule: rtranclp_induct) (auto elim: life_from_failed life_from_skipped)

text \<open>Without a loop, a step only moves forward in the order of the phases.\<close>

lemma life_monotone:
  "(life_step 0)\<^sup>*\<^sup>* a b \<Longrightarrow> 0 \<le> snd a \<Longrightarrow> fst a \<le> fst b"
proof (induction rule: rtranclp_induct)
  case base
  show ?case by simp
next
  case (step b c)
  have "snd a \<le> snd b" using life_steps_bound [OF step.hyps(1)] by simp
  with step.prems have "0 \<le> snd b" by simp
  with step.hyps(2) have "fst b \<le> fst c"
    by (cases rule: life_step.cases) (auto simp: less_eq_StepPhase_def)
  with step.IH step.prems show ?case by simp
qed

section \<open>Refinement\<close>

text \<open>The loop limit of the steps with a given name: 0 for a step without \<open>loop\<close>.\<close>

definition loop_limit :: "ArkFlowStep \<Rightarrow> int" where
  "loop_limit step = (case sLoop step of None \<Rightarrow> 0 | Some lp \<Rightarrow> sint (loop_max lp))"

definition name_limit :: "ArkFlowStep list \<Rightarrow> string \<Rightarrow> int" where
  "name_limit steps n = fold max (map loop_limit (filter (\<lambda>s. sName s = n) steps)) 0"

lemma fold_max_ge: "(m :: int) \<le> fold max xs m \<and> (\<forall>x \<in> set xs. x \<le> fold max xs m)"
proof (induction xs arbitrary: m)
  case Nil
  then show ?case by simp
next
  case (Cons x xs)
  from Cons.IH [of "max x m"] show ?case by auto
qed

lemma loop_limit_le: "s \<in> set steps \<Longrightarrow> loop_limit s \<le> name_limit steps (sName s)"
  unfolding name_limit_def using fold_max_ge [of 0 "map loop_limit (filter (\<lambda>t. sName t = sName s) steps)"]
  by force

lemma loop_max_pos: "0 < sint (loop_max lp)"
  by (simp add: loop_max_def)

definition life_refines :: "(string \<Rightarrow> int) \<Rightarrow> ArkFlowStepStatus list \<Rightarrow> ArkFlowStepStatus list \<Rightarrow> bool" where
  "life_refines lim sts sts' \<longleftrightarrow> map stName sts' = map stName sts \<and>
     (\<forall>i < length sts. (life_step (lim (stName (sts ! i))))\<^sup>*\<^sup>* (life_of (sts ! i)) (life_of (sts' ! i)))"

lemma life_refines_refl [simp]: "life_refines lim sts sts"
  by (simp add: life_refines_def)

lemma life_refines_trans [trans]:
  assumes "life_refines lim a b" and "life_refines lim b c"
  shows "life_refines lim a c"
  unfolding life_refines_def
proof (intro conjI allI impI)
  show names: "map stName c = map stName a" using assms by (simp add: life_refines_def)
  fix i assume i: "i < length a"
  have len: "length b = length a" and nm: "map stName b = map stName a"
    using assms(1) by (auto simp: life_refines_def dest: map_eq_imp_length_eq)
  then have "stName (b ! i) = stName (a ! i)" using i by (metis nth_map)
  with i len assms show "(life_step (lim (stName (a ! i))))\<^sup>*\<^sup>* (life_of (a ! i)) (life_of (c ! i))"
    unfolding life_refines_def by (metis rtranclp_trans)
qed

lemma life_refines_update_at:
  assumes "i < length sts \<Longrightarrow> stName (g (sts ! i)) = stName (sts ! i) \<and>
     (life_step (lim (stName (sts ! i))))\<^sup>*\<^sup>* (life_of (sts ! i)) (life_of (g (sts ! i)))"
  shows "life_refines lim sts (update_at i g sts)"
proof (cases "i < length sts")
  case True
  with assms show ?thesis
    by (auto simp: life_refines_def nth_update_at intro!: nth_equalityI)
next
  case False
  then show ?thesis by (simp add: update_at_def)
qed

lemma life_refines_fold:
  "(\<And>x sts. x \<in> set xs \<Longrightarrow> life_refines lim sts (g x sts)) \<Longrightarrow> life_refines lim sts (fold g xs sts)"
  by (rule fold_invariant2) (auto intro: life_refines_trans)

section \<open>Well-formed step statuses\<close>

text \<open>
  What the readers of a status rely on: a step that runs or ran has its start time, a step that is
  over has its completion time (\<open>emitStepEvents\<close> subtracts the two without a check), a pending step
  has no task, and \<open>OutputJSON\<close> parses.
\<close>

definition st_ok :: "ext \<Rightarrow> ArkFlowStepStatus \<Rightarrow> bool" where
  "st_ok E st \<longleftrightarrow>
     (stPhase st = StepRunning \<or> stPhase st = StepSucceeded \<longrightarrow> stStartTime st \<noteq> None) \<and>
     (stPhase st = StepSucceeded \<or> stPhase st = StepFailed \<or> stPhase st = StepSkipped \<longrightarrow>
        stCompletionTime st \<noteq> None) \<and>
     (stPhase st = StepPending \<longrightarrow> stTaskID st = []) \<and>
     (stOutputJSON st \<noteq> [] \<longrightarrow> (\<exists>v. xUnmarshal E (stOutputJSON st) = Inr v))"

lemma st_ok_pending [simp]: "st_ok E (pending_status step)"
  by (simp add: st_ok_def pending_status_def)

section \<open>Writes through the index\<close>

text \<open>
  The contract of every operation on the step statuses: it refines the lifecycle, keeps the entries
  well-formed, and touches no entry that \<open>statusByName\<close> does not point to.
\<close>

definition status_rel ::
  "ext \<Rightarrow> (string \<rightharpoonup> nat) \<Rightarrow> (string \<Rightarrow> int) \<Rightarrow> ArkFlowStepStatus list \<Rightarrow> ArkFlowStepStatus list \<Rightarrow> bool" where
  "status_rel E m lim sts sts' \<longleftrightarrow> life_refines lim sts sts' \<and>
     (\<forall>i < length sts. (m (stName (sts ! i)) \<noteq> Some i \<longrightarrow> sts' ! i = sts ! i) \<and>
        (st_ok E (sts ! i) \<longrightarrow> st_ok E (sts' ! i)))"

lemma status_rel_refl [simp]: "status_rel E m lim sts sts"
  by (simp add: status_rel_def)

lemma life_refines_nth:
  "life_refines lim a b \<Longrightarrow> i < length a \<Longrightarrow> length b = length a \<and> stName (b ! i) = stName (a ! i)"
  unfolding life_refines_def by (metis length_map nth_map)

lemma status_rel_trans [trans]:
  assumes "status_rel E m lim a b" and "status_rel E m lim b c"
  shows "status_rel E m lim a c"
proof -
  have ab: "life_refines lim a b" and bc: "life_refines lim b c"
    using assms by (auto simp: status_rel_def)
  have "(m (stName (a ! i)) \<noteq> Some i \<longrightarrow> c ! i = a ! i) \<and> (st_ok E (a ! i) \<longrightarrow> st_ok E (c ! i))"
    if "i < length a" for i
    using life_refines_nth [OF ab that] assms that by (auto simp: status_rel_def)
  with life_refines_trans [OF ab bc] show ?thesis by (simp add: status_rel_def)
qed

lemma status_rel_update_at:
  assumes "i < length sts \<Longrightarrow> m (stName (sts ! i)) = Some i"
    and "i < length sts \<Longrightarrow> stName (g (sts ! i)) = stName (sts ! i)"
    and "i < length sts \<Longrightarrow> (life_step (lim (stName (sts ! i))))\<^sup>*\<^sup>* (life_of (sts ! i)) (life_of (g (sts ! i)))"
    and "i < length sts \<Longrightarrow> st_ok E (sts ! i) \<Longrightarrow> st_ok E (g (sts ! i))"
  shows "status_rel E m lim sts (update_at i g sts)"
  using assms unfolding status_rel_def
  by (auto simp: nth_update_at intro!: life_refines_update_at)

text \<open>A fold of such writes, with the names as the invariant that keeps the pointers right.\<close>

lemma status_rel_fold:
  assumes "\<And>x sts. x \<in> set xs \<Longrightarrow> map stName sts = names \<Longrightarrow> status_rel E m lim sts (g x sts)"
    and "map stName sts = names"
  shows "status_rel E m lim sts (fold g xs sts)"
  using assms
proof (induction xs arbitrary: sts)
  case Nil
  then show ?case by simp
next
  case (Cons x xs)
  have step: "status_rel E m lim sts (g x sts)" using Cons.prems by auto
  then have "map stName (g x sts) = names"
    using Cons.prems(2) by (simp add: status_rel_def life_refines_def)
  with Cons.IH Cons.prems(1) have "status_rel E m lim (g x sts) (fold g xs (g x sts))" by auto
  with step show ?case by (auto intro: status_rel_trans)
qed

lemma status_rel_names: "status_rel E m lim a b \<Longrightarrow> map stName b = map stName a"
  by (simp add: status_rel_def life_refines_def)

context status_index
begin

lemma pointer:
  assumes "m n = Some i" and "map stName sts = names"
  shows "i < length sts \<and> stName (sts ! i) = n \<and> m (stName (sts ! i)) = Some i"
  using assms index_name [OF assms(1)] by (metis length_map nth_map)

end

section \<open>The flow package keeps the contract\<close>

lemma parse_output_life [simp]: "life_of (parse_output E schemas st) = life_of st"
  by (simp add: parse_output_def life_of_def Let_def split: sum.splits)

lemma parse_output_ok: "st_ok E st \<Longrightarrow> st_ok E (parse_output E schemas st)"
  by (auto simp: parse_output_def st_ok_def Let_def split: sum.splits)

lemma ParseOutputJSON_rel:
  assumes "range_ok E"
  shows "status_rel E m lim (fSteps (flStatus f)) (fSteps (flStatus (ParseOutputJSON E f m)))"
proof -
  let ?sts = "fSteps (flStatus f)"
  have "status_rel E m lim sts (update_at i (parse_output E schemas) sts)"
    if "i \<in> set (xRangeNat E (status_entries m ?sts))" and names: "map stName sts = map stName ?sts"
    for i sts schemas
  proof -
    from that assms have "i < length ?sts" and "m (stName (?sts ! i)) = Some i"
      by (auto simp: range_ok_nat set_status_entries)
    with names have "m (stName (sts ! i)) = Some i" by (metis length_map nth_map)
    then show ?thesis by (intro status_rel_update_at) (auto intro: parse_output_ok)
  qed
  then show ?thesis
    by (auto simp: ParseOutputJSON_def Let_def intro!: status_rel_fold)
qed

lemma eval_loop_life:
  assumes "sint (loop_max lp) \<le> lim"
  shows "(life_step lim)\<^sup>*\<^sup>* (life_of st) (life_of (eval_loop E data lp st))"
proof (cases "eval_loop E data lp st = st")
  case True
  then show ?thesis by simp
next
  case False
  then have succ: "stPhase st = StepSucceeded" and lt: "sint (stIterations st) < sint (loop_max lp)"
    and reset: "eval_loop E data lp st = loop_reset (loop_max lp) st"
    by (auto simp: eval_loop_def split: if_splits sum.splits)
  from lt have "sint (stIterations st + 1) = sint (stIterations st) + 1" by (rule sint_inc_i64)
  with lt assms show ?thesis
    unfolding reset life_of_def succ by (auto simp: loop_reset_def intro!: r_into_rtranclp life_step.again)
qed

lemma eval_loop_ok: "st_ok E st \<Longrightarrow> st_ok E (eval_loop E data lp st)"
  by (auto simp: eval_loop_def loop_reset_def st_ok_def split: sum.splits)

lemma EvaluateLoops_rel:
  assumes "status_index m (map stName (fSteps (flStatus f)))"
  shows "status_rel E m (name_limit (fsSteps (flSpec f))) (fSteps (flStatus f))
           (fSteps (flStatus (EvaluateLoops E f m data)))"
proof -
  let ?lim = "name_limit (fsSteps (flSpec f))"
  have "status_rel E m ?lim sts (eval_loop_step E m data s sts)"
    if s: "s \<in> set (fsSteps (flSpec f))" and names: "map stName sts = map stName (fSteps (flStatus f))"
    for s sts
  proof (cases "\<exists>lp i. sLoop s = Some lp \<and> m (sName s) = Some i")
    case True
    then obtain lp i where lp: "sLoop s = Some lp" and i: "m (sName s) = Some i" by blast
    have "sint (loop_max lp) \<le> ?lim (sName s)"
      using loop_limit_le [OF s] lp by (simp add: loop_limit_def)
    with lp i status_index.pointer [OF assms i names] show ?thesis
      by (auto simp: eval_loop_step_def intro!: status_rel_update_at eval_loop_life eval_loop_ok)
  next
    case False
    then show ?thesis by (auto simp: eval_loop_step_def split: option.splits)
  qed
  then show ?thesis by (auto simp: EvaluateLoops_def intro!: status_rel_fold)
qed

section \<open>The rank of a flow\<close>

definition flow_rank :: "(string \<Rightarrow> int) \<Rightarrow> ArkFlowStepStatus list \<Rightarrow> nat" where
  "flow_rank lim sts = sum_list (map (\<lambda>st. life_rank (lim (stName st)) (life_of st)) sts)"

lemma flow_rank_sum: "flow_rank lim sts = (\<Sum>i < length sts. life_rank (lim (stName (sts ! i))) (life_of (sts ! i)))"
  unfolding flow_rank_def by (simp add: sum_list_sum_nth atLeast0LessThan)

lemma life_refines_rank:
  assumes "life_refines lim a b"
  shows "flow_rank lim b \<le> flow_rank lim a"
proof -
  have len: "length b = length a" using assms by (auto simp: life_refines_def dest: map_eq_imp_length_eq)
  have "life_rank (lim (stName (b ! i))) (life_of (b ! i)) \<le> life_rank (lim (stName (a ! i))) (life_of (a ! i))"
    if "i < length a" for i
    using life_refines_nth [OF assms that] assms that by (auto simp: life_refines_def intro: life_steps_rank)
  with len show ?thesis unfolding flow_rank_sum by (auto intro!: sum_mono)
qed

lemma life_refines_rank_strict:
  assumes "life_refines lim a b" and "i < length a" and "life_of (b ! i) \<noteq> life_of (a ! i)"
  shows "flow_rank lim b < flow_rank lim a"
proof -
  have len: "length b = length a" using assms by (auto simp: life_refines_def dest: map_eq_imp_length_eq)
  have le: "life_rank (lim (stName (b ! j))) (life_of (b ! j)) \<le> life_rank (lim (stName (a ! j))) (life_of (a ! j))"
    if "j < length a" for j
    using life_refines_nth [OF assms(1) that] assms(1) that by (auto simp: life_refines_def intro: life_steps_rank)
  have "life_rank (lim (stName (b ! i))) (life_of (b ! i)) < life_rank (lim (stName (a ! i))) (life_of (a ! i))"
    using life_refines_nth [OF assms(1,2)] assms by (auto simp: life_refines_def intro: life_steps_rank_strict)
  with le assms(2) show ?thesis
    unfolding flow_rank_sum len by (intro sum_strict_mono_ex1) auto
qed

end
