(* ===== verification/FlowController.thy ===== *)
theory FlowController
  imports StepLife
begin

text \<open>
  \<^verbatim>\<open>internal/controller/arkflow_controller.go\<close>. The API server, Redis and the clock are outside the
  repository: they are a world of any type \<open>'w\<close> with the operations of \<open>flow_env\<close>. A read looks at the
  world, a write and a clock read return the next one, so the order of the effects is the order in
  which the world is threaded. The logger is left out; it has no effect on the flow.
\<close>

definition taskStream :: string where "taskStream = ''agent-tasks''"
definition resultsStream :: string where "resultsStream = ''agent-tasks-results''"
definition pipelineRequeueIn :: duration where "pipelineRequeueIn = 5 * Second"

record redis_msg =
  rmID :: string
  rmValues :: "string \<rightharpoonup> any"

datatype redis_error = RedisNil | RedisErr gotext

record 'w flow_env =
  feGetFlow :: "'w \<Rightarrow> NamespacedName \<Rightarrow> api_error + ArkFlow"
  feListEvents :: "'w \<Rightarrow> string \<Rightarrow> api_error + ArkEvent list"
  feGetAgent :: "'w \<Rightarrow> NamespacedName \<Rightarrow> api_error + ArkAgent"
  feUpdateStatus :: "ArkFlow \<Rightarrow> 'w \<Rightarrow> api_error option \<times> 'w"
  feParseURL :: "string \<Rightarrow> gotext + string"
  feXAdd :: "string \<Rightarrow> string \<Rightarrow> (string \<rightharpoonup> any) \<Rightarrow> 'w \<Rightarrow> (gotext + string) \<times> 'w"
  feXRange :: "string \<Rightarrow> string \<Rightarrow> 'w \<Rightarrow> redis_error + redis_msg list"
  feNow :: "'w \<Rightarrow> time \<times> 'w"

record ArkFlowReconciler =
  rTaskQueueURL :: string
  rRedisOnce :: bool
  rRdb :: "string option" \<comment> \<open>the address the client was made for\<close>

section \<open>The Redis client\<close>

definition getRedis :: "'w flow_env \<Rightarrow> ArkFlowReconciler \<Rightarrow> string option \<times> ArkFlowReconciler" where
  "getRedis F r =
     (let r' = (if rRedisOnce r then r
                else if rTaskQueueURL r \<noteq> []
                then let opts = (case feParseURL F (rTaskQueueURL r) of
                                   Inl _ \<Rightarrow> rTaskQueueURL r | Inr opts \<Rightarrow> opts)
                     in r\<lparr>rRedisOnce := True, rRdb := Some opts\<rparr>
                else r\<lparr>rRedisOnce := True\<rparr>)
      in (rRdb r', r'))"

section \<open>Guards\<close>

fun validate_agents :: "'w flow_env \<Rightarrow> string \<Rightarrow> ArkFlowStep list \<Rightarrow> 'w \<Rightarrow> gotext option" where
  "validate_agents F ns [] w = None"
| "validate_agents F ns (step # steps) w =
     (case feGetAgent F w \<lparr>nnName = sArkAgent step, nnNamespace = ns\<rparr> of
        Inl err \<Rightarrow>
          (if IsNotFound err
           then Some (TFmt ''step %q references missing ArkAgent %q'' [GStr (sName step), GStr (sArkAgent step)])
           else Some (api_text err))
      | Inr _ \<Rightarrow> validate_agents F ns steps w)"

definition validateAgents :: "'w flow_env \<Rightarrow> ArkFlow \<Rightarrow> 'w \<Rightarrow> gotext option" where
  "validateAgents F f w = validate_agents F (mNamespace (flMeta f)) (fsSteps (flSpec f)) w"

fun targets_mention :: "string \<Rightarrow> ArkEventTarget list \<Rightarrow> bool" where
  "targets_mention n [] = False"
| "targets_mention n (t # ts) = (if tgPipeline t = n then True else targets_mention n ts)"

fun events_mention :: "string \<Rightarrow> ArkEvent list \<Rightarrow> bool" where
  "events_mention n [] = False"
| "events_mention n (t # ts) = (if targets_mention n (esTargets (evSpec t)) then True else events_mention n ts)"

definition isTriggerTemplate :: "'w flow_env \<Rightarrow> ArkFlow \<Rightarrow> 'w \<Rightarrow> api_error + bool" where
  "isTriggerTemplate F f w =
     (case feListEvents F w (mNamespace (flMeta f)) of
        Inl err \<Rightarrow> Inl err
      | Inr events \<Rightarrow> Inr (events_mention (mName (flMeta f)) events))"

section \<open>Collecting results\<close>

definition is_waiting :: "ArkFlowStepStatus \<Rightarrow> bool" where
  "is_waiting st \<longleftrightarrow> stPhase st = StepRunning \<and> stTaskID st \<noteq> []"

text \<open>The map from task IDs to entries, last assignment first.\<close>

definition waiting_tasks :: "ext \<Rightarrow> (string \<rightharpoonup> nat) \<Rightarrow> ArkFlowStepStatus list \<Rightarrow> (string \<times> nat) list" where
  "waiting_tasks E m sts =
     rev (map (\<lambda>i. (stTaskID (sts ! i), i))
            (filter (\<lambda>i. is_waiting (sts ! i)) (xRangeNat E (status_entries m sts))))"

definition record_result :: "redis_msg \<Rightarrow> time \<Rightarrow> ArkFlowStepStatus \<Rightarrow> ArkFlowStepStatus" where
  "record_result msg now st =
     (let st = st\<lparr>stPhase := StepSucceeded, stOutput := any_string (rmValues msg ''result''),
                 stCompletionTime := Some now\<rparr>;
          inTok = ToInt64 (rmValues msg ''input_tokens'');
          outTok = ToInt64 (rmValues msg ''output_tokens'')
      in if 0 < sint inTok \<or> 0 < sint outTok
         then st\<lparr>stTokenUsage := Some \<lparr>tuInputTokens = inTok, tuOutputTokens = outTok,
                                        tuTotalTokens = inTok + outTok\<rparr>\<rparr>
         else st)"

fun collect_msgs ::
  "'w flow_env \<Rightarrow> (string \<times> nat) list \<Rightarrow> redis_msg list \<Rightarrow> ArkFlowStepStatus list \<Rightarrow> 'w
     \<Rightarrow> ArkFlowStepStatus list \<times> 'w" where
  "collect_msgs F waiting [] sts w = (sts, w)"
| "collect_msgs F waiting (msg # msgs) sts w =
     (case map_of waiting (any_string (rmValues msg ''task_id'')) of
        None \<Rightarrow> collect_msgs F waiting msgs sts w
      | Some i \<Rightarrow>
          (let (now, w) = feNow F w
           in collect_msgs F waiting msgs (update_at i (record_result msg now) sts) w))"

definition collectResults ::
  "ext \<Rightarrow> 'w flow_env \<Rightarrow> string \<Rightarrow> (string \<rightharpoonup> nat) \<Rightarrow> ArkFlowStepStatus list \<Rightarrow> 'w
     \<Rightarrow> (gotext + ArkFlowStepStatus list) \<times> 'w" where
  "collectResults E F rdb m sts w =
     (let waiting = waiting_tasks E m sts in
      if waiting = [] then (Inr sts, w)
      else case feXRange F rdb resultsStream w of
             Inl (RedisErr e) \<Rightarrow> (Inl (TFmt ''XRANGE %s: %w'' [GStr resultsStream, GText e]), w)
           | Inl RedisNil \<Rightarrow> (Inr sts, w)
           | Inr msgs \<Rightarrow> (let (sts', w') = collect_msgs F waiting msgs sts w in (Inr sts', w')))"

section \<open>Submitting tasks\<close>

definition task_values :: "string \<Rightarrow> string \<Rightarrow> (string \<rightharpoonup> any)" where
  "task_values prompt streamKey =
     (let values = [''prompt'' \<mapsto> AStr prompt]
      in if streamKey \<noteq> [] then values(''stream_key'' \<mapsto> AStr streamKey) else values)"

definition submitTask :: "'w flow_env \<Rightarrow> string \<Rightarrow> string \<Rightarrow> string \<Rightarrow> 'w \<Rightarrow> (gotext + string) \<times> 'w" where
  "submitTask F rdb prompt streamKey w =
     (case feXAdd F rdb taskStream (task_values prompt streamKey) w of
        (Inl err, w') \<Rightarrow> (Inl (TFmt ''XADD %s: %w'' [GStr taskStream, GText err]), w')
      | (Inr tid, w') \<Rightarrow> (Inr tid, w'))"

definition stream_key :: "ArkFlow \<Rightarrow> string" where
  "stream_key f = (case mAnnotations (flMeta f) ''arkonis.dev/stream-key'' of None \<Rightarrow> [] | Some k \<Rightarrow> k)"

definition mark_skipped :: "time \<Rightarrow> ArkFlowStepStatus \<Rightarrow> ArkFlowStepStatus" where
  "mark_skipped now st =
     st\<lparr>stPhase := StepSkipped, stCompletionTime := Some now,
        stMessage := TLit ''skipped: if condition evaluated to false''\<rparr>"

definition mark_input_error :: "time \<Rightarrow> gotext \<Rightarrow> ArkFlowStepStatus \<Rightarrow> ArkFlowStepStatus" where
  "mark_input_error now err st =
     st\<lparr>stPhase := StepFailed, stCompletionTime := Some now,
        stMessage := TFmt ''input template error: %v'' [GText err]\<rparr>"

definition mark_submitted :: "time \<Rightarrow> string \<Rightarrow> ArkFlowStepStatus \<Rightarrow> ArkFlowStepStatus" where
  "mark_submitted now taskID st =
     st\<lparr>stPhase := StepRunning, stTaskID := taskID, stStartTime := Some now\<rparr>"

text \<open>A step's \<open>if\<close> condition holds, or it has none.\<close>

definition condition_holds :: "ext \<Rightarrow> any \<Rightarrow> ArkFlowStep \<Rightarrow> bool" where
  "condition_holds E data step \<longleftrightarrow>
     sIf step = [] \<or> (case ResolveTemplate E (sIf step) data of Inl _ \<Rightarrow> False | Inr r \<Rightarrow> IsTruthy r)"

text \<open>One round of the loop of \<open>submitPendingSteps\<close>; an error ends it.\<close>

definition submit_step ::
  "ext \<Rightarrow> 'w flow_env \<Rightarrow> string \<Rightarrow> ArkFlow \<Rightarrow> (string \<rightharpoonup> nat) \<Rightarrow> any \<Rightarrow> ArkFlowStep
     \<Rightarrow> ArkFlowStepStatus list \<Rightarrow> 'w \<Rightarrow> gotext option \<times> ArkFlowStepStatus list \<times> 'w" where
  "submit_step E F rdb f m data step sts w =
     (case m (sName step) of
        None \<Rightarrow> (None, sts, w)
      | Some i \<Rightarrow>
          if stPhase (sts ! i) \<noteq> StepPending then (None, sts, w)
          else if \<not> DepsSucceeded (sDependsOn step) m sts then (None, sts, w)
          else if \<not> condition_holds E data step then
            (let (now, w) = feNow F w in (None, update_at i (mark_skipped now) sts, w))
          else case ResolvePrompt E step data of
            Inl err \<Rightarrow> (let (now, w) = feNow F w in (None, update_at i (mark_input_error now err) sts, w))
          | Inr prompt \<Rightarrow>
              (case submitTask F rdb prompt (stream_key f) w of
                 (Inl err, w) \<Rightarrow>
                   (let (_, w) = feUpdateStatus F (f\<lparr>flStatus := (flStatus f)\<lparr>fSteps := sts\<rparr>\<rparr>) w
                    in (Some (TFmt ''submitting task for step %q: %w'' [GStr (sName step), GText err]), sts, w))
               | (Inr taskID, w) \<Rightarrow>
                   (let (now, w) = feNow F w in (None, update_at i (mark_submitted now taskID) sts, w))))"

fun submit_steps ::
  "ext \<Rightarrow> 'w flow_env \<Rightarrow> string \<Rightarrow> ArkFlow \<Rightarrow> (string \<rightharpoonup> nat) \<Rightarrow> any \<Rightarrow> ArkFlowStep list
     \<Rightarrow> ArkFlowStepStatus list \<Rightarrow> 'w \<Rightarrow> gotext option \<times> ArkFlowStepStatus list \<times> 'w" where
  "submit_steps E F rdb f m data [] sts w = (None, sts, w)"
| "submit_steps E F rdb f m data (step # steps) sts w =
     (case submit_step E F rdb f m data step sts w of
        (Some err, sts', w') \<Rightarrow> (Some err, sts', w')
      | (None, sts', w') \<Rightarrow> submit_steps E F rdb f m data steps sts' w')"

definition submitPendingSteps ::
  "ext \<Rightarrow> 'w flow_env \<Rightarrow> string \<Rightarrow> ArkFlow \<Rightarrow> (string \<rightharpoonup> nat) \<Rightarrow> any \<Rightarrow> 'w
     \<Rightarrow> gotext option \<times> ArkFlow \<times> 'w" where
  "submitPendingSteps E F rdb f m data w =
     (let (err, sts, w') = submit_steps E F rdb f m data (fsSteps (flSpec f)) (fSteps (flStatus f)) w
      in (err, f\<lparr>flStatus := (flStatus f)\<lparr>fSteps := sts\<rparr>\<rparr>, w'))"

section \<open>Reconcile\<close>

text \<open>
  \<open>InitializeSteps\<close> reads the clock only on the first reconcile.
\<close>

definition initialize :: "ext \<Rightarrow> 'w flow_env \<Rightarrow> ArkFlow \<Rightarrow> 'w \<Rightarrow> ArkFlow \<times> 'w" where
  "initialize E F f w =
     (if fPhase (flStatus f) \<noteq> FlowEmpty then (InitializeSteps E f 0, w)
      else let (now, w) = feNow F w in (InitializeSteps E f now, w))"

definition observe :: "ArkFlow \<Rightarrow> ArkFlow" where
  "observe f = f\<lparr>flStatus := (flStatus f)\<lparr>fObservedGeneration := mGeneration (flMeta f)\<rparr>\<rparr>"

text \<open>
  The part of \<open>Reconcile\<close> after its guards, up to the last status update: either an error that ends
  the reconcile, or the flow to store.
\<close>

definition run_flow :: "ext \<Rightarrow> 'w flow_env \<Rightarrow> string \<Rightarrow> ArkFlow \<Rightarrow> 'w \<Rightarrow> (gotext + ArkFlow) \<times> 'w" where
  "run_flow E F rdb f w =
     (let (f, w) = initialize E F f w;
          m = BuildStatusByName f
      in case collectResults E F rdb m (fSteps (flStatus f)) w of
           (Inl err, w) \<Rightarrow> (Inl (TFmt ''collecting step results: %w'' [GText err]), w)
         | (Inr sts, w) \<Rightarrow>
             (let f = f\<lparr>flStatus := (flStatus f)\<lparr>fSteps := sts\<rparr>\<rparr>;
                  f = ParseOutputJSON E f m;
                  data = BuildTemplateData E f m;
                  f = EvaluateLoops E f m data
              in case submitPendingSteps E F rdb f m data w of
                   (Some err, _, w) \<Rightarrow> (Inl err, w)
                 | (None, f, w) \<Rightarrow>
                     (let (now, w) = feNow F w in (Inr (observe (UpdateFlowPhase E f data now)), w))))"

text \<open>The results of \<open>Reconcile\<close>, with the error \<open>r.Status().Update\<close> returned, if it is returned.\<close>

definition update_and_return :: "'w flow_env \<Rightarrow> ArkFlow \<Rightarrow> ctrl_result \<Rightarrow> 'w \<Rightarrow> (gotext + ctrl_result) \<times> 'w" where
  "update_and_return F f res w =
     (case feUpdateStatus F f w of
        (Some err, w) \<Rightarrow> (Inl (api_text err), w)
      | (None, w) \<Rightarrow> (Inr res, w))"

definition update_ignored :: "'w flow_env \<Rightarrow> ArkFlow \<Rightarrow> 'w \<Rightarrow> (gotext + ctrl_result) \<times> 'w" where
  "update_ignored F f w = (let (_, w) = feUpdateStatus F f w in (Inr no_requeue, w))"

definition Reconcile ::
  "ext \<Rightarrow> 'w flow_env \<Rightarrow> ArkFlowReconciler \<Rightarrow> NamespacedName \<Rightarrow> 'w
     \<Rightarrow> (gotext + ctrl_result) \<times> ArkFlowReconciler \<times> 'w" where
  "Reconcile E F r req w =
     (case feGetFlow F w req of
        Inl err \<Rightarrow> (if IsNotFound err then Inr no_requeue else Inl (api_text err), r, w)
      | Inr f \<Rightarrow>
          if mDeletionTimestamp (flMeta f) \<noteq> None then (Inr no_requeue, r, w)
          else case isTriggerTemplate F f w of
            Inl err \<Rightarrow> (Inl (api_text err), r, w)
          | Inr True \<Rightarrow> (Inr no_requeue, r, w)
          | Inr False \<Rightarrow>
          (case ValidateDAG f of
             Some err \<Rightarrow>
               (let (res, w) = update_ignored F (SetCondition E f ConditionFalse ''InvalidDAG'' err) w
                in (res, r, w))
           | None \<Rightarrow>
          (case validateAgents F f w of
             Some err \<Rightarrow>
               (let (res, w) = update_ignored F (SetCondition E f ConditionFalse ''DeploymentNotFound'' err) w
                in (res, r, w))
           | None \<Rightarrow>
          if IsTerminalPhase (fPhase (flStatus f)) then
            (let (res, w) = update_and_return F (observe f) no_requeue w in (res, r, w))
          else
          (case getRedis F r of
             (None, r) \<Rightarrow>
               (let (res, w) = update_ignored F (SetCondition E f ConditionFalse ''NoTaskQueue''
                      (TLit ''TASK_QUEUE_URL not set; flow execution requires Redis'')) w
                in (res, r, w))
           | (Some rdb, r) \<Rightarrow>
               (case run_flow E F rdb f w of
                  (Inl err, w) \<Rightarrow> (Inl err, r, w)
                | (Inr f, w) \<Rightarrow>
                    (let (res, w) = update_and_return F f
                           (if fPhase (flStatus f) = FlowRunning
                            then \<lparr>RequeueAfter = pipelineRequeueIn\<rparr> else no_requeue) w
                     in (res, r, w)))))))"

end
