(* ===== verification/AgentQueue.thy ===== *)
theory AgentQueue
  imports FlowController
begin

text \<open>
  \<^verbatim>\<open>internal/agent/queue/queue.go\<close>: the consumer side of the task stream. Redis is outside: a client is its
  address, a command with its reply is an operation of \<open>redis_env\<close> on the world. The operations whose
  replies the source throws away are given by the commands they send, in order.
\<close>

record Task =
  tkID :: string
  tkPrompt :: string
  tkMeta :: "string \<rightharpoonup> string"

record QueueUsage =
  quInputTokens :: i64
  quOutputTokens :: i64

record Queue =
  qRdb :: string
  qStream :: string
  qGroup :: string
  qConsumer :: string
  qMaxRetries :: i64

datatype redis_cmd =
    XGroupCreateMkStream string string string
  | XAck string string string
  | XAdd string "string \<rightharpoonup> any"
  | RPush string string
  | Expire string duration
  | Quit

record 'w redis_env =
  reParseURL :: "string \<Rightarrow> gotext + string"
  reCmd :: "string \<Rightarrow> redis_cmd \<Rightarrow> 'w \<Rightarrow> (gotext + string) \<times> 'w"
  reXReadGroup :: "string \<Rightarrow> string \<Rightarrow> string \<Rightarrow> string \<Rightarrow> 'w \<Rightarrow> (redis_error + redis_msg list list) \<times> 'w"

section \<open>Connecting\<close>

definition podName :: "(string \<Rightarrow> string) \<Rightarrow> string" where
  "podName getenv = (let name = getenv ''POD_NAME'' in if name \<noteq> [] then name else ''agent-local'')"

definition send :: "'w redis_env \<Rightarrow> string \<Rightarrow> redis_cmd \<Rightarrow> 'w \<Rightarrow> 'w" where
  "send R rdb c w = snd (reCmd R rdb c w)"

definition new_queue :: "'w redis_env \<Rightarrow> (string \<Rightarrow> string) \<Rightarrow> string \<Rightarrow> i64 \<Rightarrow> 'w \<Rightarrow> Queue \<times> 'w" where
  "new_queue R getenv addr maxRetries w =
     (let opts = (case reParseURL R addr of Inl _ \<Rightarrow> addr | Inr opts \<Rightarrow> opts);
          q = \<lparr>qRdb = opts, qStream = ''agent-tasks'', qGroup = ''agent-workers'',
               qConsumer = podName getenv, qMaxRetries = maxRetries\<rparr>
      in (q, send R opts (XGroupCreateMkStream (qStream q) (qGroup q) ''$'') w))"

section \<open>Taking tasks\<close>

definition task_of_msg :: "redis_msg \<Rightarrow> Task" where
  "task_of_msg msg =
     \<lparr>tkID = rmID msg, tkPrompt = any_string (rmValues msg ''prompt''),
      tkMeta = (\<lambda>k. if k = ''prompt'' then None
                     else case rmValues msg k of Some (AStr s) \<Rightarrow> Some s | _ \<Rightarrow> None)\<rparr>"

definition Poll :: "'w redis_env \<Rightarrow> Queue \<Rightarrow> 'w \<Rightarrow> (gotext + Task option) \<times> 'w" where
  "Poll R q w =
     (case reXReadGroup R (qRdb q) (qGroup q) (qConsumer q) (qStream q) w of
        (Inl RedisNil, w) \<Rightarrow> (Inr None, w)
      | (Inl (RedisErr err), w) \<Rightarrow> (Inl err, w)
      | (Inr [], w) \<Rightarrow> (Inr None, w)
      | (Inr ([] # _), w) \<Rightarrow> (Inr None, w)
      | (Inr ((msg # _) # _), w) \<Rightarrow> (Inr (Some (task_of_msg msg)), w))"

section \<open>Submitting and finishing tasks\<close>

definition Submit :: "'w redis_env \<Rightarrow> Queue \<Rightarrow> string \<Rightarrow> 'w \<Rightarrow> (gotext + string) \<times> 'w" where
  "Submit R q prompt w =
     (case reCmd R (qRdb q) (XAdd (qStream q) [''prompt'' \<mapsto> AStr prompt]) w of
        (Inl err, w) \<Rightarrow> (Inl (TFmt ''XADD %s: %w'' [GStr (qStream q), GText err]), w)
      | (Inr tid, w) \<Rightarrow> (Inr tid, w))"

definition Ack :: "Queue \<Rightarrow> string \<Rightarrow> string \<Rightarrow> QueueUsage \<Rightarrow> redis_cmd list" where
  "Ack q taskID result usage =
     [XAck (qStream q) (qGroup q) taskID,
      XAdd (qStream q @ ''-results'')
        [''task_id'' \<mapsto> AStr taskID, ''result'' \<mapsto> AStr result,
         ''input_tokens'' \<mapsto> AInt (quInputTokens usage), ''output_tokens'' \<mapsto> AInt (quOutputTokens usage)]]"

definition task_attempt :: "Task \<Rightarrow> i64" where
  "task_attempt task =
     (case Atoi (case tkMeta task ''attempt'' of None \<Rightarrow> [] | Some v \<Rightarrow> v) of Inl _ \<Rightarrow> 0 | Inr a \<Rightarrow> a)"

text \<open>
  The payload of a retry: the two fixed fields, then every other entry of the metadata, which is a map
  with one value per key.
\<close>

definition retry_values :: "Task \<Rightarrow> i64 \<Rightarrow> (string \<rightharpoonup> any)" where
  "retry_values task attempt =
     (let values = [''prompt'' \<mapsto> AStr (tkPrompt task), ''attempt'' \<mapsto> AStr (Itoa (sint (attempt + 1)))] in
      (\<lambda>k. case tkMeta task k of
             Some v \<Rightarrow> if k \<noteq> ''attempt'' then Some (AStr v) else values k
           | None \<Rightarrow> values k))"

definition Nack :: "Queue \<Rightarrow> Task \<Rightarrow> string \<Rightarrow> redis_cmd list" where
  "Nack q task reason =
     (let attempt = task_attempt task in
      XAck (qStream q) (qGroup q) (tkID task) #
      (if sint attempt < sint (qMaxRetries q)
       then [XAdd (qStream q) (retry_values task attempt)]
       else [XAdd (qStream q @ ''-dead'')
               [''task_id'' \<mapsto> AStr (tkID task), ''prompt'' \<mapsto> AStr (tkPrompt task),
                ''error'' \<mapsto> AStr reason, ''attempt'' \<mapsto> AStr (Itoa (sint attempt))]]))"

section \<open>Streaming\<close>

definition StreamDone :: string where "StreamDone = ''__EOF__''"

definition PublishChunk :: "string \<Rightarrow> string \<Rightarrow> redis_cmd list" where
  "PublishChunk key chunk = [RPush key chunk]"

definition DoneChunk :: "string \<Rightarrow> redis_cmd list" where
  "DoneChunk key = [RPush key StreamDone, Expire key (5 * Minute)]"

definition CloseQueue :: "redis_cmd list" where
  "CloseQueue = [Quit]"

text \<open>Sending a list of commands whose replies are discarded.\<close>

definition send_all :: "'w redis_env \<Rightarrow> Queue \<Rightarrow> redis_cmd list \<Rightarrow> 'w \<Rightarrow> 'w" where
  "send_all R q cs w = fold (send R (qRdb q)) cs w"

section \<open>What comes back from a stream\<close>

text \<open>
  Redis stores field values as byte strings, and the client writes an \<open>int64\<close> in decimal: \<open>wire v\<close> is
  how a value sent with \<open>XADD\<close> is read back.
\<close>

definition wire_ok :: "(any \<Rightarrow> any) \<Rightarrow> bool" where
  "wire_ok wire \<longleftrightarrow> (\<forall>s. wire (AStr s) = AStr s) \<and> (\<forall>n. wire (AInt n) = AStr (Itoa (sint n)))"

definition stored_msg :: "(any \<Rightarrow> any) \<Rightarrow> string \<Rightarrow> (string \<rightharpoonup> any) \<Rightarrow> redis_msg" where
  "stored_msg wire mid values = \<lparr>rmID = mid, rmValues = (\<lambda>k. map_option wire (values k))\<rparr>"

section \<open>Retries\<close>

text \<open>
  A retry as the next consumer sees it: the same prompt and metadata, one attempt more.
\<close>

lemma task_attempt_next:
  assumes "wire_ok wire" and "tkMeta task ''prompt'' = None"
  shows "task_of_msg (stored_msg wire mid (retry_values task a)) =
     \<lparr>tkID = mid, tkPrompt = tkPrompt task, tkMeta = (tkMeta task)(''attempt'' \<mapsto> Itoa (sint (a + 1)))\<rparr>"
proof -
  have "any_string (map_option wire (retry_values task a ''prompt'')) = tkPrompt task"
    using assms by (simp add: retry_values_def wire_ok_def Let_def)
  moreover have "(if k = ''prompt'' then None
      else case map_option wire (retry_values task a k) of Some (AStr s) \<Rightarrow> Some s | _ \<Rightarrow> None)
      = ((tkMeta task)(''attempt'' \<mapsto> Itoa (sint (a + 1)))) k" for k
    using assms by (auto simp: retry_values_def wire_ok_def Let_def split: option.split)
  ultimately show ?thesis
    by (simp add: task_of_msg_def stored_msg_def fun_eq_iff del: fun_upd_apply split del: if_split cong: if_cong)
qed

lemma task_attempt_retry:
  assumes "tkMeta t = (tkMeta task)(''attempt'' \<mapsto> Itoa (sint a))"
  shows "task_attempt t = a"
  using assms by (simp add: task_attempt_def)

text \<open>The next life of a task that failed, if it has one.\<close>

definition next_task :: "(any \<Rightarrow> any) \<Rightarrow> Queue \<Rightarrow> Task \<Rightarrow> string \<Rightarrow> Task option" where
  "next_task wire q task mid =
     (case Nack q task [] of
        [_, XAdd s values] \<Rightarrow> if s = qStream q then Some (task_of_msg (stored_msg wire mid values)) else None
      | _ \<Rightarrow> None)"

inductive retried :: "(any \<Rightarrow> any) \<Rightarrow> Queue \<Rightarrow> Task \<Rightarrow> nat \<Rightarrow> Task \<Rightarrow> bool" for wire q task where
  first: "retried wire q task 0 task"
| again: "retried wire q task n t \<Longrightarrow> next_task wire q t mid = Some t' \<Longrightarrow> retried wire q task (Suc n) t'"

lemma next_task_Some:
  assumes "wire_ok wire" and "next_task wire q task mid = Some t"
  shows "sint (task_attempt task) < sint (qMaxRetries q)"
    and "tkMeta task ''prompt'' = None \<Longrightarrow>
      t = \<lparr>tkID = mid, tkPrompt = tkPrompt task, tkMeta = (tkMeta task)(''attempt'' \<mapsto> Itoa (sint (task_attempt task + 1)))\<rparr>"
  using assms task_attempt_next [OF assms(1)]
  by (auto simp: next_task_def Nack_def Let_def split: if_splits)

lemma retried_chain:
  assumes "wire_ok wire" and "tkMeta task ''prompt'' = None"
  shows "retried wire q task n t \<Longrightarrow>
     sint (task_attempt t) = sint (task_attempt task) + int n \<and> tkMeta t ''prompt'' = None \<and>
     tkPrompt t = tkPrompt task \<and> (\<forall>k. k \<noteq> ''attempt'' \<longrightarrow> tkMeta t k = tkMeta task k) \<and>
     (n \<noteq> 0 \<longrightarrow> sint (task_attempt t) \<le> sint (qMaxRetries q))"
proof (induction rule: retried.induct)
  case first
  from assms show ?case by simp
next
  case (again n t mid t')
  note some = next_task_Some [OF assms(1) again.hyps(2)]
  from some(2) again.IH have t': "t' = \<lparr>tkID = mid, tkPrompt = tkPrompt t,
      tkMeta = (tkMeta t)(''attempt'' \<mapsto> Itoa (sint (task_attempt t + 1)))\<rparr>" by simp
  then have "task_attempt t' = task_attempt t + 1" by (intro task_attempt_retry) simp
  with sint_inc_i64 [OF some(1)] some(1) again.IH t' show ?case by auto
qed

end
