(* ===== verification/AgentConfig.thy ===== *)
theory AgentConfig
  imports AgentQueue
begin

text \<open>
  \<^verbatim>\<open>internal/agent/config/config.go\<close>: the configuration an agent reads from its environment. \<open>getenv\<close> is the
  environment, with the empty string for a variable that is not set; \<open>json.Unmarshal\<close> into the two
  typed slices is a parameter.
\<close>

record WebhookToolConfig =
  wcName :: string
  wcDescription :: string
  wcURL :: string
  wcMethod :: string
  wcInputSchema :: string

record MCPServerConfig =
  mcName :: string
  mcURL :: string

record Config =
  cfgProvider :: string
  cfgModel :: string
  cfgSystemPrompt :: string
  cfgMCPServers :: "MCPServerConfig list"
  cfgMaxTokensPerCall :: i64
  cfgTimeoutSeconds :: i64
  cfgTaskQueueURL :: string
  cfgValidatorPrompt :: string
  cfgMaxRetries :: i64
  cfgWebhookTools :: "WebhookToolConfig list"

record config_json =
  cjServers :: "string \<Rightarrow> gotext + MCPServerConfig list"
  cjWebhookTools :: "string \<Rightarrow> gotext + WebhookToolConfig list"

definition requireEnv :: "(string \<Rightarrow> string) \<Rightarrow> string \<Rightarrow> gotext + string" where
  "requireEnv getenv key =
     (let v = getenv key in
      if v = [] then Inl (TFmt ''required env var %s is not set'' [GStr key]) else Inr v)"

text \<open>The text of \<open>strconv.Atoi\<close>'s error.\<close>

definition atoi_error :: "string \<Rightarrow> num_error \<Rightarrow> gotext" where
  "atoi_error v e = TFmt ''strconv.Atoi: parsing %q: %s''
     [GStr v, GStr (case e of ErrSyntax \<Rightarrow> ''invalid syntax'' | ErrRange \<Rightarrow> ''value out of range'')]"

text \<open>The three blocks that read an optional number, and the two that read optional JSON, are alike.\<close>

definition optional_int :: "(string \<Rightarrow> string) \<Rightarrow> string \<Rightarrow> string \<Rightarrow> i64 \<Rightarrow> gotext + i64" where
  "optional_int getenv key fmt dflt =
     (let v = getenv key in
      if v = [] then Inr dflt
      else case Atoi v of
             Inl err \<Rightarrow> Inl (TFmt fmt [GStr v, GText (atoi_error v err)])
           | Inr n \<Rightarrow> Inr n)"

definition optional_json :: "(string \<Rightarrow> string) \<Rightarrow> (string \<Rightarrow> gotext + 'a list) \<Rightarrow> string \<Rightarrow> string \<Rightarrow> gotext + 'a list" where
  "optional_json getenv unmarshal key fmt =
     (let raw = getenv key in
      if raw = [] then Inr []
      else case unmarshal raw of Inl err \<Rightarrow> Inl (TFmt fmt [GText err]) | Inr xs \<Rightarrow> Inr xs)"

definition Load :: "config_json \<Rightarrow> (string \<Rightarrow> string) \<Rightarrow> gotext + Config" where
  "Load J getenv =
     (case requireEnv getenv ''AGENT_MODEL'' of Inl err \<Rightarrow> Inl err | Inr model \<Rightarrow>
     (case requireEnv getenv ''AGENT_SYSTEM_PROMPT'' of Inl err \<Rightarrow> Inl err | Inr systemPrompt \<Rightarrow>
     (case requireEnv getenv ''TASK_QUEUE_URL'' of Inl err \<Rightarrow> Inl err | Inr queueURL \<Rightarrow>
     (case optional_int getenv ''AGENT_MAX_TOKENS'' ''invalid AGENT_MAX_TOKENS %q: %w'' 8000 of
        Inl err \<Rightarrow> Inl err | Inr maxTokens \<Rightarrow>
     (case optional_int getenv ''AGENT_TIMEOUT_SECONDS'' ''invalid AGENT_TIMEOUT_SECONDS %q: %w'' 120 of
        Inl err \<Rightarrow> Inl err | Inr timeout \<Rightarrow>
     (case optional_json getenv (cjServers J) ''AGENT_MCP_SERVERS'' ''invalid AGENT_MCP_SERVERS JSON: %w'' of
        Inl err \<Rightarrow> Inl err | Inr servers \<Rightarrow>
     (case optional_int getenv ''AGENT_MAX_RETRIES'' ''invalid AGENT_MAX_RETRIES %q: %w'' 3 of
        Inl err \<Rightarrow> Inl err | Inr retries \<Rightarrow>
     (case optional_json getenv (cjWebhookTools J) ''AGENT_WEBHOOK_TOOLS'' ''invalid AGENT_WEBHOOK_TOOLS JSON: %w'' of
        Inl err \<Rightarrow> Inl err | Inr tools \<Rightarrow>
          Inr \<lparr>cfgProvider = getenv ''AGENT_PROVIDER'', cfgModel = model, cfgSystemPrompt = systemPrompt,
               cfgMCPServers = servers, cfgMaxTokensPerCall = maxTokens, cfgTimeoutSeconds = timeout,
               cfgTaskQueueURL = queueURL, cfgValidatorPrompt = getenv ''AGENT_VALIDATOR_PROMPT'',
               cfgMaxRetries = retries, cfgWebhookTools = tools\<rparr>))))))))"

definition TaskTimeout :: "Config \<Rightarrow> duration" where
  "TaskTimeout cfg = cfgTimeoutSeconds cfg * Second"

section \<open>Reading back\<close>

lemma requireEnv_ok [simp]: "getenv k \<noteq> [] \<Longrightarrow> requireEnv getenv k = Inr (getenv k)"
  by (simp add: requireEnv_def)

lemma requireEnv_missing: "getenv k = [] \<Longrightarrow> requireEnv getenv k = Inl (TFmt ''required env var %s is not set'' [GStr k])"
  by (simp add: requireEnv_def)

lemma optional_int_Itoa: "getenv k = Itoa (sint n) \<Longrightarrow> optional_int getenv k fmt d = Inr n"
  by (simp add: optional_int_def Itoa_nonempty)

lemma optional_int_unset: "getenv k = [] \<Longrightarrow> optional_int getenv k fmt d = Inr d"
  by (simp add: optional_int_def)

end
