(* ===== verification/AgentMcp.thy ===== *)
theory AgentMcp
  imports AgentConfig
begin

text \<open>
  \<^verbatim>\<open>internal/agent/mcp/mcp.go\<close>: discovering and calling the tools of MCP servers over HTTP. The network and
  JSON are operations of \<open>http_env\<close>; a \<open>json.RawMessage\<close> is its bytes.
\<close>

record http_request =
  hqMethod :: string
  hqURL :: string
  hqBody :: "string option"
  hqContentType :: "string option"

record http_response =
  hrStatus :: int
  hrBody :: string

record tool_desc =
  tdName :: string
  tdDescription :: string
  tdInputSchema :: string

record content_item =
  ciType :: string
  ciText :: string

record 'w http_env =
  heNewRequest :: "string \<Rightarrow> string \<Rightarrow> gotext option" \<comment> \<open>the error of \<open>http.NewRequest\<close>\<close>
  heDo :: "http_request \<Rightarrow> 'w \<Rightarrow> (gotext + http_response) \<times> 'w"
  heReadAll :: "http_response \<Rightarrow> gotext + string"
  heTools :: "http_response \<Rightarrow> gotext + tool_desc list" \<comment> \<open>decoding the \<open>tools/list\<close> result\<close>
  heContent :: "http_response \<Rightarrow> gotext + content_item list" \<comment> \<open>decoding the \<open>tools/call\<close> result\<close>
  heMarshalCall :: "string \<Rightarrow> string \<Rightarrow> gotext + string" \<comment> \<open>encoding name and arguments\<close>

record Tool =
  tlName :: string
  tlDescription :: string
  tlInputSchema :: string
  tlServerURL :: string
  tlOriginalName :: string

section \<open>Discovery\<close>

text \<open>\<open>http.Post\<close>: a new request, and then \<open>Do\<close>.\<close>

definition http_Post :: "'w http_env \<Rightarrow> string \<Rightarrow> string \<Rightarrow> string option \<Rightarrow> 'w \<Rightarrow> (gotext + http_response) \<times> 'w" where
  "http_Post H url ctype body w =
     (case heNewRequest H ''POST'' url of
        Some err \<Rightarrow> (Inl err, w)
      | None \<Rightarrow> heDo H \<lparr>hqMethod = ''POST'', hqURL = url, hqBody = body, hqContentType = Some ctype\<rparr> w)"

definition prefixed_tool :: "MCPServerConfig \<Rightarrow> tool_desc \<Rightarrow> Tool" where
  "prefixed_tool server t =
     \<lparr>tlName = mcName server @ ''__'' @ tdName t, tlDescription = tdDescription t,
      tlInputSchema = tdInputSchema t, tlServerURL = mcURL server, tlOriginalName = tdName t\<rparr>"

definition discoverTools :: "'w http_env \<Rightarrow> MCPServerConfig \<Rightarrow> 'w \<Rightarrow> (gotext + Tool list) \<times> 'w" where
  "discoverTools H server w =
     (case http_Post H (mcURL server @ ''/tools/list'') ''application/json'' None w of
        (Inl err, w) \<Rightarrow> (Inl (TFmt ''tools/list request failed: %w'' [GText err]), w)
      | (Inr resp, w) \<Rightarrow>
          if hrStatus resp \<noteq> 200
          then (Inl (TFmt ''tools/list returned status %d'' [GInt (hrStatus resp)]), w)
          else case heTools H resp of
                 Inl err \<Rightarrow> (Inl (TFmt ''decoding tools/list response: %w'' [GText err]), w)
               | Inr ts \<Rightarrow> (Inr (map (prefixed_tool server) ts), w))"

fun discover_all :: "'w http_env \<Rightarrow> MCPServerConfig list \<Rightarrow> Tool list \<Rightarrow> 'w \<Rightarrow> (gotext + Tool list) \<times> 'w" where
  "discover_all H [] tools w = (Inr tools, w)"
| "discover_all H (s # servers) tools w =
     (case discoverTools H s w of
        (Inl err, w) \<Rightarrow>
          (Inl (TFmt ''failed to discover tools from MCP server %q: %w'' [GStr (mcName s), GText err]), w)
      | (Inr ts, w) \<Rightarrow> discover_all H servers (tools @ ts) w)"

text \<open>A manager is the list of its tools.\<close>

definition NewManager :: "'w http_env \<Rightarrow> MCPServerConfig list \<Rightarrow> 'w \<Rightarrow> (gotext + Tool list) \<times> 'w" where
  "NewManager H servers w = discover_all H servers [] w"

section \<open>Calling\<close>

fun first_text :: "content_item list \<Rightarrow> string" where
  "first_text [] = []"
| "first_text (c # cs) = (if ciType c = ''text'' then ciText c else first_text cs)"

definition call_server :: "'w http_env \<Rightarrow> Tool \<Rightarrow> string \<Rightarrow> 'w \<Rightarrow> (gotext + string) \<times> 'w" where
  "call_server H t input w =
     (case heMarshalCall H (tlOriginalName t) input of
        Inl err \<Rightarrow> (Inl (TFmt ''marshalling tool call: %w'' [GText err]), w)
      | Inr body \<Rightarrow>
     (case heNewRequest H ''POST'' (tlServerURL t @ ''/tools/call'') of
        Some err \<Rightarrow> (Inl err, w)
      | None \<Rightarrow>
     (case heDo H \<lparr>hqMethod = ''POST'', hqURL = tlServerURL t @ ''/tools/call'', hqBody = Some body,
                    hqContentType = Some ''application/json''\<rparr> w of
        (Inl err, w) \<Rightarrow> (Inl (TFmt ''tools/call request failed: %w'' [GText err]), w)
      | (Inr resp, w) \<Rightarrow>
          (case heContent H resp of
             Inl err \<Rightarrow> (Inl (TFmt ''decoding tools/call response: %w'' [GText err]), w)
           | Inr content \<Rightarrow> (Inr (first_text content), w)))))"

fun mcp_CallTool :: "'w http_env \<Rightarrow> Tool list \<Rightarrow> string \<Rightarrow> string \<Rightarrow> 'w \<Rightarrow> (gotext + string) \<times> 'w" where
  "mcp_CallTool H [] toolName input w = (Inl (TFmt ''tool %q not found in any MCP server'' [GStr toolName]), w)"
| "mcp_CallTool H (t # ts) toolName input w =
     (if tlName t \<noteq> toolName then mcp_CallTool H ts toolName input w else call_server H t input w)"

section \<open>Lookup\<close>

text \<open>The call goes to the first tool of the name, and to no server if there is none.\<close>

lemma mcp_CallTool_first:
  "mcp_CallTool H ts n input w =
     (case find (\<lambda>t. tlName t = n) ts of
        None \<Rightarrow> (Inl (TFmt ''tool %q not found in any MCP server'' [GStr n]), w)
      | Some t \<Rightarrow> call_server H t input w)"
  by (induction ts) auto

lemma discover_all_ok:
  "discover_all H servers tools w = (Inr ts, w') \<Longrightarrow>
     \<exists>found. ts = tools @ found \<and> (\<forall>t \<in> set found. \<exists>s \<in> set servers.
        tlServerURL t = mcURL s \<and> tlName t = mcName s @ ''__'' @ tlOriginalName t)"
proof (induction servers arbitrary: tools w)
  case Nil
  then show ?case by simp
next
  case (Cons s servers)
  from Cons.prems obtain new w1 where new: "discoverTools H s w = (Inr new, w1)"
    and rest: "discover_all H servers (tools @ new) w1 = (Inr ts, w')"
    by (auto split: prod.splits sum.splits)
  from new have "\<forall>t \<in> set new. tlServerURL t = mcURL s \<and> tlName t = mcName s @ ''__'' @ tlOriginalName t"
    by (auto simp: discoverTools_def prefixed_tool_def split: prod.splits sum.splits if_splits)
  with Cons.IH [OF rest] show ?case by fastforce
qed

end
