(* ===== verification/AgentProviders.thy ===== *)
theory AgentProviders
  imports AgentMcp
begin

text \<open>
  \<^verbatim>\<open>internal/agent/providers\<close>: the registry, the mock provider and the tool-use loops of the two real
  ones. The SDKs are operations on the world: one call per API turn, and a stream as the events it
  delivers with the error it ends in. A \<open>context.Context\<close> only makes such a call fail, so it is part of
  the world. A provider's \<open>RunTask\<close> has the value \<open>None\<close> when it never returns.
\<close>

type_synonym 'w call_tool = "string \<Rightarrow> string \<Rightarrow> 'w \<Rightarrow> (gotext + string) \<times> 'w"
type_synonym 'w chunk_fn = "(string \<Rightarrow> 'w \<Rightarrow> 'w) option"
type_synonym task_result = "string \<times> QueueUsage \<times> gotext option"
type_synonym 'w provider =
  "Config \<Rightarrow> Task \<Rightarrow> Tool list \<Rightarrow> 'w call_tool \<Rightarrow> 'w chunk_fn \<Rightarrow> 'w \<Rightarrow> (task_result \<times> 'w) option"

definition no_usage :: QueueUsage where
  "no_usage = \<lparr>quInputTokens = 0, quOutputTokens = 0\<rparr>"

definition add_usage :: "QueueUsage \<Rightarrow> i64 \<Rightarrow> i64 \<Rightarrow> QueueUsage" where
  "add_usage u i o' = \<lparr>quInputTokens = quInputTokens u + i, quOutputTokens = quOutputTokens u + o'\<rparr>"

section \<open>The registry\<close>

definition defaultProvider :: string where "defaultProvider = ''anthropic''"

definition Register :: "string \<Rightarrow> 'p \<Rightarrow> (string \<rightharpoonup> 'p) \<Rightarrow> (string \<rightharpoonup> 'p)" where
  "Register name factory registry = registry(name \<mapsto> factory)"

definition new_provider :: "(string \<rightharpoonup> 'p) \<Rightarrow> string \<Rightarrow> gotext + 'p" where
  "new_provider registry name =
     (let name = (if name = [] then defaultProvider else name) in
      case registry name of
        None \<Rightarrow> Inl (TFmt ''unsupported provider %q; import its package to register it'' [GStr name])
      | Some factory \<Rightarrow> Inr factory)"

definition Detect :: "string \<Rightarrow> string" where
  "Detect model =
     (if HasPrefix model ''claude-'' then defaultProvider
      else if HasPrefix model ''gpt-'' \<or> HasPrefix model ''o1'' \<or> HasPrefix model ''o3'' \<or> HasPrefix model ''o4''
      then ''openai''
      else ''openai'')"

section \<open>The mock provider\<close>

text \<open>
  \<open>Responses\<close> is an association list in the order this run visits the map, \<open>lower\<close> is
  \<open>strings.ToLower\<close>, and \<open>sleep\<close> waits for the delay or returns the context's error first.
\<close>

record mock_provider =
  mkResponses :: "(string \<times> string) list"
  mkDefault :: string
  mkDelay :: duration

fun match_responses :: "(string \<Rightarrow> string) \<Rightarrow> string \<Rightarrow> (string \<times> string) list \<Rightarrow> string option" where
  "match_responses lower low [] = None"
| "match_responses lower low ((key, reply) # rest) =
     (if Contains low (lower key) then Some reply else match_responses lower low rest)"

definition mock_match :: "(string \<Rightarrow> string) \<Rightarrow> mock_provider \<Rightarrow> string \<Rightarrow> string" where
  "mock_match lower p prompt =
     (case match_responses lower (lower prompt) (mkResponses p) of
        Some reply \<Rightarrow> reply
      | None \<Rightarrow> if mkDefault p \<noteq> [] then mkDefault p else ''mock response'')"

fun emit_words :: "(string \<Rightarrow> 'w \<Rightarrow> 'w) \<Rightarrow> bool \<Rightarrow> string list \<Rightarrow> 'w \<Rightarrow> 'w" where
  "emit_words f first [] w = w"
| "emit_words f first (x # xs) w = emit_words f False xs (f x (if first then w else f '' '' w))"

definition mock_RunTask ::
  "(string \<Rightarrow> string) \<Rightarrow> (duration \<Rightarrow> 'w \<Rightarrow> gotext option \<times> 'w) \<Rightarrow> mock_provider \<Rightarrow> 'w provider" where
  "mock_RunTask lower sleep p cfg task tools callTool chunkFn w =
     (let (cancelled, w) = (if 0 < sint (mkDelay p) then sleep (mkDelay p) w else (None, w)) in
      case cancelled of
        Some err \<Rightarrow> Some (([], no_usage, Some err), w)
      | None \<Rightarrow>
          (let reply = mock_match lower p (tkPrompt task);
               w = (case chunkFn of None \<Rightarrow> w | Some f \<Rightarrow> emit_words f True (Fields reply) w);
               usage = \<lparr>quInputTokens = word_of_nat (length (tkPrompt task) div 4),
                        quOutputTokens = word_of_nat (length reply div 4)\<rparr>
           in Some ((reply, usage, None), w)))"

section \<open>A loop of API turns\<close>

text \<open>
  \<open>turn\<close> is one round of the \<open>for\<close> loop: a result to return, or the state of the next round.
\<close>

partial_function (option) agent_loop :: "('s \<Rightarrow> 'w \<Rightarrow> ('r + 's) \<times> 'w) \<Rightarrow> 's \<Rightarrow> 'w \<Rightarrow> ('r \<times> 'w) option" where
  "agent_loop turn s w =
     (case turn s w of
        (Inl r, w) \<Rightarrow> Some (r, w)
      | (Inr s, w) \<Rightarrow> agent_loop turn s w)"

text \<open>Whatever the loop returns, some round returned.\<close>

lemma agent_loop_some_pair:
  fixes turn :: "'s \<Rightarrow> 'w \<Rightarrow> ('r + 's) \<times> 'w"
  assumes "agent_loop turn s w = Some y"
  shows "\<exists>s1 w1. turn s1 w1 = (Inl (fst y), snd y)"
proof (rule agent_loop.raw_induct [where P = "\<lambda>turn s w y. \<exists>s1 w1. turn s1 w1 = (Inl (fst y), snd y)", OF _ assms])
  fix loop :: "('s \<Rightarrow> 'w \<Rightarrow> ('r + 's) \<times> 'w) \<Rightarrow> 's \<Rightarrow> 'w \<Rightarrow> ('r \<times> 'w) option"
    and turn :: "'s \<Rightarrow> 'w \<Rightarrow> ('r + 's) \<times> 'w" and s w y
  assume IH: "\<And>turn s w y. loop turn s w = Some y \<Longrightarrow> \<exists>s1 w1. turn s1 w1 = (Inl (fst y), snd y)"
    and round: "(case turn s w of (Inl r, w) \<Rightarrow> Some (r, w) | (Inr s, w) \<Rightarrow> loop turn s w) = Some y"
  obtain a w1 where pair: "turn s w = (a, w1)" by (metis surj_pair)
  show "\<exists>s1 w1. turn s1 w1 = (Inl (fst y), snd y)"
  proof (cases a)
    case (Inl r)
    with pair round show ?thesis by (intro exI [of _ s] exI [of _ w]) auto
  next
    case (Inr s')
    with pair round IH show ?thesis by auto
  qed
qed

lemma agent_loop_some:
  "agent_loop turn s w = Some (r, w') \<Longrightarrow> \<exists>s1 w1. turn s1 w1 = (Inl r, w')"
  using agent_loop_some_pair by fastforce

text \<open>It returns whenever the rounds decrease a measure, such as a bound on the turns the model takes.\<close>

lemma agent_loop_returns:
  assumes "\<And>s w s' w'. turn s w = (Inr s', w') \<Longrightarrow> (m s' w' :: nat) < m s w"
  shows "\<exists>r. agent_loop turn s w = Some r"
proof (induction "m s w" arbitrary: s w rule: less_induct)
  case less
  show ?case
  proof (cases "turn s w")
    case (Pair a w')
    show ?thesis
    proof (cases a)
      case (Inl r)
      with Pair show ?thesis by (subst agent_loop.simps) simp
    next
      case (Inr s')
      with Pair less [OF assms] show ?thesis by (subst agent_loop.simps) simp
    qed
  qed
qed

section \<open>The interface of a provider\<close>

text \<open>
  What a client of \<open>LLMProvider\<close> may rely on: a failed task has no text; and, for the providers that
  stream, the chunks published last are the text of the result, in order and complete.
\<close>

locale llm_provider =
  fixes run :: "'w provider"
  assumes error_empty: "run cfg task tools callTool chunkFn w = Some ((text, usage, Some e), w') \<Longrightarrow> text = []"
begin

lemma success_or_empty:
  "run cfg task tools callTool chunkFn w = Some (r, w') \<Longrightarrow> snd (snd r) = None \<or> fst r = []"
  using error_empty by (cases r) (metis fst_conv snd_conv not_None_eq)

end

locale streaming_provider = llm_provider run for run :: "'w provider" +
  assumes chunks_are_text: "run cfg task tools callTool (Some f) w = Some ((text, usage, None), w') \<Longrightarrow>
     \<exists>w1 cs. w' = fold f cs w1 \<and> concat cs = text"

interpretation mock: llm_provider "mock_RunTask lower sleep p" for lower sleep p
  by unfold_locales (auto simp: mock_RunTask_def Let_def split: prod.splits option.splits)

end
