(* ===== verification/AgentAnthropic.thy ===== *)
theory AgentAnthropic
  imports AgentProviders
begin

text \<open>
  \<^verbatim>\<open>internal/agent/providers/anthropic/provider.go\<close>. A request holds the parameters the source sets; a
  stream is the list of its events with the error it ends in, and chunks are forwarded while the
  list is read.
\<close>

record an_block =
  abType :: string
  abText :: string
  abID :: string
  abName :: string
  abInput :: string

datatype an_param =
    PText string
  | PToolUse string string string \<comment> \<open>ID, input, name\<close>
  | PToolResult string gotext bool \<comment> \<open>ID, content, whether it is an error\<close>

datatype an_message = UserMessage "an_param list" | AssistantMessage "an_param list"

datatype schema_props = NoProps | RawProps string | AnyProps any

record an_schema =
  scProperties :: schema_props
  scRequired :: "string list"

record an_tool =
  atName :: string
  atDescription :: string
  atInputSchema :: an_schema

record an_request =
  aqModel :: string
  aqMaxTokens :: i64
  aqSystem :: string
  aqMessages :: "an_message list"
  aqTools :: "an_tool list"

record an_response =
  arContent :: "an_block list"
  arStopReason :: string
  arInputTokens :: i64
  arOutputTokens :: i64

datatype an_event =
    MessageStart i64 i64
  | MessageDelta i64
  | TextDelta string
  | OtherEvent

record 'w anthropic_env =
  anGetenv :: "string \<Rightarrow> string"
  anNew :: "string \<Rightarrow> an_request \<Rightarrow> 'w \<Rightarrow> (gotext + an_response) \<times> 'w"
  anStream :: "string \<Rightarrow> an_request \<Rightarrow> 'w \<Rightarrow> (an_event list \<times> gotext option) \<times> 'w"
  anSchema :: "string \<Rightarrow> gotext + (string \<times> string list)" \<comment> \<open>\<open>properties\<close> and \<open>required\<close> of a schema\<close>
  anUnmarshal :: "string \<Rightarrow> gotext + any"

section \<open>Tools and messages\<close>

definition parseToolSchema :: "'w anthropic_env \<Rightarrow> string \<Rightarrow> an_schema" where
  "parseToolSchema A raw =
     (if raw = [] then \<lparr>scProperties = NoProps, scRequired = []\<rparr>
      else case anSchema A raw of
        Inl _ \<Rightarrow> \<lparr>scProperties = RawProps raw, scRequired = []\<rparr>
      | Inr (properties, required) \<Rightarrow>
          if properties = [] then \<lparr>scProperties = RawProps raw, scRequired = []\<rparr>
          else case anUnmarshal A properties of
            Inl _ \<Rightarrow> \<lparr>scProperties = RawProps raw, scRequired = []\<rparr>
          | Inr props \<Rightarrow> \<lparr>scProperties = AnyProps props, scRequired = required\<rparr>)"

definition toAnthropicTools :: "'w anthropic_env \<Rightarrow> Tool list \<Rightarrow> an_tool list" where
  "toAnthropicTools A tools =
     map (\<lambda>t. \<lparr>atName = tlName t, atDescription = tlDescription t,
                atInputSchema = parseToolSchema A (tlInputSchema t)\<rparr>) tools"

fun executeTools :: "an_block list \<Rightarrow> 'w call_tool \<Rightarrow> 'w \<Rightarrow> an_param list \<times> 'w" where
  "executeTools [] callTool w = ([], w)"
| "executeTools (block # content) callTool w =
     (if abType block \<noteq> ''tool_use'' then executeTools content callTool w
      else case callTool (abName block) (abInput block) w of
        (Inl err, w) \<Rightarrow>
          (let (results, w) = executeTools content callTool w in (PToolResult (abID block) err True # results, w))
      | (Inr output, w) \<Rightarrow>
          (let (results, w) = executeTools content callTool w
           in (PToolResult (abID block) (TLit output) False # results, w)))"

fun assistantMessage :: "an_block list \<Rightarrow> an_param list" where
  "assistantMessage [] = []"
| "assistantMessage (block # content) =
     (if abType block = ''text'' then PText (abText block) # assistantMessage content
      else if abType block = ''tool_use''
      then PToolUse (abID block) (abInput block) (abName block) # assistantMessage content
      else assistantMessage content)"

fun extractText :: "an_block list \<Rightarrow> string" where
  "extractText [] = []"
| "extractText (block # content) = (if abType block = ''text'' then abText block else extractText content)"

section \<open>Streaming\<close>

fun stream_events ::
  "(string \<Rightarrow> 'w \<Rightarrow> 'w) \<Rightarrow> an_event list \<Rightarrow> string \<Rightarrow> QueueUsage \<Rightarrow> 'w \<Rightarrow> string \<times> QueueUsage \<times> 'w" where
  "stream_events f [] sb u w = (sb, u, w)"
| "stream_events f (MessageStart i o' # es) sb u w = stream_events f es sb (add_usage u i o') w"
| "stream_events f (MessageDelta o' # es) sb u w = stream_events f es sb (add_usage u 0 o') w"
| "stream_events f (TextDelta t # es) sb u w = stream_events f es (sb @ t) u (f t w)"
| "stream_events f (OtherEvent # es) sb u w = stream_events f es sb u w"

definition runStreamingTurn ::
  "'w anthropic_env \<Rightarrow> string \<Rightarrow> an_request \<Rightarrow> (string \<Rightarrow> 'w \<Rightarrow> 'w) \<Rightarrow> 'w \<Rightarrow> task_result \<times> 'w" where
  "runStreamingTurn A apiKey params f w =
     (let ((events, err), w) = anStream A apiKey params w;
          (text, usage, w) = stream_events f events [] no_usage w
      in case err of
           Some e \<Rightarrow> (([], usage, Some (TFmt ''anthropic streaming error: %w'' [GText e])), w)
         | None \<Rightarrow> ((text, usage, None), w))"

section \<open>The tool-use loop\<close>

definition emit :: "'w chunk_fn \<Rightarrow> string \<Rightarrow> 'w \<Rightarrow> 'w" where
  "emit chunkFn text w = (case chunkFn of None \<Rightarrow> w | Some f \<Rightarrow> f text w)"

definition an_params :: "Config \<Rightarrow> an_tool list \<Rightarrow> an_message list \<Rightarrow> an_request" where
  "an_params cfg tools messages =
     \<lparr>aqModel = cfgModel cfg, aqMaxTokens = cfgMaxTokensPerCall cfg, aqSystem = cfgSystemPrompt cfg,
      aqMessages = messages, aqTools = tools\<rparr>"

definition an_turn ::
  "'w anthropic_env \<Rightarrow> string \<Rightarrow> Config \<Rightarrow> an_tool list \<Rightarrow> 'w call_tool \<Rightarrow> 'w chunk_fn
     \<Rightarrow> an_message list \<times> QueueUsage \<Rightarrow> 'w \<Rightarrow> (task_result + an_message list \<times> QueueUsage) \<times> 'w" where
  "an_turn A apiKey cfg tools callTool chunkFn s w =
     (let (messages, usage) = s; params = an_params cfg tools messages in
      case (if tools = [] then chunkFn else None) of
        Some f \<Rightarrow>
          (case runStreamingTurn A apiKey params f w of
             ((_, _, Some err), w) \<Rightarrow> (Inl ([], usage, Some err), w)
           | ((text, u, None), w) \<Rightarrow>
               (Inl (text, add_usage usage (quInputTokens u) (quOutputTokens u), None), w))
      | None \<Rightarrow>
          (case anNew A apiKey params w of
             (Inl err, w) \<Rightarrow> (Inl ([], usage, Some (TFmt ''anthropic API error: %w'' [GText err])), w)
           | (Inr resp, w) \<Rightarrow>
               (let usage = add_usage usage (arInputTokens resp) (arOutputTokens resp);
                    messages = messages @ [AssistantMessage (assistantMessage (arContent resp))]
                in if arStopReason resp = ''end_turn''
                   then (let text = extractText (arContent resp) in (Inl (text, usage, None), emit chunkFn text w))
                   else let (toolResults, w) = executeTools (arContent resp) callTool w in
                        if toolResults = []
                        then (let text = extractText (arContent resp) in (Inl (text, usage, None), emit chunkFn text w))
                        else (Inr (messages @ [UserMessage toolResults], usage), w))))"

definition anthropic_RunTask :: "'w anthropic_env \<Rightarrow> 'w provider" where
  "anthropic_RunTask A cfg task tools callTool chunkFn w =
     (let apiKey = anGetenv A ''ANTHROPIC_API_KEY'' in
      if apiKey = []
      then Some (([], no_usage, Some (TLit ''ANTHROPIC_API_KEY is not set; required for the anthropic provider'')), w)
      else agent_loop (an_turn A apiKey cfg (toAnthropicTools A tools) callTool chunkFn)
             ([UserMessage [PText (tkPrompt task)]], no_usage) w)"

section \<open>The contract\<close>

lemma stream_events_chunks:
  "stream_events f es sb u w = (sb', u', w') \<Longrightarrow> \<exists>cs. w' = fold f cs w \<and> sb' = sb @ concat cs"
proof (induction f es sb u w arbitrary: sb' u' w' rule: stream_events.induct)
  case (1 f sb u w)
  then show ?case by (intro exI [of _ "[]"]) simp
next
  case (4 f t es sb u w)
  then obtain cs where "w' = fold f cs (f t w)" and "sb' = (sb @ t) @ concat cs" by fastforce
  then show ?case by (intro exI [of _ "t # cs"]) simp
qed auto

lemma emit_chunks: "\<exists>w1 cs. emit (Some f) text w = fold f cs w1 \<and> concat cs = text"
  by (intro exI [of _ w] exI [of _ "[text]"]) (simp add: emit_def)

lemma streaming_turn_chunks:
  assumes "runStreamingTurn A k params f w = ((text, u, None), w')"
  shows "\<exists>w1 cs. w' = fold f cs w1 \<and> concat cs = text"
  using assms stream_events_chunks
  by (fastforce simp: runStreamingTurn_def Let_def split: prod.splits option.splits)

lemma an_turn_error:
  "an_turn A k cfg tools callTool chunkFn s w = (Inl (text, usage, Some e), w') \<Longrightarrow> text = []"
  by (auto simp: an_turn_def Let_def split: prod.splits sum.splits option.splits if_splits)

lemma an_turn_chunks:
  "an_turn A k cfg tools callTool (Some f) s w = (Inl (text, usage, None), w') \<Longrightarrow>
     \<exists>w1 cs. w' = fold f cs w1 \<and> concat cs = text"
  by (cases "tools = []")
     (auto simp: an_turn_def Let_def split: prod.splits sum.splits option.splits if_splits
       dest: streaming_turn_chunks intro: emit_chunks)

interpretation anthropic: streaming_provider "anthropic_RunTask A" for A
proof (unfold_locales, goal_cases)
  case (1 cfg task tools callTool chunkFn w t usage e w')
  then show ?case
    by (auto simp: anthropic_RunTask_def Let_def split: if_splits dest!: agent_loop_some dest: an_turn_error)
next
  case (2 cfg task tools callTool f w t usage w')
  then show ?case
    by (auto simp: anthropic_RunTask_def Let_def split: if_splits dest!: agent_loop_some dest: an_turn_chunks)
qed

end
