(* ===== verification/AgentOpenAI.thy ===== *)
theory AgentOpenAI
  imports AgentAnthropic
begin

text \<open>
  \<^verbatim>\<open>internal/agent/providers/openai/provider.go\<close>, in the same terms as the Anthropic provider.
\<close>

record oa_tool_call =
  ocID :: string
  ocName :: string
  ocArguments :: string

datatype oa_message =
    SystemMsg string
  | UserMsg string
  | AssistantMsg string "oa_tool_call list"
  | ToolMsg gotext string \<comment> \<open>content and call ID\<close>

record oa_tool =
  otName :: string
  otDescription :: string
  otParameters :: "(string \<rightharpoonup> any) option"

record oa_request =
  oqModel :: string
  oqMessages :: "oa_message list"
  oqMaxCompletionTokens :: "i64 option"
  oqTools :: "oa_tool list"

record oa_choice =
  ohContent :: string
  ohToolCalls :: "oa_tool_call list"
  ohFinishReason :: string

record oa_response =
  orChoices :: "oa_choice list"
  orPromptTokens :: i64
  orCompletionTokens :: i64

record oa_chunk =
  okPromptTokens :: i64
  okCompletionTokens :: i64
  okDeltas :: "string list" \<comment> \<open>the content of each choice\<close>

record 'w openai_env =
  oaGetenv :: "string \<Rightarrow> string"
  oaNew :: "string \<times> string \<Rightarrow> oa_request \<Rightarrow> 'w \<Rightarrow> (gotext + oa_response) \<times> 'w"
  oaStream :: "string \<times> string \<Rightarrow> oa_request \<Rightarrow> 'w \<Rightarrow> (oa_chunk list \<times> gotext option) \<times> 'w"
  oaUnmarshalMap :: "string \<Rightarrow> gotext + (string \<rightharpoonup> any)"

section \<open>Tools and messages\<close>

definition rawToMap :: "'w openai_env \<Rightarrow> string \<Rightarrow> (string \<rightharpoonup> any)" where
  "rawToMap A raw = (case oaUnmarshalMap A raw of Inl _ \<Rightarrow> Map.empty | Inr m \<Rightarrow> m)"

definition toOpenAITools :: "'w openai_env \<Rightarrow> Tool list \<Rightarrow> oa_tool list" where
  "toOpenAITools A tools =
     map (\<lambda>t. \<lparr>otName = tlName t, otDescription = tlDescription t,
                otParameters = (if tlInputSchema t \<noteq> [] then Some (rawToMap A (tlInputSchema t)) else None)\<rparr>) tools"

definition oa_assistantMessage :: "oa_choice \<Rightarrow> oa_message" where
  "oa_assistantMessage c =
     AssistantMsg (ohContent c)
       (map (\<lambda>tc. \<lparr>ocID = ocID tc, ocName = ocName tc, ocArguments = ocArguments tc\<rparr>) (ohToolCalls c))"

fun run_tool_calls :: "oa_tool_call list \<Rightarrow> 'w call_tool \<Rightarrow> oa_message list \<Rightarrow> 'w \<Rightarrow> oa_message list \<times> 'w" where
  "run_tool_calls [] callTool messages w = (messages, w)"
| "run_tool_calls (tc # tcs) callTool messages w =
     (case callTool (ocName tc) (ocArguments tc) w of
        (Inl err, w) \<Rightarrow> run_tool_calls tcs callTool (messages @ [ToolMsg err (ocID tc)]) w
      | (Inr output, w) \<Rightarrow> run_tool_calls tcs callTool (messages @ [ToolMsg (TLit output) (ocID tc)]) w)"

section \<open>Streaming\<close>

definition chunk_usage :: "oa_chunk \<Rightarrow> QueueUsage \<Rightarrow> QueueUsage" where
  "chunk_usage c u =
     (if 0 < sint (okCompletionTokens c)
      then \<lparr>quInputTokens = okPromptTokens c, quOutputTokens = okCompletionTokens c\<rparr>
      else u)"

fun stream_chunks ::
  "(string \<Rightarrow> 'w \<Rightarrow> 'w) \<Rightarrow> oa_chunk list \<Rightarrow> string \<Rightarrow> QueueUsage \<Rightarrow> 'w \<Rightarrow> string \<times> QueueUsage \<times> 'w" where
  "stream_chunks f [] sb u w = (sb, u, w)"
| "stream_chunks f (c # cs) sb u w =
     (let u = chunk_usage c u in
      case okDeltas c of
        [] \<Rightarrow> stream_chunks f cs sb u w
      | delta # _ \<Rightarrow>
          if delta \<noteq> [] then stream_chunks f cs (sb @ delta) u (f delta w) else stream_chunks f cs sb u w)"

definition oa_runStreamingTurn ::
  "'w openai_env \<Rightarrow> string \<times> string \<Rightarrow> oa_request \<Rightarrow> (string \<Rightarrow> 'w \<Rightarrow> 'w) \<Rightarrow> 'w \<Rightarrow> task_result \<times> 'w" where
  "oa_runStreamingTurn A client params f w =
     (let ((chunks, err), w) = oaStream A client params w;
          (text, usage, w) = stream_chunks f chunks [] no_usage w
      in case err of
           Some e \<Rightarrow> (([], usage, Some (TFmt ''openai streaming error: %w'' [GText e])), w)
         | None \<Rightarrow> ((text, usage, None), w))"

section \<open>The tool-use loop\<close>

definition oa_params :: "Config \<Rightarrow> oa_tool list \<Rightarrow> oa_message list \<Rightarrow> oa_request" where
  "oa_params cfg tools messages =
     \<lparr>oqModel = cfgModel cfg, oqMessages = messages,
      oqMaxCompletionTokens = (if 0 < sint (cfgMaxTokensPerCall cfg) then Some (cfgMaxTokensPerCall cfg) else None),
      oqTools = tools\<rparr>"

definition oa_turn ::
  "'w openai_env \<Rightarrow> string \<times> string \<Rightarrow> Config \<Rightarrow> oa_tool list \<Rightarrow> 'w call_tool \<Rightarrow> 'w chunk_fn
     \<Rightarrow> oa_message list \<times> QueueUsage \<Rightarrow> 'w \<Rightarrow> (task_result + oa_message list \<times> QueueUsage) \<times> 'w" where
  "oa_turn A client cfg tools callTool chunkFn s w =
     (let (messages, usage) = s; params = oa_params cfg tools messages in
      case (if tools = [] then chunkFn else None) of
        Some f \<Rightarrow>
          (case oa_runStreamingTurn A client params f w of
             ((_, _, Some err), w) \<Rightarrow> (Inl ([], usage, Some err), w)
           | ((text, u, None), w) \<Rightarrow>
               (Inl (text, add_usage usage (quInputTokens u) (quOutputTokens u), None), w))
      | None \<Rightarrow>
          (case oaNew A client params w of
             (Inl err, w) \<Rightarrow> (Inl ([], usage, Some (TFmt ''openai API error: %w'' [GText err])), w)
           | (Inr resp, w) \<Rightarrow>
               (let usage = add_usage usage (orPromptTokens resp) (orCompletionTokens resp) in
                case orChoices resp of
                  [] \<Rightarrow> (Inl ([], usage, Some (TLit ''openai: empty choices in response'')), w)
                | choice # _ \<Rightarrow>
                    (let messages = messages @ [oa_assistantMessage choice] in
                     if ohFinishReason choice \<noteq> ''tool_calls'' \<or> ohToolCalls choice = []
                     then (Inl (ohContent choice, usage, None), emit chunkFn (ohContent choice) w)
                     else let (messages, w) = run_tool_calls (ohToolCalls choice) callTool messages w
                          in (Inr (messages, usage), w)))))"

text \<open>The client is its key and base URL, the latter empty for the default.\<close>

definition openai_RunTask :: "'w openai_env \<Rightarrow> 'w provider" where
  "openai_RunTask A cfg task tools callTool chunkFn w =
     (let apiKey = oaGetenv A ''OPENAI_API_KEY'' in
      if apiKey = []
      then Some (([], no_usage, Some (TLit ''OPENAI_API_KEY is not set; required for the openai provider'')), w)
      else let client = (apiKey, oaGetenv A ''OPENAI_BASE_URL'') in
           agent_loop (oa_turn A client cfg (toOpenAITools A tools) callTool chunkFn)
             ([SystemMsg (cfgSystemPrompt cfg), UserMsg (tkPrompt task)], no_usage) w)"

section \<open>The contract\<close>

lemma stream_chunks_text:
  "stream_chunks f cs sb u w = (sb', u', w') \<Longrightarrow> \<exists>ds. w' = fold f ds w \<and> sb' = sb @ concat ds"
proof (induction f cs sb u w arbitrary: sb' u' w' rule: stream_chunks.induct)
  case (1 f sb u w)
  then show ?case by (intro exI [of _ "[]"]) simp
next
  case (2 f c cs sb u w)
  show ?case
  proof (cases "okDeltas c")
    case Nil
    with 2 show ?thesis by (simp add: Let_def)
  next
    case (Cons delta rest)
    show ?thesis
    proof (cases "delta = []")
      case True
      with Cons 2 show ?thesis by (simp add: Let_def)
    next
      case False
      with Cons "2.prems" have "stream_chunks f cs (sb @ delta) (chunk_usage c u) (f delta w) = (sb', u', w')"
        by (simp add: Let_def)
      with "2.IH"(2) [OF refl Cons] False obtain ds
        where "w' = fold f ds (f delta w)" and "sb' = (sb @ delta) @ concat ds" by blast
      then show ?thesis by (intro exI [of _ "delta # ds"]) simp
    qed
  qed
qed

lemma oa_streaming_turn_chunks:
  assumes "oa_runStreamingTurn A k params f w = ((text, u, None), w')"
  shows "\<exists>w1 cs. w' = fold f cs w1 \<and> concat cs = text"
  using assms stream_chunks_text
  by (fastforce simp: oa_runStreamingTurn_def Let_def split: prod.splits option.splits)

lemma oa_turn_error:
  "oa_turn A k cfg tools callTool chunkFn s w = (Inl (text, usage, Some e), w') \<Longrightarrow> text = []"
  by (auto simp: oa_turn_def Let_def split: prod.splits sum.splits option.splits if_splits list.splits)

lemma oa_turn_chunks:
  "oa_turn A k cfg tools callTool (Some f) s w = (Inl (text, usage, None), w') \<Longrightarrow>
     \<exists>w1 cs. w' = fold f cs w1 \<and> concat cs = text"
  by (cases "tools = []")
     (auto simp: oa_turn_def Let_def split: prod.splits sum.splits option.splits if_splits list.splits
       dest: oa_streaming_turn_chunks intro: emit_chunks)

interpretation openai: streaming_provider "openai_RunTask A" for A
proof (unfold_locales, goal_cases)
  case (1 cfg task tools callTool chunkFn w t usage e w')
  then show ?case
    by (auto simp: openai_RunTask_def Let_def split: if_splits dest!: agent_loop_some dest: oa_turn_error)
next
  case (2 cfg task tools callTool f w t usage w')
  then show ?case
    by (auto simp: openai_RunTask_def Let_def split: if_splits dest!: agent_loop_some dest: oa_turn_chunks)
qed

end
