(* ===== verification/AgentRunner.thy ===== *)
theory AgentRunner
  imports AgentOpenAI
begin

text \<open>
  \<^verbatim>\<open>internal/agent/runner/runner.go\<close>, \<^verbatim>\<open>internal/agent/health/health.go\<close> and the task handling of
  \<^verbatim>\<open>runtime/agent/main.go\<close>: the tools of an agent, running one task with a provider, the readiness probe,
  and what becomes of a task. \<open>errText\<close> is \<open>Error()\<close> of an error.
\<close>

record 'w agent_env =
  aeHttp :: "'w http_env"
  aeRedis :: "'w redis_env"
  aePromptArg :: "string \<Rightarrow> gotext + string" \<comment> \<open>the \<open>prompt\<close> of a \<open>submit_subtask\<close> input\<close>
  aeErrText :: "gotext \<Rightarrow> string"
  aeWithTimeout :: "duration \<Rightarrow> 'w \<Rightarrow> 'w" \<comment> \<open>the deadline of the context a task runs under\<close>

record Runner =
  rnCfg :: Config
  rnManager :: "Tool list"
  rnQueue :: "Queue option"
  rnAllTools :: "Tool list"

section \<open>Tools\<close>

definition submitSubtaskTool :: string where "submitSubtaskTool = ''submit_subtask''"

definition webhook_tool :: "WebhookToolConfig \<Rightarrow> Tool" where
  "webhook_tool wt =
     \<lparr>tlName = wcName wt, tlDescription = wcDescription wt,
      tlInputSchema = (if wcInputSchema wt \<noteq> [] then wcInputSchema wt else ''{}''),
      tlServerURL = [], tlOriginalName = []\<rparr>"

definition submit_tool :: Tool where
  "submit_tool =
     \<lparr>tlName = submitSubtaskTool,
      tlDescription = ''Enqueue a new agent task for asynchronous processing. Returns the assigned task ID.'',
      tlInputSchema = ''{\"type\":\"object\",'' @
        ''\"properties\":{\"prompt\":{\"type\":\"string\",\"description\":\"The task prompt to execute\"}},'' @
        ''\"required\":[\"prompt\"]}'',
      tlServerURL = [], tlOriginalName = []\<rparr>"

definition buildTools :: "Runner \<Rightarrow> Runner" where
  "buildTools r = r\<lparr>rnAllTools := rnAllTools r @ rnManager r @ map webhook_tool (cfgWebhookTools (rnCfg r)) @
     (if rnQueue r \<noteq> None then [submit_tool] else [])\<rparr>"

definition new_runner :: "Config \<Rightarrow> Tool list \<Rightarrow> Queue option \<Rightarrow> Runner" where
  "new_runner cfg mcpManager q =
     buildTools \<lparr>rnCfg = cfg, rnManager = mcpManager, rnQueue = q, rnAllTools = []\<rparr>"

definition callWebhook :: "'w http_env \<Rightarrow> WebhookToolConfig \<Rightarrow> string \<Rightarrow> 'w \<Rightarrow> (gotext + string) \<times> 'w" where
  "callWebhook H wt input w =
     (let m = ToUpper (wcMethod wt);
          m = (if m = [] then ''POST'' else m);
          body = (if m \<noteq> ''GET'' \<and> 0 < length input then Some input else None)
      in case heNewRequest H m (wcURL wt) of
           Some err \<Rightarrow> (Inl (TFmt ''webhook tool %q: building request: %w'' [GStr (wcName wt), GText err]), w)
         | None \<Rightarrow>
             (case heDo H \<lparr>hqMethod = m, hqURL = wcURL wt, hqBody = body,
                           hqContentType = (if body \<noteq> None then Some ''application/json'' else None)\<rparr> w of
                (Inl err, w) \<Rightarrow> (Inl (TFmt ''webhook tool %q: request failed: %w'' [GStr (wcName wt), GText err]), w)
              | (Inr resp, w) \<Rightarrow>
                  (case heReadAll H resp of
                     Inl err \<Rightarrow>
                       (Inl (TFmt ''webhook tool %q: reading response: %w'' [GStr (wcName wt), GText err]), w)
                   | Inr b \<Rightarrow>
                       if hrStatus resp < 200 \<or> 300 \<le> hrStatus resp
                       then (Inl (TFmt ''webhook tool %q: server returned %d: %s''
                               [GStr (wcName wt), GInt (hrStatus resp), GStr b]), w)
                       else (Inr b, w))))"

definition call_submit :: "'w agent_env \<Rightarrow> Queue \<Rightarrow> string \<Rightarrow> 'w \<Rightarrow> (gotext + string) \<times> 'w" where
  "call_submit E q input w =
     (case aePromptArg E input of
        Inl err \<Rightarrow> (Inl (TFmt ''submit_subtask: invalid input: %w'' [GText err]), w)
      | Inr prompt \<Rightarrow>
          if TrimSpace prompt = [] then (Inl (TLit ''submit_subtask: prompt must not be empty''), w)
          else case Submit (aeRedis E) q prompt w of
                 (Inl err, w) \<Rightarrow> (Inl err, w)
               | (Inr taskID, w) \<Rightarrow> (Inr (''subtask submitted with id: '' @ taskID), w))"

fun find_webhook :: "WebhookToolConfig list \<Rightarrow> string \<Rightarrow> WebhookToolConfig option" where
  "find_webhook [] n = None"
| "find_webhook (wt # wts) n = (if wcName wt = n then Some wt else find_webhook wts n)"

definition CallTool :: "'w agent_env \<Rightarrow> Runner \<Rightarrow> 'w call_tool" where
  "CallTool E r toolName input w =
     (case (if toolName = submitSubtaskTool then rnQueue r else None) of
        Some q \<Rightarrow> call_submit E q input w
      | None \<Rightarrow>
          (case find_webhook (cfgWebhookTools (rnCfg r)) toolName of
             Some wt \<Rightarrow> callWebhook (aeHttp E) wt input w
           | None \<Rightarrow> mcp_CallTool (aeHttp E) (rnManager r) toolName input w))"

section \<open>Running a task\<close>

definition stream_key_of :: "Task \<Rightarrow> string" where
  "stream_key_of task = (case tkMeta task ''stream_key'' of None \<Rightarrow> [] | Some key \<Rightarrow> key)"

definition chunk_fn_of :: "'w agent_env \<Rightarrow> Runner \<Rightarrow> Task \<Rightarrow> 'w chunk_fn" where
  "chunk_fn_of E r task =
     (case rnQueue r of
        None \<Rightarrow> None
      | Some q \<Rightarrow>
          if stream_key_of task \<noteq> []
          then Some (\<lambda>chunk. send_all (aeRedis E) q (PublishChunk (stream_key_of task) chunk))
          else None)"

definition RunTask :: "'w agent_env \<Rightarrow> Runner \<Rightarrow> 'w provider \<Rightarrow> Task \<Rightarrow> 'w \<Rightarrow> (task_result \<times> 'w) option" where
  "RunTask E r provider task w =
     provider (rnCfg r) task (rnAllTools r) (CallTool E r) (chunk_fn_of E r task) w"

section \<open>The probe\<close>

text \<open>The status and body of \<open>GET /healthz\<close> and \<open>GET /readyz\<close>.\<close>

definition healthz :: "int \<times> gotext" where
  "healthz = (200, TLit ''ok'')"

definition readyz ::
  "'w agent_env \<Rightarrow> Runner \<Rightarrow> 'w provider \<Rightarrow> string \<Rightarrow> 'w \<Rightarrow> ((int \<times> gotext) \<times> 'w) option" where
  "readyz E r provider validatorPrompt w =
     (if validatorPrompt = [] then Some ((200, TLit ''ready''), w)
      else case RunTask E r provider \<lparr>tkID = ''health-probe'', tkPrompt = validatorPrompt, tkMeta = Map.empty\<rparr>
             (aeWithTimeout E (15 * Second) w) of
        None \<Rightarrow> None
      | Some ((result, _, err), w) \<Rightarrow>
          Some (case err of
                  Some e \<Rightarrow> (503, TFmt ''semantic check failed: %v'' [GText e])
                | None \<Rightarrow>
                    if \<not> Contains result ''HEALTHY'' then (503, TFmt ''unexpected response: %s'' [GStr result])
                    else (200, TLit ''ready''), w))"

section \<open>The runtime\<close>

text \<open>
  \<open>main\<close> up to the poll loop: the runner with its provider and queue, or the exit of the process. One MCP
  server that cannot be reached leaves the agent without any MCP tool.
\<close>

definition start_agent ::
  "'w agent_env \<Rightarrow> config_json \<Rightarrow> (string \<Rightarrow> string) \<Rightarrow> (string \<rightharpoonup> 'w provider) \<Rightarrow> 'w
     \<Rightarrow> (gotext + Runner \<times> 'w provider \<times> Queue) \<times> 'w" where
  "start_agent E J getenv registry w =
     (case Load J getenv of
        Inl err \<Rightarrow> (Inl err, w)
      | Inr cfg \<Rightarrow>
          (let (m, w) = NewManager (aeHttp E) (cfgMCPServers cfg) w;
               mcpManager = (case m of Inl _ \<Rightarrow> [] | Inr tools \<Rightarrow> tools)
           in case new_provider registry (cfgProvider cfg) of
                Inl err \<Rightarrow> (Inl err, w)
              | Inr provider \<Rightarrow>
                  (let (q, w) = new_queue (aeRedis E) getenv (cfgTaskQueueURL cfg) (cfgMaxRetries cfg) w
                   in (Inr (new_runner cfg mcpManager (Some q), provider, q), w))))"

text \<open>The commands that end a task, and the goroutine that handles one.\<close>

definition finish_cmds :: "'w agent_env \<Rightarrow> Queue \<Rightarrow> Task \<Rightarrow> task_result \<Rightarrow> redis_cmd list" where
  "finish_cmds E q t res =
     (let (result, usage, err) = res in
      (if stream_key_of t \<noteq> [] then DoneChunk (stream_key_of t) else []) @
      (case err of Some e \<Rightarrow> Nack q t (aeErrText E e) | None \<Rightarrow> Ack q (tkID t) result usage))"

definition handle_task :: "'w agent_env \<Rightarrow> Runner \<Rightarrow> 'w provider \<Rightarrow> Queue \<Rightarrow> Task \<Rightarrow> 'w \<Rightarrow> 'w option" where
  "handle_task E r provider q t w =
     (case RunTask E r provider t (aeWithTimeout E (TaskTimeout (rnCfg r)) w) of
        None \<Rightarrow> None
      | Some (res, w) \<Rightarrow> Some (send_all (aeRedis E) q (finish_cmds E q t res) w))"

text \<open>One round of the poll loop: the task to hand to a goroutine, if there is one.\<close>

definition poll_round :: "'w agent_env \<Rightarrow> Queue \<Rightarrow> 'w \<Rightarrow> Task option \<times> 'w" where
  "poll_round E q w =
     (case Poll (aeRedis E) q w of
        (Inl _, w) \<Rightarrow> (None, w)
      | (Inr t, w) \<Rightarrow> (t, w))"

text \<open>
  The running agent: the tasks its goroutines hold, and the world. Goroutines interleave task by task,
  in any order.
\<close>

inductive agent_step ::
  "'w agent_env \<Rightarrow> Runner \<Rightarrow> 'w provider \<Rightarrow> Queue \<Rightarrow> Task list \<times> 'w \<Rightarrow> Task list \<times> 'w \<Rightarrow> bool"
  for E r provider q where
  polled: "poll_round E q w = (Some t, w') \<Longrightarrow> agent_step E r provider q (ts, w) (t # ts, w')"
| idle: "poll_round E q w = (None, w') \<Longrightarrow> agent_step E r provider q (ts, w) (ts, w')"
| handled: "handle_task E r provider q t w = Some w' \<Longrightarrow>
     agent_step E r provider q (us @ t # vs, w) (us @ vs, w')"

section \<open>Dispatch\<close>

lemma find_webhook_first: "find_webhook wts n = find (\<lambda>wt. wcName wt = n) wts"
  by (induction wts) auto

text \<open>
  Every tool the model is shown can be called: by its name the call reaches a handler that exists, and
  never the answer that no server has the tool.
\<close>

definition advertised :: "Runner \<Rightarrow> string set" where
  "advertised r = tlName ` set (rnAllTools r)"

lemma advertised_new_runner:
  "advertised (new_runner cfg m q) =
     tlName ` set m \<union> wcName ` set (cfgWebhookTools cfg) \<union> (if q = None then {} else {submitSubtaskTool})"
  by (auto simp: advertised_def new_runner_def buildTools_def webhook_tool_def submit_tool_def image_Un image_image)

end
