(* ===== verification/AgentStream.thy ===== *)
theory AgentStream
  imports AgentRunner
begin

text \<open>
  What a handled task leaves in Redis, read off a log of the commands sent, and what that means for the
  consumers: the trigger server, which reads the chunk list, and the flow controller, which reads the
  results stream.
\<close>

section \<open>Logging the commands\<close>

definition logged_redis :: "'w redis_env \<Rightarrow> ('w \<times> redis_cmd list) redis_env" where
  "logged_redis R =
     \<lparr>reParseURL = reParseURL R,
      reCmd = (\<lambda>a c w. let (r, w') = reCmd R a c (fst w) in (r, w', snd w @ [c])),
      reXReadGroup = (\<lambda>a g c s w. let (r, w') = reXReadGroup R a g c s (fst w) in (r, w', snd w))\<rparr>"

lemma send_logged: "snd (send (logged_redis R) a c w) = snd w @ [c]"
  by (simp add: send_def logged_redis_def Let_def split: prod.split)

lemma send_all_logged: "snd (send_all (logged_redis R) q cs w) = snd w @ cs"
proof -
  have "snd (fold (send (logged_redis R) a) cs w) = snd w @ cs" for a
    by (induction cs arbitrary: w) (simp_all add: send_logged)
  then show ?thesis by (simp add: send_all_def)
qed

lemma fold_publish_logged:
  "snd (fold (\<lambda>chunk. send_all (logged_redis R) q (PublishChunk key chunk)) cs w) = snd w @ map (RPush key) cs"
  by (induction cs arbitrary: w) (simp_all add: send_all_logged PublishChunk_def)

section \<open>A client of the provider interface\<close>

context streaming_provider
begin

text \<open>
  The log of a streamed task ends with its chunks, the end-of-stream mark, and the commands that finish
  it; on success the chunks are the result.
\<close>

lemma handled_log:
  fixes E :: "'w agent_env"
  assumes "handle_task E r run q t w = Some w'"
    and "rnQueue r = Some q" and "stream_key_of t \<noteq> []"
    and log: "\<And>cs w. lg (fold (\<lambda>chunk. send_all (aeRedis E) q (PublishChunk (stream_key_of t) chunk)) cs w)
                 = lg w @ map (RPush (stream_key_of t)) cs"
    and log_all: "\<And>cs w. lg (send_all (aeRedis E) q cs w) = (lg w :: redis_cmd list) @ cs"
  shows "\<exists>pre cs res. lg w' = pre @ map (RPush (stream_key_of t)) cs @ finish_cmds E q t res \<and>
     (snd (snd res) = None \<longrightarrow> concat cs = fst res)"
proof -
  obtain res w1 where run: "RunTask E r run t (aeWithTimeout E (TaskTimeout (rnCfg r)) w) = Some (res, w1)"
    and w': "w' = send_all (aeRedis E) q (finish_cmds E q t res) w1"
    using assms(1) by (auto simp: handle_task_def split: option.splits)
  obtain answer usage err where res: "res = (answer, usage, err)" by (metis prod_cases3)
  show ?thesis
  proof (cases err)
    case (Some e)
    with w' res show ?thesis
      by (intro exI [of _ "lg w1"] exI [of _ "[]"] exI [of _ res]) (simp add: log_all)
  next
    case None
    with run res assms(2,3) have "run (rnCfg r) t (rnAllTools r) (CallTool E r)
        (Some (\<lambda>chunk. send_all (aeRedis E) q (PublishChunk (stream_key_of t) chunk)))
        (aeWithTimeout E (TaskTimeout (rnCfg r)) w) = Some ((answer, usage, None), w1)"
      by (simp add: RunTask_def chunk_fn_of_def)
    from chunks_are_text [OF this] obtain w0 cs where "lg w1 = lg w0 @ map (RPush (stream_key_of t)) cs"
      and "concat cs = answer"
      using log by metis
    with w' res None show ?thesis
      by (intro exI [of _ "lg w0"] exI [of _ cs] exI [of _ res]) (simp add: log_all)
  qed
qed

end

section \<open>From a result to a step\<close>

lemma stored_ack_fields:
  assumes "wire_ok wire" and "qStream q = ''agent-tasks''"
  obtains vs where
    "Ack q tid result usage = [XAck (qStream q) (qGroup q) tid, XAdd resultsStream vs]"
    "any_string (rmValues (stored_msg wire mid vs) ''task_id'') = tid"
    "any_string (rmValues (stored_msg wire mid vs) ''result'') = result"
    "ToInt64 (rmValues (stored_msg wire mid vs) ''input_tokens'') = quInputTokens usage"
    "ToInt64 (rmValues (stored_msg wire mid vs) ''output_tokens'') = quOutputTokens usage"
proof (rule that)
  let ?v = "[''task_id'' \<mapsto> AStr tid, ''result'' \<mapsto> AStr result,
         ''input_tokens'' \<mapsto> AInt (quInputTokens usage), ''output_tokens'' \<mapsto> AInt (quOutputTokens usage)]"
  show "Ack q tid result usage = [XAck (qStream q) (qGroup q) tid, XAdd resultsStream ?v]"
    by (simp add: Ack_def resultsStream_def assms(2))
qed (use assms(1) in \<open>simp_all add: stored_msg_def wire_ok_def ParseInt_Itoa\<close>)

text \<open>A failed task leaves nothing in the results stream.\<close>

lemma Nack_streams:
  "XAdd s vs \<in> set (Nack q task reason) \<Longrightarrow> s = qStream q \<or> s = qStream q @ ''-dead''"
  by (auto simp: Nack_def Let_def split: if_splits)

end
