(* ===== verification/AgentWorld.thy ===== *)
theory AgentWorld
  imports AgentStream
begin

text \<open>
  What a provider does to the world. A provider acts through the call to its API, through the tools and
  through the chunk function, and through nothing else: so whatever these three keep, a task keeps.
\<close>

section \<open>Invariants of the loop\<close>

lemma agent_loop_keeps_pair:
  fixes turn :: "'s \<Rightarrow> 'w \<Rightarrow> ('r + 's) \<times> 'w"
  assumes "agent_loop turn s w = Some y" and "I w" and "\<And>s w. I w \<Longrightarrow> I (snd (turn s w))"
  shows "I (snd y)"
proof -
  let ?P = "\<lambda>turn s w y. I w \<longrightarrow> (\<forall>s w. I w \<longrightarrow> I (snd (turn s w))) \<longrightarrow> I (snd y)"
  have "?P turn s w y"
  proof (rule agent_loop.raw_induct [where P = ?P, OF _ assms(1)], intro impI)
    fix loop :: "('s \<Rightarrow> 'w \<Rightarrow> ('r + 's) \<times> 'w) \<Rightarrow> 's \<Rightarrow> 'w \<Rightarrow> ('r \<times> 'w) option"
      and turn :: "'s \<Rightarrow> 'w \<Rightarrow> ('r + 's) \<times> 'w" and s w y
    assume IH: "\<And>turn s w y. loop turn s w = Some y \<Longrightarrow>
        I w \<longrightarrow> (\<forall>s w. I w \<longrightarrow> I (snd (turn s w))) \<longrightarrow> I (snd y)"
      and round: "(case turn s w of (Inl r, w) \<Rightarrow> Some (r, w) | (Inr s, w) \<Rightarrow> loop turn s w) = Some y"
      and inv: "I w" and turns: "\<forall>s w. I w \<longrightarrow> I (snd (turn s w))"
    obtain a w1 where pair: "turn s w = (a, w1)" by (metis surj_pair)
    with inv turns have w1: "I w1" by (metis snd_conv)
    show "I (snd y)"
    proof (cases a)
      case (Inl r)
      with pair round w1 show ?thesis by auto
    next
      case (Inr s')
      with pair round have "loop turn s' w1 = Some y" by simp
      from IH [OF this] w1 turns show ?thesis by blast
    qed
  qed
  with assms(2,3) show ?thesis by blast
qed

lemma agent_loop_keeps:
  assumes "agent_loop turn s w = Some (r, w')" and "I w" and "\<And>s w. I w \<Longrightarrow> I (snd (turn s w))"
  shows "I w'"
  using agent_loop_keeps_pair [of turn s w "(r, w')" I] assms by (simp only: snd_conv)

lemma fold_keeps: "I w \<Longrightarrow> (\<And>x w. I w \<Longrightarrow> I (f x w)) \<Longrightarrow> I (fold f xs w)"
  by (induction xs arbitrary: w) auto

section \<open>The interface\<close>

text \<open>\<open>own w w'\<close>: a call of the provider's API may take the world from \<open>w\<close> to \<open>w'\<close>.\<close>

locale sealed_provider =
  fixes run :: "'w provider" and own :: "'w \<Rightarrow> 'w \<Rightarrow> bool"
  assumes keeps: "run cfg task tools callTool chunkFn w = Some (res, w') \<Longrightarrow> I w \<Longrightarrow>
     (\<And>w w'. own w w' \<Longrightarrow> I w \<Longrightarrow> I w') \<Longrightarrow> (\<And>n i w. I w \<Longrightarrow> I (snd (callTool n i w))) \<Longrightarrow>
     (\<And>f c w. chunkFn = Some f \<Longrightarrow> I w \<Longrightarrow> I (f c w)) \<Longrightarrow> I w'"
begin

text \<open>A handled task: a run that keeps the invariant, and then the commands that finish it.\<close>

lemma handled:
  assumes "handle_task E r run q t w = Some w'" and "I w"
    and "\<And>w w'. own w w' \<Longrightarrow> I w \<Longrightarrow> I w'" and "\<And>n i w. I w \<Longrightarrow> I (snd (CallTool E r n i w))"
    and "\<And>d w. I w \<Longrightarrow> I (aeWithTimeout E d w)"
    and "\<And>q' c k w. rnQueue r = Some q' \<Longrightarrow> I w \<Longrightarrow> I (send_all (aeRedis E) q' (PublishChunk k c) w)"
  obtains res w0 w1 where "RunTask E r run t w0 = Some (res, w1)" and "I w1"
    and "w' = send_all (aeRedis E) q (finish_cmds E q t res) w1"
proof -
  let ?w0 = "aeWithTimeout E (TaskTimeout (rnCfg r)) w"
  obtain res w1 where run: "RunTask E r run t ?w0 = Some (res, w1)"
    and w': "w' = send_all (aeRedis E) q (finish_cmds E q t res) w1"
    using assms(1) by (auto simp: handle_task_def split: option.splits)
  have "I (f c w)" if "chunk_fn_of E r t = Some f" and "I w" for f c w
    using that assms(6) by (auto simp: chunk_fn_of_def split: option.splits if_splits)
  from keeps [OF run [unfolded RunTask_def], of I] assms(2-5) this have "I w1" by (simp only:)
  from that [OF run this w'] show thesis .
qed

end

section \<open>The providers\<close>

lemma snd_case_prod: "snd (case x of (a, w) \<Rightarrow> f a w) = (case x of (a, w) \<Rightarrow> snd (f a w))"
  by (simp add: split_beta)

lemma executeTools_keeps:
  assumes "\<And>n i w. I w \<Longrightarrow> I (snd (callTool n i w))"
  shows "I w \<Longrightarrow> I (snd (executeTools content callTool w))"
proof (induction content arbitrary: w)
  case Nil
  then show ?case by simp
next
  case (Cons block content)
  have "I (snd (callTool (abName block) (abInput block) w))" using assms Cons.prems .
  with Cons show ?case by (auto simp: Let_def snd_case_prod split: prod.splits sum.splits) (metis snd_conv)+
qed

lemma stream_events_keeps:
  "I w \<Longrightarrow> (\<And>c w. I w \<Longrightarrow> I (f c w)) \<Longrightarrow> stream_events f es sb u w = (sb', u', w') \<Longrightarrow> I w'"
  using stream_events_chunks fold_keeps by metis

definition an_own :: "'w anthropic_env \<Rightarrow> 'w \<Rightarrow> 'w \<Rightarrow> bool" where
  "an_own A w w' \<longleftrightarrow> (\<exists>k p. w' = snd (anNew A k p w) \<or> w' = snd (anStream A k p w))"

lemma an_turn_keeps:
  assumes "I w" and own: "\<And>w w'. an_own A w w' \<Longrightarrow> I w \<Longrightarrow> I w'"
    and tool: "\<And>n i w. I w \<Longrightarrow> I (snd (callTool n i w))"
    and chunk: "\<And>f c w. chunkFn = Some f \<Longrightarrow> I w \<Longrightarrow> I (f c w)"
  shows "I (snd (an_turn A k cfg tools callTool chunkFn s w))"
proof (cases "if tools = [] then chunkFn else None")
  case (Some f)
  then have f: "chunkFn = Some f" by (simp split: if_splits)
  let ?p = "an_params cfg tools (fst s)"
  obtain events err w1 where st: "anStream A k ?p w = ((events, err), w1)" by (metis surj_pair)
  obtain sb u w2 where ev: "stream_events f events [] no_usage w1 = (sb, u, w2)" by (metis prod_cases3)
  have "I w1" using own [OF _ assms(1)] st unfolding an_own_def by (metis snd_conv)
  from stream_events_keeps [of I, OF this _ ev] chunk f have "I w2" by blast
  with Some st ev show ?thesis
    by (auto simp: an_turn_def runStreamingTurn_def Let_def split_beta split: option.splits)
next
  case None
  let ?p = "an_params cfg tools (fst s)"
  obtain resp w1 where st: "anNew A k ?p w = (resp, w1)" by (metis surj_pair)
  have w1: "I w1" using own [OF _ assms(1)] st unfolding an_own_def by (metis snd_conv)
  note ex = executeTools_keeps [of I, OF tool w1]
  have em: "I w \<Longrightarrow> I (emit chunkFn sb w)" for sb w
    using chunk by (cases chunkFn) (simp_all add: emit_def)
  show ?thesis
    using None st w1 ex em
    by (auto simp: an_turn_def Let_def split_beta split: sum.splits)
qed

interpretation anthropic: sealed_provider "anthropic_RunTask A" "an_own A" for A
proof (unfold_locales, goal_cases)
  case (1 cfg task tools callTool chunkFn w res w' I)
  show ?case
  proof (cases "anGetenv A ''ANTHROPIC_API_KEY'' = []")
    case True
    with 1(1,2) show ?thesis by (simp add: anthropic_RunTask_def)
  next
    case False
    with 1(1) have *: "agent_loop (an_turn A (anGetenv A ''ANTHROPIC_API_KEY'') cfg (toAnthropicTools A tools) callTool chunkFn)
        ([UserMessage [PText (tkPrompt task)]], no_usage) w = Some (res, w')"
      by (simp add: anthropic_RunTask_def Let_def)
    show ?thesis
    proof (rule agent_loop_keeps [of _ _ _ _ _ I, OF *])
      show "I (snd (an_turn A (anGetenv A ''ANTHROPIC_API_KEY'') cfg (toAnthropicTools A tools) callTool chunkFn s w))"
        if "I w" for s w
        using that 1(3-5) by (intro an_turn_keeps [of I]) auto
    qed (rule 1(2))
  qed
qed

lemma run_tool_calls_keeps:
  assumes "\<And>n i w. I w \<Longrightarrow> I (snd (callTool n i w))"
  shows "I w \<Longrightarrow> I (snd (run_tool_calls tcs callTool messages w))"
proof (induction tcs arbitrary: w messages)
  case Nil
  then show ?case by simp
next
  case (Cons tc tcs)
  have "I (snd (callTool (ocName tc) (ocArguments tc) w))" using assms Cons.prems .
  with Cons.IH show ?case by (auto split: prod.splits sum.splits)
qed

lemma stream_chunks_keeps:
  "I w \<Longrightarrow> (\<And>c w. I w \<Longrightarrow> I (f c w)) \<Longrightarrow> stream_chunks f cs sb u w = (sb', u', w') \<Longrightarrow> I w'"
  using stream_chunks_text fold_keeps by metis

definition oa_own :: "'w openai_env \<Rightarrow> 'w \<Rightarrow> 'w \<Rightarrow> bool" where
  "oa_own A w w' \<longleftrightarrow> (\<exists>k p. w' = snd (oaNew A k p w) \<or> w' = snd (oaStream A k p w))"

lemma oa_turn_keeps:
  assumes "I w" and own: "\<And>w w'. oa_own A w w' \<Longrightarrow> I w \<Longrightarrow> I w'"
    and tool: "\<And>n i w. I w \<Longrightarrow> I (snd (callTool n i w))"
    and chunk: "\<And>f c w. chunkFn = Some f \<Longrightarrow> I w \<Longrightarrow> I (f c w)"
  shows "I (snd (oa_turn A k cfg tools callTool chunkFn s w))"
proof (cases "if tools = [] then chunkFn else None")
  case (Some f)
  then have f: "chunkFn = Some f" by (simp split: if_splits)
  let ?p = "oa_params cfg tools (fst s)"
  obtain events err w1 where st: "oaStream A k ?p w = ((events, err), w1)" by (metis surj_pair)
  obtain sb u w2 where ev: "stream_chunks f events [] no_usage w1 = (sb, u, w2)" by (metis prod_cases3)
  have "I w1" using own [OF _ assms(1)] st unfolding oa_own_def by (metis snd_conv)
  from stream_chunks_keeps [of I, OF this _ ev] chunk f have "I w2" by blast
  with Some st ev show ?thesis
    by (auto simp: oa_turn_def oa_runStreamingTurn_def Let_def split_beta split: option.splits)
next
  case None
  let ?p = "oa_params cfg tools (fst s)"
  obtain resp w1 where st: "oaNew A k ?p w = (resp, w1)" by (metis surj_pair)
  have w1: "I w1" using own [OF _ assms(1)] st unfolding oa_own_def by (metis snd_conv)
  note ex = run_tool_calls_keeps [of I, OF tool w1]
  have em: "I w \<Longrightarrow> I (emit chunkFn sb w)" for sb w
    using chunk by (cases chunkFn) (simp_all add: emit_def)
  show ?thesis
    using None st w1 ex em
    by (auto simp: oa_turn_def Let_def split_beta split: sum.splits list.splits)
qed

interpretation openai: sealed_provider "openai_RunTask A" "oa_own A" for A
proof (unfold_locales, goal_cases)
  case (1 cfg task tools callTool chunkFn w res w' I)
  let ?key = "oaGetenv A ''OPENAI_API_KEY''"
  let ?turn = "oa_turn A (?key, oaGetenv A ''OPENAI_BASE_URL'') cfg (toOpenAITools A tools) callTool chunkFn"
  show ?case
  proof (cases "?key = []")
    case True
    with 1(1,2) show ?thesis by (simp add: openai_RunTask_def)
  next
    case False
    with 1(1) have *: "agent_loop ?turn ([SystemMsg (cfgSystemPrompt cfg), UserMsg (tkPrompt task)], no_usage) w
        = Some (res, w')"
      by (simp add: openai_RunTask_def Let_def)
    show ?thesis
    proof (rule agent_loop_keeps [of _ _ _ _ _ I, OF *])
      show "I (snd (?turn s w))" if "I w" for s w
        using that 1(3-5) by (intro oa_turn_keeps [of I]) auto
    qed (rule 1(2))
  qed
qed

lemma emit_words_keeps: "I w \<Longrightarrow> (\<And>c w. I w \<Longrightarrow> I (f c w)) \<Longrightarrow> I (emit_words f first xs w)"
  by (induction f first xs w rule: emit_words.induct) auto

interpretation mock: sealed_provider "mock_RunTask lower sleep p" "\<lambda>w w'. \<exists>d. w' = snd (sleep d w)" for lower sleep p
proof (unfold_locales, goal_cases)
  case (1 cfg task tools callTool chunkFn w res w' I)
  obtain c w1 where s: "(if 0 < sint (mkDelay p) then sleep (mkDelay p) w else (None, w)) = (c, w1)" by (metis surj_pair)
  have "I w1" using 1(3) [OF _ 1(2)] 1(2) s by (metis snd_conv)
  moreover have "I (emit_words f True xs w1)" if "chunkFn = Some f" for f xs
    using calculation 1(5) [OF that] by (rule emit_words_keeps)
  ultimately show ?case using 1(1) s by (auto simp: mock_RunTask_def Let_def split: option.splits)
qed

end
