(* ===== verification/FlowSafety.thy ===== *)
theory FlowSafety
  imports FlowController
begin

text \<open>
  The flow controller keeps the contract of \<open>StepLife\<close>: collecting results and submitting tasks move
  step statuses along the lifecycle only, write only through \<open>statusByName\<close> and keep every entry
  well-formed; so does the pass of \<open>Reconcile\<close> that composes them.
\<close>

section \<open>Single writes\<close>

lemma record_result_name [simp]: "stName (record_result msg now st) = stName st"
  by (simp add: record_result_def Let_def)

lemma record_result_phase [simp]: "stPhase (record_result msg now st) = StepSucceeded"
  by (simp add: record_result_def Let_def)

lemma record_result_life:
  "stPhase st = StepRunning \<or> stPhase st = StepSucceeded \<Longrightarrow>
     (life_step lim)\<^sup>*\<^sup>* (life_of st) (life_of (record_result msg now st))"
proof -
  assume "stPhase st = StepRunning \<or> stPhase st = StepSucceeded"
  moreover have "life_of (record_result msg now st) = (StepSucceeded, sint (stIterations st))"
    by (simp add: record_result_def life_of_def Let_def)
  ultimately show ?thesis by (elim disjE) (simp_all only: life_of_def [of st], auto intro!: r_into_rtranclp life_step.succeed)
qed

lemma record_result_ok:
  "stPhase st = StepRunning \<or> stPhase st = StepSucceeded \<Longrightarrow> st_ok E st \<Longrightarrow> st_ok E (record_result msg now st)"
  by (auto simp: record_result_def st_ok_def Let_def)

lemmas mark_defs = mark_skipped_def mark_input_error_def mark_submitted_def

lemma mark_names [simp]:
  "stName (mark_skipped now st) = stName st" "stName (mark_input_error now e st) = stName st"
  "stName (mark_submitted now tid st) = stName st"
  by (simp_all add: mark_defs)

lemma mark_phases [simp]:
  "stPhase (mark_skipped now st) = StepSkipped" "stPhase (mark_input_error now e st) = StepFailed"
  "stPhase (mark_submitted now tid st) = StepRunning"
  by (simp_all add: mark_defs)

lemma mark_life:
  assumes "stPhase st = StepPending"
  shows "(life_step lim)\<^sup>*\<^sup>* (life_of st) (life_of (mark_skipped now st))"
    and "(life_step lim)\<^sup>*\<^sup>* (life_of st) (life_of (mark_input_error now e st))"
    and "(life_step lim)\<^sup>*\<^sup>* (life_of st) (life_of (mark_submitted now tid st))"
  using assms by (auto simp: mark_defs life_of_def intro!: r_into_rtranclp life_step.intros)

lemma mark_ok:
  "st_ok E st \<Longrightarrow> st_ok E (mark_skipped now st)"
  "st_ok E st \<Longrightarrow> st_ok E (mark_input_error now e st)"
  "st_ok E st \<Longrightarrow> st_ok E (mark_submitted now tid st)"
  by (auto simp: mark_defs st_ok_def)

section \<open>Collecting results\<close>

definition collectable :: "(string \<rightharpoonup> nat) \<Rightarrow> (string \<times> nat) list \<Rightarrow> ArkFlowStepStatus list \<Rightarrow> bool" where
  "collectable m waiting sts \<longleftrightarrow> (\<forall>(tid, i) \<in> set waiting. i < length sts \<and> m (stName (sts ! i)) = Some i \<and>
     (stPhase (sts ! i) = StepRunning \<or> stPhase (sts ! i) = StepSucceeded))"

lemma collectable_update:
  "collectable m waiting sts \<Longrightarrow> collectable m waiting (update_at i (record_result msg now) sts)"
  by (auto simp: collectable_def nth_update_at split: prod.splits)

lemma collectable_lookup:
  "collectable m waiting sts \<Longrightarrow> map_of waiting tid = Some i \<Longrightarrow>
     i < length sts \<and> m (stName (sts ! i)) = Some i \<and>
     (stPhase (sts ! i) = StepRunning \<or> stPhase (sts ! i) = StepSucceeded)"
  by (auto simp: collectable_def dest!: map_of_SomeD)

lemma collect_msgs_rel:
  "collectable m waiting sts \<Longrightarrow> status_rel E m lim sts (fst (collect_msgs F waiting msgs sts w))"
proof (induction F waiting msgs sts w rule: collect_msgs.induct)
  case (1 F waiting sts w)
  show ?case by simp
next
  case (2 F waiting msg msgs sts w)
  show ?case
  proof (cases "map_of waiting (any_string (rmValues msg ''task_id''))")
    case None
    with 2 show ?thesis by simp
  next
    case (Some i)
    obtain now w1 where now: "feNow F w = (now, w1)" by fastforce
    let ?sts = "update_at i (record_result msg now) sts"
    have "status_rel E m lim sts ?sts"
      using collectable_lookup [OF "2.prems" Some]
      by (intro status_rel_update_at) (auto intro: record_result_life record_result_ok)
    also have "status_rel E m lim ?sts (fst (collect_msgs F waiting msgs ?sts w1))"
      using "2.IH"(2) [OF Some now [symmetric] refl] collectable_update [OF "2.prems"] by simp
    finally show ?thesis using Some now by simp
  qed
qed

lemma waiting_collectable:
  assumes "range_ok E"
  shows "collectable m (waiting_tasks E m sts) sts"
  using assms
  by (auto simp: collectable_def waiting_tasks_def is_waiting_def range_ok_nat set_status_entries)

lemma collectResults_rel:
  assumes "range_ok E" and "collectResults E F rdb m sts w = (Inr sts', w')"
  shows "status_rel E m lim sts sts'"
proof -
  have "status_rel E m lim sts sts'"
    if "collect_msgs F (waiting_tasks E m sts) msgs sts w = (sts', w')" for msgs
    using collect_msgs_rel [OF waiting_collectable [OF assms(1)], of E m lim sts F msgs w] that by simp
  with assms(2) show ?thesis
    by (auto simp: collectResults_def Let_def split: if_splits sum.splits redis_error.splits prod.splits)
qed

section \<open>Submitting\<close>

lemma submit_step_rel:
  assumes "status_index m names" and "map stName sts = names"
    and "submit_step E F rdb f m data step sts w = (err, sts', w')"
  shows "status_rel E m lim sts sts'"
proof (cases "m (sName step)")
  case None
  with assms(3) show ?thesis by (simp add: submit_step_def)
next
  case (Some i)
  from status_index.pointer [OF assms(1) Some assms(2)] show ?thesis
    using assms(3) Some
    by (auto simp: submit_step_def Let_def intro!: status_rel_update_at mark_life mark_ok
        split: if_splits sum.splits prod.splits)
qed

lemma submit_steps_rel:
  assumes "status_index m names"
  shows "map stName sts = names \<Longrightarrow> submit_steps E F rdb f m data steps sts w = (err, sts', w') \<Longrightarrow>
     status_rel E m lim sts sts'"
proof (induction steps arbitrary: sts w)
  case Nil
  then show ?case by simp
next
  case (Cons step steps)
  obtain e1 sts1 w1 where one: "submit_step E F rdb f m data step sts w = (e1, sts1, w1)"
    by (metis prod_cases3)
  note rel = submit_step_rel [OF assms Cons.prems(1) one, of lim]
  with Cons.prems(1) have "map stName sts1 = names" by (simp add: status_rel_names)
  with Cons one rel show ?case by (auto split: option.splits intro: status_rel_trans)
qed

section \<open>The pass\<close>

lemma initialize_shape:
  assumes "initialize E F f w = (f0, w0)"
  shows "flMeta f0 = flMeta f" "flSpec f0 = flSpec f" "fPhase (flStatus f0) \<noteq> FlowEmpty"
    "fPhase (flStatus f) \<noteq> FlowEmpty \<Longrightarrow> f0 = f \<and> w0 = w"
    "fPhase (flStatus f) = FlowEmpty \<Longrightarrow> fSteps (flStatus f0) = map pending_status (fsSteps (flSpec f))"
  using assms
  by (auto simp: initialize_def InitializeSteps_def SetCondition_frame split: prod.splits if_splits)

lemma with_steps_shape:
  "map stName sts = map stName (fSteps (flStatus f)) \<Longrightarrow> same_shape f (f\<lparr>flStatus := (flStatus f)\<lparr>fSteps := sts\<rparr>\<rparr>)"
  by (simp add: same_shape_def)

lemma observe_frame [shape_simps]:
  "flMeta (observe f) = flMeta f" "flSpec (observe f) = flSpec f"
  "fSteps (flStatus (observe f)) = fSteps (flStatus f)" "fPhase (flStatus (observe f)) = fPhase (flStatus f)"
  by (simp_all add: observe_def)

lemma submitPendingSteps_rel:
  assumes "m = BuildStatusByName f" and "submitPendingSteps E F rdb f m data w = (err, f', w')"
  shows "same_shape f f' \<and> status_rel E m lim (fSteps (flStatus f)) (fSteps (flStatus f'))"
proof -
  from assms(2) obtain sts where
    sts: "submit_steps E F rdb f m data (fsSteps (flSpec f)) (fSteps (flStatus f)) w = (err, sts, w')"
    and f': "f' = f\<lparr>flStatus := (flStatus f)\<lparr>fSteps := sts\<rparr>\<rparr>"
    by (auto simp: submitPendingSteps_def split: prod.splits)
  have "status_rel E m lim (fSteps (flStatus f)) sts"
    using submit_steps_rel [OF _ refl sts] by_name.status_index_axioms assms(1) by blast
  with f' show ?thesis by (simp add: same_shape_def status_rel_names)
qed

text \<open>
  The pass in stages: the flow after initialisation, after collecting, after the flow package's
  operations and after submitting, and the flow that is stored.
\<close>

definition loop_stage :: "ext \<Rightarrow> (string \<rightharpoonup> nat) \<Rightarrow> ArkFlow \<Rightarrow> ArkFlow" where
  "loop_stage E m f =
     (let f = ParseOutputJSON E f m in EvaluateLoops E f m (BuildTemplateData E f m))"

lemma run_flow_stages:
  assumes "run_flow E F rdb f w = (Inr g, w')" and "initialize E F f w = (f0, w0)"
  obtains sts w1 f2 now w2 data where
    "collectResults E F rdb (BuildStatusByName f0) (fSteps (flStatus f0)) w0 = (Inr sts, w1)"
    "data = BuildTemplateData E (ParseOutputJSON E (f0\<lparr>flStatus := (flStatus f0)\<lparr>fSteps := sts\<rparr>\<rparr>)
              (BuildStatusByName f0)) (BuildStatusByName f0)"
    "submitPendingSteps E F rdb
       (loop_stage E (BuildStatusByName f0) (f0\<lparr>flStatus := (flStatus f0)\<lparr>fSteps := sts\<rparr>\<rparr>))
       (BuildStatusByName f0) data w1 = (None, f2, w2)"
    "feNow F w2 = (now, w')"
    "g = observe (UpdateFlowPhase E f2 data now)"
  using assms
  by (auto simp: run_flow_def loop_stage_def Let_def split: prod.splits sum.splits option.splits)

lemma loop_stage_rel:
  assumes "range_ok E" and "m = BuildStatusByName f"
  shows "same_shape f (loop_stage E m f) \<and>
     status_rel E m (name_limit (fsSteps (flSpec f))) (fSteps (flStatus f)) (fSteps (flStatus (loop_stage E m f)))"
proof -
  let ?p = "ParseOutputJSON E f m" and ?lim = "name_limit (fsSteps (flSpec f))"
  have p: "same_shape f ?p" by (rule same_shape_ParseOutputJSON)
  have "status_index m (map stName (fSteps (flStatus f)))"
    unfolding assms(2) by (rule by_name.status_index_axioms)
  with p have "status_index m (map stName (fSteps (flStatus ?p)))" by (simp add: same_shape_def)
  from EvaluateLoops_rel [OF this, of E "BuildTemplateData E ?p m"]
  have "status_rel E m ?lim (fSteps (flStatus ?p)) (fSteps (flStatus (loop_stage E m f)))"
    by (simp add: loop_stage_def Let_def ParseOutputJSON_frame)
  moreover have "same_shape ?p (loop_stage E m f)"
    by (simp add: loop_stage_def Let_def same_shape_EvaluateLoops)
  ultimately show ?thesis
    using p ParseOutputJSON_rel [OF assms(1)] by (blast intro: same_shape_trans status_rel_trans)
qed

lemma run_flow_rel:
  assumes "range_ok E" and "run_flow E F rdb f w = (Inr g, w')" and "initialize E F f w = (f0, w0)"
  shows "same_shape f0 g \<and>
     status_rel E (BuildStatusByName f0) (name_limit (fsSteps (flSpec f0))) (fSteps (flStatus f0)) (fSteps (flStatus g))"
proof -
  let ?m = "BuildStatusByName f0" and ?lim = "name_limit (fsSteps (flSpec f0))"
  from run_flow_stages [OF assms(2,3)] obtain sts w1 f2 now w2 data where
    col: "collectResults E F rdb ?m (fSteps (flStatus f0)) w0 = (Inr sts, w1)" and
    sub: "submitPendingSteps E F rdb (loop_stage E ?m (f0\<lparr>flStatus := (flStatus f0)\<lparr>fSteps := sts\<rparr>\<rparr>)) ?m data w1
            = (None, f2, w2)" and
    g: "g = observe (UpdateFlowPhase E f2 data now)"
    .
  let ?f1 = "f0\<lparr>flStatus := (flStatus f0)\<lparr>fSteps := sts\<rparr>\<rparr>"
  have r1: "status_rel E ?m ?lim (fSteps (flStatus f0)) sts" by (rule collectResults_rel [OF assms(1) col])
  then have s1: "same_shape f0 ?f1" by (simp add: with_steps_shape status_rel_names)
  have m1: "?m = BuildStatusByName ?f1" by (rule same_shape_index [OF s1, symmetric])
  note l = loop_stage_rel [OF assms(1) m1]
  have m2: "?m = BuildStatusByName (loop_stage E ?m ?f1)"
    using m1 same_shape_index [of ?f1 "loop_stage E ?m ?f1"] l by simp
  note s = submitPendingSteps_rel [OF m2 sub, of ?lim]
  have f1: "fSteps (flStatus ?f1) = sts" "flSpec ?f1 = flSpec f0" by simp_all
  have "status_rel E ?m ?lim (fSteps (flStatus f0)) (fSteps (flStatus f2))"
    using r1 l s unfolding f1 by (blast intro: status_rel_trans)
  moreover have "same_shape f0 f2" using s1 l s by (blast intro: same_shape_trans)
  ultimately show ?thesis
    by (simp add: g same_shape_def observe_frame UpdateFlowPhase_frame)
qed

lemma run_flow_phase:
  assumes "run_flow E F rdb f w = (Inr g, w')" and "initialize E F f w = (f0, w0)"
  shows "\<exists>f2 now. fPhase (flStatus g) = verdict_phase (fPhase (flStatus f0)) (flow_verdict f2 now) \<and>
     fSteps (flStatus f2) = fSteps (flStatus g)"
proof -
  let ?m = "BuildStatusByName f0"
  from run_flow_stages [OF assms] obtain sts w1 f2 now w2 data where
    sub: "submitPendingSteps E F rdb (loop_stage E ?m (f0\<lparr>flStatus := (flStatus f0)\<lparr>fSteps := sts\<rparr>\<rparr>)) ?m data w1
            = (None, f2, w2)" and
    g: "g = observe (UpdateFlowPhase E f2 data now)" .
  from sub have "fPhase (flStatus f2) = fPhase (flStatus f0)"
    by (auto simp: submitPendingSteps_def loop_stage_def Let_def EvaluateLoops_frame ParseOutputJSON_frame
        split: prod.splits)
  then show ?thesis
    by (auto simp: g observe_frame UpdateFlowPhase_phase UpdateFlowPhase_frame intro!: exI [of _ f2])
qed

end
