(* ===== verification/FlowProgress.thy ===== *)
theory FlowProgress
  imports FlowSafety
begin

text \<open>
  Progress of a flow: a pass that leaves a flow running has a task in flight, or has moved some step
  along its lifecycle, and the moves are bounded by the flow's rank. So no flow with a valid graph
  waits for nothing.
\<close>

section \<open>Ready steps\<close>

definition ready :: "(string \<rightharpoonup> nat) \<Rightarrow> ArkFlowStepStatus list \<Rightarrow> ArkFlowStep \<Rightarrow> bool" where
  "ready m sts step \<longleftrightarrow> (case m (sName step) of None \<Rightarrow> False
     | Some i \<Rightarrow> stPhase (sts ! i) = StepPending \<and> DepsSucceeded (sDependsOn step) m sts)"

lemma submit_step_idle:
  "\<not> ready m sts step \<Longrightarrow> submit_step E F rdb f m data step sts w = (None, sts, w)"
  by (auto simp: submit_step_def ready_def split: option.splits)

lemma rank_update_at:
  assumes "i < length sts" and "stName (g (sts ! i)) = stName (sts ! i)"
    and "stPhase (sts ! i) = StepPending" and "stPhase (g (sts ! i)) \<noteq> StepPending"
    and "(life_step (lim (stName (sts ! i))))\<^sup>*\<^sup>* (life_of (sts ! i)) (life_of (g (sts ! i)))"
  shows "flow_rank lim (update_at i g sts) < flow_rank lim sts"
proof (rule life_refines_rank_strict [where i = i])
  show "life_refines lim sts (update_at i g sts)" using assms by (intro life_refines_update_at) auto
  show "life_of (update_at i g sts ! i) \<noteq> life_of (sts ! i)" using assms by (simp add: life_of_def)
qed (rule assms(1))

lemma submit_step_ready:
  assumes "status_index m names" and "map stName sts = names" and "ready m sts step"
    and "submit_step E F rdb f m data step sts w = (None, sts', w')"
  shows "flow_rank lim sts' < flow_rank lim sts"
proof -
  from assms(3) obtain i where i: "m (sName step) = Some i" and p: "stPhase (sts ! i) = StepPending"
    by (auto simp: ready_def split: option.splits)
  note ptr = status_index.pointer [OF assms(1) i assms(2)]
  have "flow_rank lim (update_at i g sts) < flow_rank lim sts"
    if "g = mark_skipped now \<or> g = mark_input_error now e \<or> g = mark_submitted now tid" for g now e tid
    using that ptr p by (intro rank_update_at) (auto intro: mark_life)
  with assms(3,4) i show ?thesis
    by (auto simp: submit_step_def ready_def Let_def split: if_splits sum.splits prod.splits)
qed

lemma submit_steps_progress:
  assumes "status_index m names"
  shows "map stName sts = names \<Longrightarrow> submit_steps E F rdb f m data steps sts w = (None, sts', w') \<Longrightarrow>
     flow_rank lim sts' < flow_rank lim sts \<or> sts' = sts \<and> (\<forall>s \<in> set steps. \<not> ready m sts s)"
proof (induction steps arbitrary: sts w)
  case Nil
  then show ?case by simp
next
  case (Cons step steps)
  obtain sts1 w1 where one: "submit_step E F rdb f m data step sts w = (None, sts1, w1)"
    and rest: "submit_steps E F rdb f m data steps sts1 w1 = (None, sts', w')"
    using Cons.prems(2) by (auto split: prod.splits option.splits)
  have names: "map stName sts1 = names"
    using status_rel_names [OF submit_step_rel [OF assms Cons.prems(1) one, where lim = lim]] Cons.prems(1) by simp
  show ?case
  proof (cases "ready m sts step")
    case True
    have "flow_rank lim sts' \<le> flow_rank lim sts1"
      using submit_steps_rel [OF assms names rest] by (auto simp: status_rel_def intro: life_refines_rank)
    with submit_step_ready [OF assms Cons.prems(1) True one, of lim] show ?thesis by simp
  next
    case False
    with one have "sts1 = sts" by (simp add: submit_step_idle)
    with Cons.IH [OF names rest] False show ?thesis by simp
  qed
qed

section \<open>Some pending step is ready\<close>

text \<open>The entries are those of the steps, in their order, and no two steps share a name.\<close>

definition entries_match :: "ArkFlow \<Rightarrow> bool" where
  "entries_match f \<longleftrightarrow> map stName (fSteps (flStatus f)) = map sName (fsSteps (flSpec f)) \<and>
     distinct (map sName (fsSteps (flSpec f)))"

definition in_flight :: "ArkFlowStepStatus \<Rightarrow> bool" where
  "in_flight st \<longleftrightarrow> stPhase st = StepRunning"

lemma entries_match_shape: "same_shape f g \<Longrightarrow> entries_match f \<Longrightarrow> entries_match g"
  by (simp add: entries_match_def same_shape_def)

lemma finite_flow_graph: "finite (flow_graph f)"
proof (rule finite_subset)
  show "flow_graph f \<subseteq> (\<Union>s \<in> set (fsSteps (flSpec f)). {sName s} \<times> set (sDependsOn s))"
    by (auto simp: flow_graph_def dest!: edges_flow_adj_names)
qed simp

lemma flow_graph_edge:
  "entries_match f \<Longrightarrow> s \<in> set (fsSteps (flSpec f)) \<Longrightarrow> d \<in> set (sDependsOn s) \<Longrightarrow> (sName s, d) \<in> flow_graph f"
  by (auto simp: entries_match_def flow_graph_def edges_flow_adj_distinct)

lemma ready_step_exists:
  assumes match: "entries_match f" and known: "deps_known f" and acyc: "acyclic (flow_graph f)"
    and idle: "\<not> list_ex in_flight (fSteps (flStatus f))" and ok: "\<not> list_ex step_failed (fSteps (flStatus f))"
    and todo: "\<not> list_all step_done (fSteps (flStatus f))"
  shows "\<exists>s \<in> set (fsSteps (flSpec f)). ready (BuildStatusByName f) (fSteps (flStatus f)) s"
proof -
  let ?sts = "fSteps (flStatus f)" and ?steps = "fsSteps (flSpec f)" and ?m = "BuildStatusByName f"
  define pend where "pend n \<longleftrightarrow> (\<exists>i < length ?sts. stName (?sts ! i) = n \<and> stPhase (?sts ! i) = StepPending)" for n
  have phases: "step_done st \<or> stPhase st = StepPending" if "st \<in> set ?sts" for st
    using that idle ok by (cases "stPhase st") (auto simp: list_ex_iff in_flight_def step_failed_def step_done_def)
  from todo obtain i0 where "i0 < length ?sts" and "\<not> step_done (?sts ! i0)"
    by (auto simp: list_all_length)
  with phases [of "?sts ! i0"] obtain n0 where "pend n0" by (auto simp: pend_def)
  have wf: "wf ((flow_graph f)\<inverse>)"
    by (rule finite_acyclic_wf_converse [OF finite_flow_graph acyc])
  obtain n where n: "pend n" and least: "\<And>d. (n, d) \<in> flow_graph f \<Longrightarrow> \<not> pend d"
    using wfE_min [OF wf, of n0 "{n. pend n}"] \<open>pend n0\<close> by auto
  from n obtain i where i: "i < length ?sts" "stName (?sts ! i) = n" "stPhase (?sts ! i) = StepPending"
    by (auto simp: pend_def)
  have len: "length ?steps = length ?sts"
    using match by (auto simp: entries_match_def dest: map_eq_imp_length_eq)
  let ?s = "?steps ! i"
  have s: "?s \<in> set ?steps" "sName ?s = n"
    using i len match unfolding entries_match_def by (simp, metis nth_map)
  have mi: "?m n = Some i"
    using by_name.index_unique [of f i] match i by (simp add: entries_match_def)
  have "\<exists>j. ?m d = Some j \<and> (stPhase (?sts ! j) = StepSucceeded \<or> stPhase (?sts ! j) = StepSkipped)"
    if d: "d \<in> set (sDependsOn ?s)" for d
  proof -
    from d known s match have "d \<in> set (map stName ?sts)" by (auto simp: deps_known_def entries_match_def)
    then obtain j where j: "?m d = Some j" using by_name.index_total by blast
    then have jn: "j < length ?sts" "stName (?sts ! j) = d" using by_name.index_name [OF j] by auto
    have "(n, d) \<in> flow_graph f" using flow_graph_edge [OF match s(1) d] s(2) by simp
    with least jn have "stPhase (?sts ! j) \<noteq> StepPending" by (auto simp: pend_def)
    with phases [of "?sts ! j"] jn have "step_done (?sts ! j)" by auto
    with j show ?thesis by (simp add: step_done_def)
  qed
  then have "DepsSucceeded (sDependsOn ?s) ?m ?sts"
    by (simp add: by_name.deps_succeeded)
  with mi s i have "ready ?m ?sts ?s" by (simp add: ready_def)
  with s(1) show ?thesis by blast
qed

section \<open>A pass makes progress\<close>

lemma submitPendingSteps_progress:
  assumes "m = BuildStatusByName f" and "submitPendingSteps E F rdb f m data w = (None, f', w')"
  shows "flow_rank lim (fSteps (flStatus f')) < flow_rank lim (fSteps (flStatus f)) \<or>
     (fSteps (flStatus f') = fSteps (flStatus f) \<and>
      (\<forall>s \<in> set (fsSteps (flSpec f')). \<not> ready (BuildStatusByName f') (fSteps (flStatus f')) s))"
proof -
  from assms(2) obtain sts where
    sts: "submit_steps E F rdb f m data (fsSteps (flSpec f)) (fSteps (flStatus f)) w = (None, sts, w')"
    and f': "f' = f\<lparr>flStatus := (flStatus f)\<lparr>fSteps := sts\<rparr>\<rparr>"
    by (auto simp: submitPendingSteps_def split: prod.splits)
  have index: "status_index m (map stName (fSteps (flStatus f)))"
    unfolding assms(1) by (rule by_name.status_index_axioms)
  have same: "BuildStatusByName f' = m" if "sts = fSteps (flStatus f)"
    using that f' assms(1) by (simp add: BuildStatusByName_def)
  from submit_steps_progress [OF index refl sts, of lim] show ?thesis
  proof (elim disjE conjE)
    assume *: "sts = fSteps (flStatus f)" "\<forall>s \<in> set (fsSteps (flSpec f)). \<not> ready m (fSteps (flStatus f)) s"
    show ?thesis unfolding same [OF *(1)] using * f' by simp
  qed (simp add: f')
qed

lemma undecided_scan:
  assumes "\<not> IsTerminalPhase (fPhase (flStatus (UpdateFlowPhase E f data now)))"
  shows "\<not> list_ex step_failed (fSteps (flStatus f)) \<and> \<not> list_all step_done (fSteps (flStatus f))"
  using assms unfolding UpdateFlowPhase_phase
  by (auto simp: flow_verdict_def split: if_splits)

lemma run_flow_progress:
  assumes E: "range_ok E" and valid: "ValidateDAG f = None" and match: "entries_match f0"
    and run: "run_flow E F rdb f w = (Inr g, w')" and init: "initialize E F f w = (f0, w0)"
    and going: "\<not> IsTerminalPhase (fPhase (flStatus g))"
  shows "list_ex in_flight (fSteps (flStatus g)) \<or>
     flow_rank (name_limit (fsSteps (flSpec f))) (fSteps (flStatus g))
       < flow_rank (name_limit (fsSteps (flSpec f))) (fSteps (flStatus f0))"
proof -
  let ?m = "BuildStatusByName f0" and ?lim = "name_limit (fsSteps (flSpec f))"
  have spec: "flSpec f0 = flSpec f" by (rule initialize_shape(2) [OF init])
  from run_flow_stages [OF run init] obtain sts w1 f2 now w2 data where
    col: "collectResults E F rdb ?m (fSteps (flStatus f0)) w0 = (Inr sts, w1)" and
    sub: "submitPendingSteps E F rdb (loop_stage E ?m (f0\<lparr>flStatus := (flStatus f0)\<lparr>fSteps := sts\<rparr>\<rparr>)) ?m data w1
            = (None, f2, w2)" and
    g: "g = observe (UpdateFlowPhase E f2 data now)" .
  let ?f1 = "f0\<lparr>flStatus := (flStatus f0)\<lparr>fSteps := sts\<rparr>\<rparr>"
  let ?l = "loop_stage E ?m ?f1"
  have r1: "status_rel E ?m ?lim (fSteps (flStatus f0)) sts" by (rule collectResults_rel [OF E col])
  then have s1: "same_shape f0 ?f1" by (simp add: with_steps_shape status_rel_names)
  have m1: "?m = BuildStatusByName ?f1" by (rule same_shape_index [OF s1, symmetric])
  note l = loop_stage_rel [OF E m1]
  have m2: "?m = BuildStatusByName ?l" using m1 same_shape_index [of ?f1 ?l] l by simp
  have shape: "same_shape f0 f2"
    using s1 l submitPendingSteps_rel [OF m2 sub] by (blast intro: same_shape_trans)
  have "status_rel E ?m ?lim (fSteps (flStatus f0)) (fSteps (flStatus ?l))"
    using r1 l spec by (auto intro: status_rel_trans)
  then have le: "flow_rank ?lim (fSteps (flStatus ?l)) \<le> flow_rank ?lim (fSteps (flStatus f0))"
    by (auto simp: status_rel_def intro: life_refines_rank)
  have steps: "fSteps (flStatus g) = fSteps (flStatus f2)"
    by (simp add: g observe_frame UpdateFlowPhase_frame)
  from undecided_scan [of E f2 data now] going
  have undecided: "\<not> list_ex step_failed (fSteps (flStatus f2))" "\<not> list_all step_done (fSteps (flStatus f2))"
    by (simp_all add: g observe_frame)
  have valid2: "deps_known f2" "acyclic (flow_graph f2)"
    using valid shape spec by (simp_all add: ValidateDAG_None same_shape_def deps_known_def flow_graph_def)
  from submitPendingSteps_progress [OF m2 sub, of ?lim] le
    ready_step_exists [OF entries_match_shape [OF shape match] valid2 _ undecided]
  show ?thesis unfolding steps by fastforce
qed

end
