(* ===== verification/FlowEffects.thy ===== *)
theory FlowEffects
  imports FlowProgress
begin

text \<open>
  What a reconcile does to the world, as a log. \<open>logged F\<close> is any environment \<open>F\<close> that also writes
  down its effects; a run in it is the run in \<open>F\<close> with a log beside the world, so what holds of
  every log holds of every run.
\<close>

section \<open>The log\<close>

datatype flow_effect =
    EffUpdate ArkFlow "api_error option"
  | EffXAdd string string "string \<rightharpoonup> any" "gotext + string"
  | EffNow time

definition logged :: "'w flow_env \<Rightarrow> ('w \<times> flow_effect list) flow_env" where
  "logged F =
     \<lparr>feGetFlow = (\<lambda>w. feGetFlow F (fst w)),
      feListEvents = (\<lambda>w. feListEvents F (fst w)),
      feGetAgent = (\<lambda>w. feGetAgent F (fst w)),
      feUpdateStatus = (\<lambda>f w. let (r, w') = feUpdateStatus F f (fst w) in (r, w', snd w @ [EffUpdate f r])),
      feParseURL = feParseURL F,
      feXAdd = (\<lambda>a s v w. let (r, w') = feXAdd F a s v (fst w) in (r, w', snd w @ [EffXAdd a s v r])),
      feXRange = (\<lambda>a s w. feXRange F a s (fst w)),
      feNow = (\<lambda>w. let (t, w') = feNow F (fst w) in (t, w', snd w @ [EffNow t]))\<rparr>"

lemma logged_reads [simp]:
  "feGetFlow (logged F) w = feGetFlow F (fst w)" "feListEvents (logged F) w = feListEvents F (fst w)"
  "feGetAgent (logged F) w = feGetAgent F (fst w)" "feParseURL (logged F) = feParseURL F"
  "feXRange (logged F) a s w = feXRange F a s (fst w)"
  by (simp_all add: logged_def)

lemma logged_writes:
  "feUpdateStatus (logged F) f (w, es) = (let (r, w') = feUpdateStatus F f w in (r, w', es @ [EffUpdate f r]))"
  "feXAdd (logged F) a s v (w, es) = (let (r, w') = feXAdd F a s v w in (r, w', es @ [EffXAdd a s v r]))"
  "feNow (logged F) (w, es) = (let (t, w') = feNow F w in (t, w', es @ [EffNow t]))"
  by (simp_all add: logged_def)

text \<open>Runs with and without a log agree on their result and on the world.\<close>

definition erases :: "'a \<times> 'w \<Rightarrow> 'a \<times> 'w \<times> flow_effect list \<Rightarrow> flow_effect list \<Rightarrow> bool" where
  "erases r r' es \<longleftrightarrow> fst r' = fst r \<and> fst (snd r') = snd r \<and> (\<exists>new. snd (snd r') = es @ new)"

lemma erasesD:
  assumes "erases (a, w1) r es"
  obtains new where "r = (a, w1, es @ new)"
  using assms by (cases r) (auto simp: erases_def)

lemma erases_prim:
  "erases (feUpdateStatus F f w) (feUpdateStatus (logged F) f (w, es)) es"
  "erases (feXAdd F a s v w) (feXAdd (logged F) a s v (w, es)) es"
  "erases (feNow F w) (feNow (logged F) (w, es)) es"
  by (auto simp: erases_def logged_writes Let_def split: prod.splits)

lemma erases_bind:
  assumes "erases r r' es"
    and "\<And>a w1 new. r = (a, w1) \<Longrightarrow> r' = (a, w1, es @ new) \<Longrightarrow> erases (k a w1) (k' a (w1, es @ new)) (es @ new)"
  shows "erases (case r of (a, w) \<Rightarrow> k a w) (case r' of (a, w) \<Rightarrow> k' a w) es"
proof -
  obtain a w1 where r: "r = (a, w1)" by fastforce
  from assms(1) obtain new where r': "r' = (a, w1, es @ new)" unfolding r by (rule erasesD)
  from assms(2) [OF r r'] show ?thesis by (auto simp: r r' erases_def)
qed

lemma erases_return [simp]: "erases (a, w) (a, w, es) es"
  by (simp add: erases_def)

lemma erases_init: "erases (initialize E F f w) (initialize E (logged F) f (w, es)) es"
  unfolding initialize_def by (auto intro!: erases_bind erases_prim)

lemma erases_collect_msgs:
  "erases (collect_msgs F waiting msgs sts w) (collect_msgs (logged F) waiting msgs sts (w, es)) es"
proof (induction msgs arbitrary: sts w es)
  case Nil
  show ?case by simp
next
  case (Cons msg msgs)
  then show ?case by (auto intro!: erases_bind erases_prim simp: Let_def split: option.split)
qed

lemma erases_collectResults:
  "erases (collectResults E F rdb m sts w) (collectResults E (logged F) rdb m sts (w, es)) es"
  by (auto simp: collectResults_def Let_def intro!: erases_bind erases_collect_msgs
      split: sum.split redis_error.split)

text \<open>The same for the operations that return two results and the world.\<close>

definition erases2 :: "'a \<times> 'b \<times> 'w \<Rightarrow> 'a \<times> 'b \<times> 'w \<times> flow_effect list \<Rightarrow> flow_effect list \<Rightarrow> bool" where
  "erases2 r r' es \<longleftrightarrow> fst r' = fst r \<and> fst (snd r') = fst (snd r) \<and> fst (snd (snd r')) = snd (snd r) \<and>
     (\<exists>new. snd (snd (snd r')) = es @ new)"

lemma erases2_return [simp]: "erases2 (a, b, w) (a, b, w, es) es"
  by (simp add: erases2_def)

lemma erases2D:
  assumes "erases2 (a, b, w1) r es"
  obtains new where "r = (a, b, w1, es @ new)"
  using assms by (cases r) (auto simp: erases2_def)

lemma erases2_bind1:
  assumes "erases r r' es"
    and "\<And>a w1 new. r = (a, w1) \<Longrightarrow> r' = (a, w1, es @ new) \<Longrightarrow> erases2 (k a w1) (k' a (w1, es @ new)) (es @ new)"
  shows "erases2 (case r of (a, w) \<Rightarrow> k a w) (case r' of (a, w) \<Rightarrow> k' a w) es"
proof -
  obtain a w1 where r: "r = (a, w1)" by fastforce
  from assms(1) obtain new where r': "r' = (a, w1, es @ new)" unfolding r by (rule erasesD)
  from assms(2) [OF r r'] show ?thesis by (auto simp: r r' erases2_def)
qed

lemma erases2_bind2:
  assumes "erases2 r r' es"
    and "\<And>a b w1 new. r = (a, b, w1) \<Longrightarrow> r' = (a, b, w1, es @ new) \<Longrightarrow>
           erases2 (k a b w1) (k' a b (w1, es @ new)) (es @ new)"
  shows "erases2 (case r of (a, b, w) \<Rightarrow> k a b w) (case r' of (a, b, w) \<Rightarrow> k' a b w) es"
proof -
  obtain a b w1 where r: "r = (a, b, w1)" by (metis prod_cases3)
  from assms(1) obtain new where r': "r' = (a, b, w1, es @ new)" unfolding r by (rule erases2D)
  from assms(2) [OF r r'] show ?thesis by (auto simp: r r' erases2_def)
qed

lemma erases_bind2:
  assumes "erases2 r r' es"
    and "\<And>a b w1 new. r = (a, b, w1) \<Longrightarrow> r' = (a, b, w1, es @ new) \<Longrightarrow>
           erases (k a b w1) (k' a b (w1, es @ new)) (es @ new)"
  shows "erases (case r of (a, b, w) \<Rightarrow> k a b w) (case r' of (a, b, w) \<Rightarrow> k' a b w) es"
proof -
  obtain a b w1 where r: "r = (a, b, w1)" by (metis prod_cases3)
  from assms(1) obtain new where r': "r' = (a, b, w1, es @ new)" unfolding r by (rule erases2D)
  from assms(2) [OF r r'] show ?thesis by (auto simp: r r' erases_def)
qed

lemma erases_submitTask: "erases (submitTask F a p k w) (submitTask (logged F) a p k (w, es)) es"
  by (auto simp: submitTask_def intro!: erases_bind erases_prim split: sum.split)

lemma erases_submit_step:
  "erases2 (submit_step E F a f m data step sts w) (submit_step E (logged F) a f m data step sts (w, es)) es"
  by (auto simp: submit_step_def Let_def intro!: erases2_bind1 erases_prim erases_submitTask
      split: option.split sum.split)

lemma erases_submit_steps:
  "erases2 (submit_steps E F a f m data steps sts w) (submit_steps E (logged F) a f m data steps sts (w, es)) es"
proof (induction steps arbitrary: sts w es)
  case Nil
  show ?case by simp
next
  case (Cons step steps)
  obtain e1 sts1 w1 where one: "submit_step E F a f m data step sts w = (e1, sts1, w1)"
    by (metis prod_cases3)
  from erases_submit_step [of E F a f m data step sts w es] obtain new
    where "submit_step E (logged F) a f m data step sts (w, es) = (e1, sts1, w1, es @ new)"
    unfolding one by (rule erases2D)
  with one Cons [of sts1 w1 "es @ new"] show ?case by (auto simp: erases2_def split: option.split)
qed

lemma erases_submitPendingSteps:
  "erases2 (submitPendingSteps E F a f m data w) (submitPendingSteps E (logged F) a f m data (w, es)) es"
  by (auto simp: submitPendingSteps_def Let_def intro!: erases2_bind2 erases_submit_steps)

lemma erases_run_flow: "erases (run_flow E F a f w) (run_flow E (logged F) a f (w, es)) es"
proof -
  have submit: "erases
      (case submitPendingSteps E F a f m data w of (Some err, _, w) \<Rightarrow> (Inl err, w)
         | (None, f, w) \<Rightarrow> (let (now, w) = feNow F w in (Inr (observe (UpdateFlowPhase E f data now)), w)))
      (case submitPendingSteps E (logged F) a f m data (w, es) of (Some err, _, w) \<Rightarrow> (Inl err, w)
         | (None, f, w) \<Rightarrow> (let (now, w) = feNow (logged F) w in (Inr (observe (UpdateFlowPhase E f data now)), w))) es"
    for f m data w es
  proof -
    obtain err f' w1 where one: "submitPendingSteps E F a f m data w = (err, f', w1)" by (metis prod_cases3)
    from erases_submitPendingSteps [of E F a f m data w es] obtain new
      where "submitPendingSteps E (logged F) a f m data (w, es) = (err, f', w1, es @ new)"
      unfolding one by (rule erases2D)
    with one show ?thesis
      by (auto simp: logged_writes Let_def erases_def split: option.split prod.split)
  qed
  show ?thesis
    unfolding run_flow_def Let_def
    by (auto intro!: erases_bind erases_init erases_collectResults submit [unfolded Let_def] split: sum.split)
qed

lemma erases_update:
  "erases (update_and_return F f res w) (update_and_return (logged F) f res (w, es)) es"
  "erases (update_ignored F f w) (update_ignored (logged F) f (w, es)) es"
  by (auto simp: update_and_return_def update_ignored_def intro!: erases_bind erases_prim split: option.split)

section \<open>The guards of a reconcile\<close>

text \<open>
  \<open>Reconcile\<close> decides what to do by reads only, and then does one thing: \<open>flow_guard\<close> is the decision,
  \<open>act\<close> the deed.
\<close>

datatype decision =
    Return "gotext + ctrl_result"
  | Report ArkFlow
  | Observe ArkFlow
  | Execute ArkFlow string

definition flow_guard ::
  "ext \<Rightarrow> 'w flow_env \<Rightarrow> ArkFlowReconciler \<Rightarrow> NamespacedName \<Rightarrow> 'w \<Rightarrow> decision \<times> ArkFlowReconciler" where
  "flow_guard E F r req w =
     (case feGetFlow F w req of
        Inl err \<Rightarrow> (Return (if IsNotFound err then Inr no_requeue else Inl (api_text err)), r)
      | Inr f \<Rightarrow>
          if mDeletionTimestamp (flMeta f) \<noteq> None then (Return (Inr no_requeue), r)
          else case isTriggerTemplate F f w of
            Inl err \<Rightarrow> (Return (Inl (api_text err)), r)
          | Inr template \<Rightarrow>
          if template then (Return (Inr no_requeue), r)
          else case ValidateDAG f of
            Some err \<Rightarrow> (Report (SetCondition E f ConditionFalse ''InvalidDAG'' err), r)
          | None \<Rightarrow>
          (case validateAgents F f w of
            Some err \<Rightarrow> (Report (SetCondition E f ConditionFalse ''DeploymentNotFound'' err), r)
          | None \<Rightarrow>
          if IsTerminalPhase (fPhase (flStatus f)) then (Observe (observe f), r)
          else case fst (getRedis F r) of
            None \<Rightarrow> (Report (SetCondition E f ConditionFalse ''NoTaskQueue''
                      (TLit ''TASK_QUEUE_URL not set; flow execution requires Redis'')), snd (getRedis F r))
          | Some rdb \<Rightarrow> (Execute f rdb, snd (getRedis F r))))"

fun act :: "ext \<Rightarrow> 'w flow_env \<Rightarrow> decision \<Rightarrow> 'w \<Rightarrow> (gotext + ctrl_result) \<times> 'w" where
  "act E F (Return res) w = (res, w)"
| "act E F (Report f) w = update_ignored F f w"
| "act E F (Observe f) w = update_and_return F f no_requeue w"
| "act E F (Execute f rdb) w =
     (case run_flow E F rdb f w of
        (Inl err, w) \<Rightarrow> (Inl err, w)
      | (Inr g, w) \<Rightarrow> update_and_return F g
           (if fPhase (flStatus g) = FlowRunning then \<lparr>RequeueAfter = pipelineRequeueIn\<rparr> else no_requeue) w)"

lemma pass_through: "(case x of (res, w) \<Rightarrow> (res, r, w)) = (fst x, r, snd x)"
  by (cases x) simp

lemma Reconcile_decides:
  "Reconcile E F r req w =
     (let (d, r') = flow_guard E F r req w; (res, w') = act E F d w in (res, r', w'))"
proof (cases "feGetFlow F w req")
  case (Inl err)
  then show ?thesis by (simp add: Reconcile_def flow_guard_def)
next
  case (Inr f)
  obtain rdb r' where redis: "getRedis F r = (rdb, r')" by fastforce
  show ?thesis
    unfolding Reconcile_def flow_guard_def Inr sum.case
    by (cases "mDeletionTimestamp (flMeta f)"; cases "isTriggerTemplate F f w";
        cases "ValidateDAG f"; cases "validateAgents F f w";
        cases "IsTerminalPhase (fPhase (flStatus f))"; cases rdb)
       (simp_all only: redis act.simps sum.case option.case fst_conv snd_conv if_True if_False
          option.distinct simp_thms Let_def pass_through prod.case,
        (simp_all add: pass_through split: bool.split prod.split sum.split)?)
qed

lemma logged_validateAgents [simp]: "validateAgents (logged F) f w = validateAgents F f (fst w)"
proof -
  have "validate_agents (logged F) ns steps w = validate_agents F ns steps (fst w)" for ns steps
    by (induction steps) (auto split: sum.split)
  then show ?thesis by (simp add: validateAgents_def)
qed

lemma logged_guard: "flow_guard E (logged F) r req w = flow_guard E F r req (fst w)"
proof -
  have "isTriggerTemplate (logged F) f w = isTriggerTemplate F f (fst w)" for f
    by (simp add: isTriggerTemplate_def)
  moreover have "getRedis (logged F) r = getRedis F r" by (simp add: getRedis_def Let_def)
  ultimately show ?thesis unfolding flow_guard_def logged_reads logged_validateAgents by (simp only:)
qed

lemma erases_act: "erases (act E F d w) (act E (logged F) d (w, es)) es"
  by (cases d) (auto intro!: erases_update erases_bind erases_run_flow split: sum.split)

lemma erases_Reconcile: "erases2 (Reconcile E F r req w) (Reconcile E (logged F) r req (w, es)) es"
proof -
  obtain d r' where d: "flow_guard E F r req w = (d, r')" by fastforce
  obtain res w' where a: "act E F d w = (res, w')" by fastforce
  from erases_act [of E F d w es] obtain new where "act E (logged F) d (w, es) = (res, w', es @ new)"
    unfolding a by (rule erasesD)
  with d a show ?thesis by (simp add: Reconcile_decides logged_guard erases2_def)
qed

section \<open>Effects of a pass\<close>

text \<open>The tasks a log submitted: queue address, stream, payload and the ID the stream gave.\<close>

fun submitted :: "flow_effect list \<Rightarrow> (string \<times> string \<times> (string \<rightharpoonup> any) \<times> string) list" where
  "submitted [] = []"
| "submitted (EffXAdd a s v (Inr tid) # es) = (a, s, v, tid) # submitted es"
| "submitted (_ # es) = submitted es"

fun stored :: "flow_effect list \<Rightarrow> ArkFlow list" where
  "stored [] = []"
| "stored (EffUpdate f _ # es) = f # stored es"
| "stored (_ # es) = stored es"

lemma submitted_append [simp]: "submitted (a @ b) = submitted a @ submitted b"
  by (induction a rule: submitted.induct) auto

lemma stored_append [simp]: "stored (a @ b) = stored a @ stored b"
  by (induction a rule: stored.induct) auto

text \<open>Collecting only reads the clock.\<close>

lemma logged_now: "feNow (logged F) w = (t, w') \<Longrightarrow> snd w' = snd w @ [EffNow t]"
  by (auto simp: logged_def Let_def split: prod.splits)

lemma collect_msgs_log:
  "collect_msgs (logged F) waiting msgs sts w = (sts', w') \<Longrightarrow>
     submitted (snd w') = submitted (snd w) \<and> stored (snd w') = stored (snd w)"
proof (induction msgs arbitrary: sts w)
  case Nil
  then show ?case by simp
next
  case (Cons msg msgs)
  show ?case
  proof (cases "map_of waiting (any_string (rmValues msg ''task_id''))")
    case None
    with Cons.prems show ?thesis by (auto dest!: Cons.IH)
  next
    case (Some i)
    obtain now w1 where "feNow (logged F) w = (now, w1)" by (metis surj_pair)
    with Some Cons.prems Cons.IH [of "update_at i (record_result msg now) sts" w1] show ?thesis
      by (auto dest: logged_now)
  qed
qed

lemma collectResults_log:
  "collectResults E (logged F) a m sts w = (r, w') \<Longrightarrow>
     submitted (snd w') = submitted (snd w) \<and> stored (snd w') = stored (snd w)"
  by (auto simp: collectResults_def Let_def dest: collect_msgs_log
      split: if_splits sum.splits redis_error.splits prod.splits)

lemma initialize_log:
  "initialize E (logged F) f w = (f0, w') \<Longrightarrow>
     submitted (snd w') = submitted (snd w) \<and> stored (snd w') = stored (snd w)"
  by (auto simp: initialize_def dest: logged_now split: if_splits prod.splits)

section \<open>Submissions are exact\<close>

text \<open>Submitting changes pending entries only, and such an entry is not pending afterwards.\<close>

definition pending_only :: "ArkFlowStepStatus list \<Rightarrow> ArkFlowStepStatus list \<Rightarrow> bool" where
  "pending_only sts sts' \<longleftrightarrow> length sts' = length sts \<and>
     (\<forall>i < length sts. sts' ! i = sts ! i \<or> stPhase (sts ! i) = StepPending \<and> stPhase (sts' ! i) \<noteq> StepPending)"

lemma pending_only_refl [simp]: "pending_only sts sts"
  by (simp add: pending_only_def)

lemma pending_only_trans: "pending_only a b \<Longrightarrow> pending_only b c \<Longrightarrow> pending_only a c"
  unfolding pending_only_def by metis

lemma pending_only_update:
  "stPhase (sts ! i) = StepPending \<Longrightarrow> stPhase (g (sts ! i)) \<noteq> StepPending \<Longrightarrow> pending_only sts (update_at i g sts)"
  by (auto simp: pending_only_def nth_update_at)

lemma submit_step_pending_only:
  "submit_step E F a f m data step sts w = (err, sts', w') \<Longrightarrow> pending_only sts sts'"
  by (auto simp: submit_step_def Let_def intro!: pending_only_update
      split: option.splits if_splits sum.splits prod.splits)

lemma submit_steps_pending_only:
  "submit_steps E F a f m data steps sts w = (err, sts', w') \<Longrightarrow> pending_only sts sts'"
proof (induction steps arbitrary: sts w)
  case Nil
  then show ?case by simp
next
  case (Cons step steps)
  obtain e1 sts1 w1 where one: "submit_step E F a f m data step sts w = (e1, sts1, w1)"
    by (metis prod_cases3)
  with Cons show ?case
    by (auto split: option.splits intro: pending_only_trans dest!: submit_step_pending_only)
qed

text \<open>
  What a submission in the log stands for, against the statuses before and after: a step whose entry
  was pending and is now running under the ID the stream gave, whose dependencies are done, whose
  condition holds, and whose resolved prompt is the payload.
\<close>

definition explains ::
  "ext \<Rightarrow> string \<Rightarrow> ArkFlow \<Rightarrow> (string \<rightharpoonup> nat) \<Rightarrow> any \<Rightarrow> ArkFlowStep list \<Rightarrow> ArkFlowStepStatus list \<Rightarrow>
     ArkFlowStepStatus list \<Rightarrow> string \<times> string \<times> (string \<rightharpoonup> any) \<times> string \<Rightarrow> bool" where
  "explains E a f m data steps sts sts' sub \<longleftrightarrow>
     (\<exists>step \<in> set steps. \<exists>i prompt. m (sName step) = Some i \<and>
        stPhase (sts ! i) = StepPending \<and> stPhase (sts' ! i) = StepRunning \<and>
        DepsSucceeded (sDependsOn step) m sts' \<and> condition_holds E data step \<and>
        ResolvePrompt E step data = Inr prompt \<and>
        sub = (a, taskStream, task_values prompt (stream_key f), stTaskID (sts' ! i)))"

definition started :: "ArkFlowStepStatus list \<Rightarrow> ArkFlowStepStatus list \<Rightarrow> nat set" where
  "started sts sts' = {i. i < length sts \<and> stPhase (sts ! i) = StepPending \<and> stPhase (sts' ! i) = StepRunning}"

lemma DepsSucceeded_mono:
  assumes "DepsSucceeded deps m sts" and "pending_only sts sts'" and "\<And>n i. m n = Some i \<Longrightarrow> i < length sts"
  shows "DepsSucceeded deps m sts'"
  using assms(1)
proof (induction deps)
  case Nil
  show ?case by simp
next
  case (Cons d deps)
  then obtain i where "m d = Some i" and "stPhase (sts ! i) = StepSucceeded \<or> stPhase (sts ! i) = StepSkipped"
    by (auto split: option.splits if_splits)
  moreover from this assms(2) assms(3) [of d i] have "sts' ! i = sts ! i" by (auto simp: pending_only_def)
  ultimately show ?case using Cons by auto
qed

lemma started_split:
  assumes "pending_only sts sts1" and "pending_only sts1 sts'"
  shows "started sts sts' = started sts sts1 \<union> started sts1 sts'" "started sts sts1 \<inter> started sts1 sts' = {}"
proof -
  have "i \<in> started sts sts' \<longleftrightarrow> i \<in> started sts sts1 \<or> i \<in> started sts1 sts'" for i
    using assms unfolding started_def pending_only_def mem_Collect_eq
    by (metis StepPhase.distinct(1))
  then show "started sts sts' = started sts sts1 \<union> started sts1 sts'" by blast
  show "started sts sts1 \<inter> started sts1 sts' = {}" by (auto simp: started_def)
qed

lemma finite_started [simp]: "finite (started sts sts')"
  by (simp add: started_def)

lemma logged_xadd:
  "feXAdd (logged F) a s v w = (r, w') \<Longrightarrow> snd w' = snd w @ [EffXAdd a s v r]"
  by (auto simp: logged_def Let_def split: prod.splits)

lemma logged_now_iff:
  "feNow (logged F) w = (t, w') \<longleftrightarrow> feNow F (fst w) = (t, fst w') \<and> snd w' = snd w @ [EffNow t]"
  by (cases w') (auto simp: logged_def Let_def split: prod.splits)

lemma logged_update:
  "feUpdateStatus (logged F) f w = (r, w') \<Longrightarrow> snd w' = snd w @ [EffUpdate f r]"
  by (auto simp: logged_def Let_def split: prod.splits)

lemma submitTask_log:
  "submitTask (logged F) a p k w = (Inr tid, w') \<Longrightarrow> snd w' = snd w @ [EffXAdd a taskStream (task_values p k) (Inr tid)]"
  "submitTask (logged F) a p k w = (Inl e, w') \<Longrightarrow> \<exists>e'. snd w' = snd w @ [EffXAdd a taskStream (task_values p k) (Inl e')]"
  by (auto simp: submitTask_def dest: logged_xadd split: prod.splits sum.splits)

lemma started_update:
  "i < length sts \<Longrightarrow> stPhase (sts ! i) = StepPending \<Longrightarrow>
     started sts (update_at i g sts) = (if stPhase (g (sts ! i)) = StepRunning then {i} else {})"
  by (auto simp: started_def nth_update_at split: if_splits)

lemma started_same [simp]: "started sts sts = {}"
  by (auto simp: started_def)

lemma submit_step_log:
  assumes "status_index m names" and "map stName sts = names"
    and "submit_step E (logged F) a f m data step sts w = (err, sts', w')"
  shows "\<exists>new. submitted (snd w') = submitted (snd w) @ new \<and>
     (\<forall>s \<in> set new. explains E a f m data [step] sts sts' s) \<and> length new = card (started sts sts')"
proof (cases "ready m sts step \<and> condition_holds E data step \<and> (\<exists>p tid w1 now.
    ResolvePrompt E step data = Inr p \<and> submitTask (logged F) a p (stream_key f) w = (Inr tid, w1) \<and>
    feNow (logged F) w1 = (now, w'))")
  case True
  then obtain p tid w1 now i where i: "m (sName step) = Some i" "stPhase (sts ! i) = StepPending"
      "DepsSucceeded (sDependsOn step) m sts" "condition_holds E data step"
    and p: "ResolvePrompt E step data = Inr p" and t: "submitTask (logged F) a p (stream_key f) w = (Inr tid, w1)"
    and n: "feNow (logged F) w1 = (now, w')"
    by (auto simp: ready_def split: option.splits)
  have sts': "sts' = update_at i (mark_submitted now tid) sts"
    using assms(3) i p t n by (simp add: submit_step_def)
  note ptr = status_index.pointer [OF assms(1) i(1) assms(2)]
  have "DepsSucceeded (sDependsOn step) m sts'"
    using DepsSucceeded_mono [OF i(3) submit_step_pending_only [OF assms(3)]]
      status_index.pointer [OF assms(1) _ assms(2)] by blast
  moreover have "started sts sts' = {i}" using i ptr by (simp add: sts' started_update)
  ultimately show ?thesis
    using i p ptr submitTask_log(1) [OF t] logged_now [OF n]
    by (intro exI [of _ "[(a, taskStream, task_values p (stream_key f), tid)]"])
       (auto simp: explains_def sts' mark_submitted_def)
next
  case False
  have "started sts sts' = {} \<and> submitted (snd w') = submitted (snd w)"
  proof (cases "m (sName step)")
    case None
    with assms(3) show ?thesis by (simp add: submit_step_def)
  next
    case (Some i)
    from status_index.pointer [OF assms(1) this assms(2)] Some assms(3) False show ?thesis
      by (auto simp: submit_step_def ready_def Let_def started_update
          logged_now_iff dest!: logged_update submitTask_log
          split: if_splits sum.splits prod.splits)
  qed
  then show ?thesis by (intro exI [of _ "[]"]) simp
qed

lemma pending_only_phase:
  "pending_only a b \<Longrightarrow> i < length a \<Longrightarrow> stPhase (a ! i) \<noteq> StepPending \<Longrightarrow> b ! i = a ! i"
  by (auto simp: pending_only_def)

lemma pending_only_back:
  "pending_only a b \<Longrightarrow> i < length a \<Longrightarrow> stPhase (b ! i) = StepPending \<Longrightarrow> b ! i = a ! i"
  by (auto simp: pending_only_def)

lemma explains_later:
  assumes "explains E a f m data steps sts sts1 s" and "pending_only sts1 sts'" and "set steps \<subseteq> set steps'"
    and "\<And>n i. m n = Some i \<Longrightarrow> i < length sts1"
  shows "explains E a f m data steps' sts sts' s"
proof -
  from assms(1) obtain step i p where
    x: "step \<in> set steps" "m (sName step) = Some i" "stPhase (sts ! i) = StepPending"
      "stPhase (sts1 ! i) = StepRunning" "DepsSucceeded (sDependsOn step) m sts1" "condition_holds E data step"
      "ResolvePrompt E step data = Inr p" "s = (a, taskStream, task_values p (stream_key f), stTaskID (sts1 ! i))"
    by (auto simp: explains_def)
  have "sts' ! i = sts1 ! i" using pending_only_phase [OF assms(2) assms(4) [OF x(2)]] x(4) by simp
  with x assms(3) DepsSucceeded_mono [OF x(5) assms(2,4)] show ?thesis
    unfolding explains_def by (intro bexI [of _ step] exI [of _ i] exI [of _ p]) auto
qed

lemma explains_earlier:
  assumes "explains E a f m data steps sts1 sts' s" and "pending_only sts sts1" and "set steps \<subseteq> set steps'"
    and "\<And>n i. m n = Some i \<Longrightarrow> i < length sts"
  shows "explains E a f m data steps' sts sts' s"
proof -
  from assms(1) obtain step i p where
    x: "step \<in> set steps" "m (sName step) = Some i" "stPhase (sts1 ! i) = StepPending"
      "stPhase (sts' ! i) = StepRunning" "DepsSucceeded (sDependsOn step) m sts'" "condition_holds E data step"
      "ResolvePrompt E step data = Inr p" "s = (a, taskStream, task_values p (stream_key f), stTaskID (sts' ! i))"
    by (auto simp: explains_def)
  have "sts1 ! i = sts ! i" using pending_only_back [OF assms(2) assms(4) [OF x(2)] x(3)] .
  with x assms(3) show ?thesis
    unfolding explains_def by (intro bexI [of _ step] exI [of _ i] exI [of _ p]) auto
qed

lemma submit_steps_log:
  assumes "status_index m names"
  shows "map stName sts = names \<Longrightarrow> submit_steps E (logged F) a f m data steps sts w = (err, sts', w') \<Longrightarrow>
     \<exists>new. submitted (snd w') = submitted (snd w) @ new \<and>
       (\<forall>s \<in> set new. explains E a f m data steps sts sts' s) \<and> length new = card (started sts sts')"
proof (induction steps arbitrary: sts w)
  case Nil
  then show ?case by (intro exI [of _ "[]"]) simp
next
  case (Cons step steps)
  obtain e1 sts1 w1 where one: "submit_step E (logged F) a f m data step sts w = (e1, sts1, w1)"
    by (metis prod_cases3)
  have len: "i < length sts" if "m n = Some i" for n i
    using status_index.pointer [OF assms that Cons.prems(1)] by blast
  obtain new1 where new1: "submitted (snd w1) = submitted (snd w) @ new1"
      "\<forall>s \<in> set new1. explains E a f m data [step] sts sts1 s" "length new1 = card (started sts sts1)"
    using submit_step_log [OF assms Cons.prems(1) one] by blast
  have names: "map stName sts1 = names"
    using status_rel_names [OF submit_step_rel [OF assms Cons.prems(1) one]] Cons.prems(1) by simp
  have len1: "i < length sts1" if "m n = Some i" for n i
    using status_index.pointer [OF assms that names] by blast
  note p1 = submit_step_pending_only [OF one]
  show ?case
  proof (cases e1)
    case (Some e)
    with one Cons.prems(2) have "sts' = sts1" "w' = w1" by auto
    moreover have "explains E a f m data (step # steps) sts sts1 s" if "s \<in> set new1" for s
      by (rule explains_later [OF bspec [OF new1(2) that] pending_only_refl _ len1]) simp
    ultimately show ?thesis using new1 by auto
  next
    case None
    with one Cons.prems(2) have rest: "submit_steps E (logged F) a f m data steps sts1 w1 = (err, sts', w')" by simp
    obtain new2 where new2: "submitted (snd w') = submitted (snd w1) @ new2"
        "\<forall>s \<in> set new2. explains E a f m data steps sts1 sts' s" "length new2 = card (started sts1 sts')"
      using Cons.IH [OF names rest] by blast
    note p2 = submit_steps_pending_only [OF rest]
    have "explains E a f m data (step # steps) sts sts' s" if "s \<in> set (new1 @ new2)" for s
    proof (cases "s \<in> set new1")
      case True
      show ?thesis by (rule explains_later [OF bspec [OF new1(2) True] p2 _ len1]) simp
    next
      case False
      with that have "s \<in> set new2" by simp
      show ?thesis
        by (rule explains_earlier [OF bspec [OF new2(2) \<open>s \<in> set new2\<close>] p1]) (auto intro: len)
    qed
    moreover have "length (new1 @ new2) = card (started sts sts')"
      using new1(3) new2(3) started_split [OF p1 p2] by (simp add: card_Un_disjoint)
    ultimately show ?thesis using new1(1) new2(1) by (intro exI [of _ "new1 @ new2"]) auto
  qed
qed

text \<open>The flow is stored within a pass only when a submission failed.\<close>

lemma submit_steps_stored:
  "submit_steps E (logged F) a f m data steps sts w = (None, sts', w') \<Longrightarrow> stored (snd w') = stored (snd w)"
proof (induction steps arbitrary: sts w)
  case Nil
  then show ?case by simp
next
  case (Cons step steps)
  obtain sts1 w1 where one: "submit_step E (logged F) a f m data step sts w = (None, sts1, w1)"
    and rest: "submit_steps E (logged F) a f m data steps sts1 w1 = (None, sts', w')"
    using Cons.prems by (auto split: prod.splits option.splits)
  from one have "stored (snd w1) = stored (snd w)"
    by (auto simp: submit_step_def Let_def logged_now_iff dest!: submitTask_log
        split: option.splits if_splits sum.splits prod.splits)
  with Cons.IH [OF rest] show ?case by simp
qed

text \<open>A whole pass that succeeds: every task it put on the queue, and no other, is a step it started.\<close>

lemma run_flow_log:
  assumes E: "range_ok E" and run: "run_flow E (logged F) a f (w, []) = (Inr g, w', es)"
  obtains mid data where
    "same_shape mid g" "data = BuildTemplateData E mid (BuildStatusByName mid)"
    "\<And>s. s \<in> set (submitted es) \<Longrightarrow>
       explains E a g (BuildStatusByName g) data (fsSteps (flSpec g))
         (fSteps (flStatus (EvaluateLoops E mid (BuildStatusByName mid) data))) (fSteps (flStatus g)) s"
    "length (submitted es) =
       card (started (fSteps (flStatus (EvaluateLoops E mid (BuildStatusByName mid) data))) (fSteps (flStatus g)))"
    "stored es = []"
proof -
  obtain f0 w0 where init: "initialize E (logged F) f (w, []) = (f0, w0)" by (metis surj_pair)
  let ?m = "BuildStatusByName f0"
  from run_flow_stages [OF run init] obtain sts w1 f2 now w2 data where
    col: "collectResults E (logged F) a ?m (fSteps (flStatus f0)) w0 = (Inr sts, w1)" and
    data: "data = BuildTemplateData E (ParseOutputJSON E (f0\<lparr>flStatus := (flStatus f0)\<lparr>fSteps := sts\<rparr>\<rparr>) ?m) ?m" and
    sub: "submitPendingSteps E (logged F) a (loop_stage E ?m (f0\<lparr>flStatus := (flStatus f0)\<lparr>fSteps := sts\<rparr>\<rparr>)) ?m data w1
            = (None, f2, w2)" and
    now: "feNow (logged F) w2 = (now, w', es)" and
    g: "g = observe (UpdateFlowPhase E f2 data now)" .
  let ?f1 = "f0\<lparr>flStatus := (flStatus f0)\<lparr>fSteps := sts\<rparr>\<rparr>"
  let ?mid = "ParseOutputJSON E ?f1 ?m" and ?l = "loop_stage E ?m ?f1"
  have l: "?l = EvaluateLoops E ?mid ?m data" by (simp add: loop_stage_def Let_def data)
  have s1: "same_shape f0 ?f1"
    using status_rel_names [OF collectResults_rel [OF E col]] by (rule with_steps_shape)
  have mid: "same_shape f0 ?mid" using s1 same_shape_ParseOutputJSON by (rule same_shape_trans)
  have ml: "same_shape ?mid ?l" unfolding l by (rule same_shape_EvaluateLoops)
  have mmid: "BuildStatusByName ?mid = ?m" by (rule same_shape_index [OF mid])
  have m2: "?m = BuildStatusByName ?l" using same_shape_index [OF ml] mmid by simp
  have l2: "same_shape ?l f2" using submitPendingSteps_rel [OF m2 sub] by blast
  have mg: "same_shape ?mid g"
    using same_shape_trans [OF ml l2] by (simp add: g same_shape_def observe_frame UpdateFlowPhase_frame)
  have idx: "BuildStatusByName g = ?m" using same_shape_index [OF mg] mmid by simp
  from sub have steps: "submit_steps E (logged F) a ?l ?m data (fsSteps (flSpec ?l)) (fSteps (flStatus ?l)) w1
      = (None, fSteps (flStatus f2), w2)"
    by (auto simp: submitPendingSteps_def split: prod.splits)
  have sg: "fSteps (flStatus g) = fSteps (flStatus f2)" by (simp add: g observe_frame UpdateFlowPhase_frame)
  have quiet: "submitted (snd w1) = []" "stored (snd w1) = []"
    using initialize_log [OF init] collectResults_log [OF col] by simp_all
  have log_end: "es = snd w2 @ [EffNow now]" using logged_now [OF now] by simp
  have index: "status_index ?m (map stName (fSteps (flStatus ?l)))"
    using by_name.status_index_axioms [of ?l] unfolding m2 [symmetric] .
  from submit_steps_log [OF index refl steps] quiet log_end sg
  have log: "\<forall>s \<in> set (submitted es). explains E a ?l ?m data (fsSteps (flSpec ?l)) (fSteps (flStatus ?l)) (fSteps (flStatus g)) s"
    "length (submitted es) = card (started (fSteps (flStatus ?l)) (fSteps (flStatus g)))"
    by auto
  show thesis
  proof (rule that [OF mg])
    show "data = BuildTemplateData E ?mid (BuildStatusByName ?mid)" by (simp add: data mmid)
    show "explains E a g (BuildStatusByName g) data (fsSteps (flSpec g))
         (fSteps (flStatus (EvaluateLoops E ?mid (BuildStatusByName ?mid) data))) (fSteps (flStatus g)) s"
      if "s \<in> set (submitted es)" for s
    proof -
      have "flMeta g = flMeta ?l" "flSpec g = flSpec ?l"
        using mg ml by (simp_all add: same_shape_def)
      with log(1) that idx mmid l show ?thesis by (simp add: explains_def stream_key_def)
    qed
    show "length (submitted es) =
       card (started (fSteps (flStatus (EvaluateLoops E ?mid (BuildStatusByName ?mid) data))) (fSteps (flStatus g)))"
      using log(2) l mmid by simp
    show "stored es = []" using submit_steps_stored [OF steps] quiet log_end by simp
  qed
qed

section \<open>Every flow that is stored\<close>

text \<open>A flow that some operation of the pass may store, from the flow \<open>f0\<close> it started with.\<close>

definition pass_ok :: "ext \<Rightarrow> ArkFlow \<Rightarrow> ArkFlow \<Rightarrow> bool" where
  "pass_ok E f0 g \<longleftrightarrow> same_shape f0 g \<and>
     status_rel E (BuildStatusByName f0) (name_limit (fsSteps (flSpec f0))) (fSteps (flStatus f0)) (fSteps (flStatus g))"

lemma pass_ok_refl [simp]: "pass_ok E f f"
  by (simp add: pass_ok_def)

lemma pass_ok_trans [trans]: "pass_ok E f g \<Longrightarrow> pass_ok E g h \<Longrightarrow> pass_ok E f h"
  unfolding pass_ok_def
  using same_shape_index [of f g] by (auto simp: same_shape_def intro: same_shape_trans status_rel_trans)

lemma pass_ok_steps:
  "status_rel E (BuildStatusByName f) (name_limit (fsSteps (flSpec f))) (fSteps (flStatus f)) sts \<Longrightarrow>
     pass_ok E f (f\<lparr>flStatus := (flStatus f)\<lparr>fSteps := sts\<rparr>\<rparr>)"
  by (simp add: pass_ok_def with_steps_shape status_rel_names)

lemma submit_step_stores:
  assumes "submit_step E (logged F) a f m data step sts w = (err, sts', w')"
  shows "stored (snd w') = stored (snd w) @
     (if err = None then [] else [f\<lparr>flStatus := (flStatus f)\<lparr>fSteps := sts\<rparr>\<rparr>])"
  using assms
  by (auto simp: submit_step_def Let_def logged_now_iff dest!: logged_update submitTask_log
      split: option.splits if_splits sum.splits prod.splits)

lemma submit_steps_stores:
  assumes "m = BuildStatusByName f"
  shows "status_rel E m (name_limit (fsSteps (flSpec f))) (fSteps (flStatus f)) sts \<Longrightarrow>
     submit_steps E (logged F) a f m data steps sts w = (err, sts', w') \<Longrightarrow>
     g \<in> set (stored (snd w')) \<Longrightarrow> g \<in> set (stored (snd w)) \<or> pass_ok E f g"
proof (induction steps arbitrary: sts w)
  case Nil
  then show ?case by simp
next
  case (Cons step steps)
  obtain e1 sts1 w1 where one: "submit_step E (logged F) a f m data step sts w = (e1, sts1, w1)"
    by (metis prod_cases3)
  have index: "status_index m (map stName (fSteps (flStatus f)))"
    unfolding assms by (rule by_name.status_index_axioms)
  have rel1: "status_rel E m (name_limit (fsSteps (flSpec f))) (fSteps (flStatus f)) sts1"
    using submit_step_rel [OF index status_rel_names [OF Cons.prems(1)] one] Cons.prems(1)
    by (blast intro: status_rel_trans)
  show ?case
  proof (cases e1)
    case (Some e)
    with one Cons.prems(2) have "w' = w1" by auto
    with Cons.prems(3) submit_step_stores [OF one] Some pass_ok_steps Cons.prems(1) assms
    show ?thesis by auto
  next
    case None
    with one Cons.prems(2) have "submit_steps E (logged F) a f m data steps sts1 w1 = (err, sts', w')" by simp
    from Cons.IH [OF rel1 this Cons.prems(3)] submit_step_stores [OF one] None show ?thesis by auto
  qed
qed

lemma run_flow_Inr_pass:
  "range_ok E \<Longrightarrow> run_flow E F a f w = (Inr g, w') \<Longrightarrow> initialize E F f w = (f0, w0) \<Longrightarrow> pass_ok E f0 g"
  using run_flow_rel by (simp add: pass_ok_def)

lemma run_flow_stores:
  assumes E: "range_ok E" and run: "run_flow E (logged F) a f (w, es) = (r, w')"
    and init: "initialize E (logged F) f (w, es) = (f0, w0)" and g: "g \<in> set (stored (snd w'))"
  shows "g \<in> set (stored es) \<or> pass_ok E f0 g"
proof -
  let ?m = "BuildStatusByName f0"
  have s0: "stored (snd w0) = stored es" using initialize_log [OF init] by simp
  obtain c w1 where col: "collectResults E (logged F) a ?m (fSteps (flStatus f0)) w0 = (c, w1)" by (metis surj_pair)
  have s1: "stored (snd w1) = stored es" using collectResults_log [OF col] s0 by simp
  show ?thesis
  proof (cases c)
    case (Inl e)
    with run init col have "w' = w1" by (simp add: run_flow_def)
    with g s1 show ?thesis by simp
  next
    case (Inr sts)
    let ?f1 = "f0\<lparr>flStatus := (flStatus f0)\<lparr>fSteps := sts\<rparr>\<rparr>"
    let ?l = "loop_stage E ?m ?f1" and ?data = "BuildTemplateData E (ParseOutputJSON E ?f1 ?m) ?m"
    have p1: "pass_ok E f0 ?f1" using collectResults_rel [OF E col [unfolded Inr]] by (rule pass_ok_steps)
    then have m1: "?m = BuildStatusByName ?f1"
      using same_shape_index [of f0 ?f1] by (simp add: pass_ok_def)
    have pl: "pass_ok E ?f1 ?l" using loop_stage_rel [OF E m1] m1 by (simp add: pass_ok_def)
    then have ml: "?m = BuildStatusByName ?l" using m1 same_shape_index [of ?f1 ?l] by (simp add: pass_ok_def)
    obtain e f2 w2 where sub: "submitPendingSteps E (logged F) a ?l ?m ?data w1 = (e, f2, w2)" by (metis prod_cases3)
    then have steps: "submit_steps E (logged F) a ?l ?m ?data (fsSteps (flSpec ?l)) (fSteps (flStatus ?l)) w1
        = (e, fSteps (flStatus f2), w2)"
      by (auto simp: submitPendingSteps_def split: prod.splits)
    have "stored (snd w') = stored (snd w2)"
      using run init col Inr sub
      by (auto simp: run_flow_def Let_def loop_stage_def logged_now_iff split: option.splits prod.splits)
    with g submit_steps_stores [OF ml status_rel_refl steps] s1 show ?thesis
      using pass_ok_trans [OF p1 pass_ok_trans [OF pl]] by auto
  qed
qed

section \<open>A whole reconcile\<close>

lemma flow_guard_Execute:
  assumes "flow_guard E F r req w = (Execute f rdb, r')"
  shows "feGetFlow F w req = Inr f \<and> mDeletionTimestamp (flMeta f) = None \<and>
     isTriggerTemplate F f w = Inr False \<and> ValidateDAG f = None \<and> validateAgents F f w = None \<and>
     \<not> IsTerminalPhase (fPhase (flStatus f)) \<and> getRedis F r = (Some rdb, r')"
  using assms
  by (auto simp: flow_guard_def prod_eq_iff split: sum.splits if_splits option.splits)

text \<open>What the other decisions store is the flow that was read, with another condition or generation.\<close>

definition same_progress :: "ArkFlow \<Rightarrow> ArkFlow \<Rightarrow> bool" where
  "same_progress f g \<longleftrightarrow> flMeta g = flMeta f \<and> flSpec g = flSpec f \<and>
     fSteps (flStatus g) = fSteps (flStatus f) \<and> fPhase (flStatus g) = fPhase (flStatus f) \<and>
     fOutput (flStatus g) = fOutput (flStatus f)"

lemma flow_guard_other:
  assumes "flow_guard E F r req w = (d, r')" and "d = Report g \<or> d = Observe g"
  shows "\<exists>f. feGetFlow F w req = Inr f \<and> same_progress f g"
  using assms
  by (auto simp: flow_guard_def same_progress_def SetCondition_frame observe_def
      split: sum.splits if_splits option.splits)

lemma logged_update_list:
  "update_ignored (logged F) g w = (res, w') \<Longrightarrow>
     stored (snd w') = stored (snd w) @ [g] \<and> submitted (snd w') = submitted (snd w)"
  "update_and_return (logged F) g res0 w = (res, w') \<Longrightarrow>
     stored (snd w') = stored (snd w) @ [g] \<and> submitted (snd w') = submitted (snd w)"
  by (auto simp: update_ignored_def update_and_return_def dest!: logged_update
      split: prod.splits option.splits)

lemma act_quiet:
  "act E (logged F) d w = (res, w') \<Longrightarrow> (\<forall>f rdb. d \<noteq> Execute f rdb) \<Longrightarrow>
     submitted (snd w') = submitted (snd w) \<and>
     set (stored (snd w')) \<subseteq> set (stored (snd w)) \<union> {g. d = Report g \<or> d = Observe g}"
  by (cases d) (auto dest: logged_update_list)

lemma Reconcile_submits:
  assumes "Reconcile E (logged F) r req (w, []) = (res, r', w', es)" and "submitted es \<noteq> []"
  shows "\<exists>f rdb. feGetFlow F w req = Inr f \<and> mDeletionTimestamp (flMeta f) = None \<and>
     isTriggerTemplate F f w = Inr False \<and> ValidateDAG f = None \<and> validateAgents F f w = None \<and>
     \<not> IsTerminalPhase (fPhase (flStatus f)) \<and> getRedis F r = (Some rdb, r')"
proof -
  obtain d where d: "flow_guard E F r req w = (d, r')" and a: "act E (logged F) d (w, []) = (res, w', es)"
    using assms(1) by (auto simp: Reconcile_decides logged_guard split: prod.splits)
  show ?thesis
  proof (cases "\<exists>f rdb. d = Execute f rdb")
    case True
    with d flow_guard_Execute show ?thesis by fast
  next
    case False
    with act_quiet [OF a] assms(2) show ?thesis by simp
  qed
qed

lemma Reconcile_stores:
  assumes E: "range_ok E" and run: "Reconcile E (logged F) r req (w, []) = (res, r', w', es)"
    and g: "g \<in> set (stored es)"
  shows "\<exists>f. feGetFlow F w req = Inr f \<and>
     (same_progress f g \<or> \<not> IsTerminalPhase (fPhase (flStatus f)) \<and> pass_ok E (fst (initialize E F f w)) g)"
proof -
  obtain d where d: "flow_guard E F r req w = (d, r')" and a: "act E (logged F) d (w, []) = (res, w', es)"
    using run by (auto simp: Reconcile_decides logged_guard split: prod.splits)
  show ?thesis
  proof (cases "\<exists>f rdb. d = Execute f rdb")
    case True
    then obtain f rdb where e: "d = Execute f rdb" by blast
    note guard = flow_guard_Execute [OF d [unfolded e]]
    obtain f0 w0 where init: "initialize E F f w = (f0, w0)" by (metis surj_pair)
    from erases_init [of E F f w "[]"] obtain new where initl: "initialize E (logged F) f (w, []) = (f0, w0, new)"
      unfolding init by (rule erasesD) simp
    obtain x w1 where x: "run_flow E (logged F) rdb f (w, []) = (x, w1)" by (metis surj_pair)
    have "pass_ok E f0 g"
    proof (cases x)
      case (Inl err)
      with a e x have "(w', es) = w1" by simp
      with run_flow_stores [OF E x initl] g show ?thesis by auto
    next
      case (Inr f')
      with a e x have "update_and_return (logged F) f'
          (if fPhase (flStatus f') = FlowRunning then \<lparr>RequeueAfter = pipelineRequeueIn\<rparr> else no_requeue) w1 = (res, w', es)"
        by simp
      from logged_update_list(2) [OF this] g have "g \<in> set (stored (snd w1)) \<or> g = f'" by auto
      with run_flow_stores [OF E x initl] run_flow_Inr_pass [OF E x [unfolded Inr] initl]
      show ?thesis by auto
    qed
    with guard init show ?thesis by auto
  next
    case False
    with act_quiet [OF a] g have "d = Report g \<or> d = Observe g" by auto
    from flow_guard_other [OF d this] show ?thesis by blast
  qed
qed

end
