(* ===== verification/FlowResults.thy ===== *)
theory FlowResults
  imports FlowSafety
begin

text \<open>
  What \<open>collectResults\<close> makes of the results stream, entry by entry: a waiting step takes the last
  result that carries its task ID, and a step without one is left as it was.
\<close>

definition result_for :: "redis_msg list \<Rightarrow> string \<Rightarrow> redis_msg option" where
  "result_for msgs tid = find (\<lambda>msg. any_string (rmValues msg ''task_id'') = tid) (rev msgs)"

lemma result_for_Nil [simp]: "result_for [] tid = None"
  by (simp add: result_for_def)

lemma find_append: "find P (xs @ ys) = (case find P xs of None \<Rightarrow> find P ys | Some x \<Rightarrow> Some x)"
  by (induction xs) auto

lemma result_for_Cons:
  "result_for (msg # msgs) tid = (case result_for msgs tid of
     Some r \<Rightarrow> Some r | None \<Rightarrow> if any_string (rmValues msg ''task_id'') = tid then Some msg else None)"
  by (simp add: result_for_def find_append split: option.split)

text \<open>The fields of a finished step that come from its result.\<close>

definition finished_with :: "redis_msg \<Rightarrow> ArkFlowStepStatus \<Rightarrow> bool" where
  "finished_with msg st \<longleftrightarrow> stPhase st = StepSucceeded \<and> stCompletionTime st \<noteq> None \<and>
     stOutput st = any_string (rmValues msg ''result'') \<and>
     (0 < sint (ToInt64 (rmValues msg ''input_tokens'')) \<or> 0 < sint (ToInt64 (rmValues msg ''output_tokens'')) \<longrightarrow>
        stTokenUsage st = Some \<lparr>tuInputTokens = ToInt64 (rmValues msg ''input_tokens''),
          tuOutputTokens = ToInt64 (rmValues msg ''output_tokens''),
          tuTotalTokens = ToInt64 (rmValues msg ''input_tokens'') + ToInt64 (rmValues msg ''output_tokens'')\<rparr>)"

lemma finished_record_result: "finished_with msg (record_result msg now st)"
  by (simp add: finished_with_def record_result_def Let_def)

lemma collect_msgs_other:
  "(\<And>tid. map_of waiting tid \<noteq> Some i) \<Longrightarrow> fst (collect_msgs F waiting msgs sts w) ! i = sts ! i"
proof (induction msgs arbitrary: sts w)
  case Nil
  then show ?case by simp
next
  case (Cons msg msgs)
  have "j \<noteq> i" if "map_of waiting t = Some j" for t j using Cons.prems that by auto
  with Cons show ?case by (auto simp: Let_def split: option.split prod.split)
qed

lemma collect_msgs_nth:
  assumes "\<And>t. map_of waiting t = Some i \<longleftrightarrow> t = tid"
  shows "i < length sts \<Longrightarrow>
    (case result_for msgs tid of
       None \<Rightarrow> fst (collect_msgs F waiting msgs sts w) ! i = sts ! i
     | Some msg \<Rightarrow> finished_with msg (fst (collect_msgs F waiting msgs sts w) ! i))"
proof (induction msgs arbitrary: sts w)
  case Nil
  then show ?case by simp
next
  case (Cons msg msgs)
  let ?t = "any_string (rmValues msg ''task_id'')"
  show ?case
  proof (cases "map_of waiting ?t")
    case None
    with assms [of ?t] Cons show ?thesis by (auto simp: result_for_Cons split: option.splits)
  next
    case (Some j)
    obtain now w1 where now: "feNow F w = (now, w1)" by fastforce
    let ?sts = "update_at j (record_result msg now) sts"
    have "case result_for msgs tid of
        None \<Rightarrow> fst (collect_msgs F waiting msgs ?sts w1) ! i = ?sts ! i
      | Some msg \<Rightarrow> finished_with msg (fst (collect_msgs F waiting msgs ?sts w1) ! i)"
      using Cons by simp
    moreover have "?t = tid \<longleftrightarrow> j = i" using assms [of ?t] Some by auto
    ultimately show ?thesis using Some now Cons.prems
      by (auto simp: result_for_Cons nth_update_at finished_record_result split: option.splits)
  qed
qed

text \<open>No other waiting entry has the task ID of entry \<open>i\<close> (a stream never gives an ID twice).\<close>

definition unique_task :: "ArkFlowStepStatus list \<Rightarrow> nat \<Rightarrow> bool" where
  "unique_task sts i \<longleftrightarrow>
     (\<forall>j < length sts. is_waiting (sts ! j) \<and> stTaskID (sts ! j) = stTaskID (sts ! i) \<longrightarrow> j = i)"

lemma waiting_tasks_lookup:
  assumes "range_ok E" and "i < length sts" and "m (stName (sts ! i)) = Some i" and "is_waiting (sts ! i)"
    and unique: "unique_task sts i"
  shows "map_of (waiting_tasks E m sts) t = Some i \<longleftrightarrow> t = stTaskID (sts ! i)"
proof -
  have mem: "(t, j) \<in> set (waiting_tasks E m sts) \<longleftrightarrow>
      j < length sts \<and> m (stName (sts ! j)) = Some j \<and> is_waiting (sts ! j) \<and> t = stTaskID (sts ! j)" for t j
    using assms(1) by (auto simp: waiting_tasks_def range_ok_nat set_status_entries)
  show ?thesis
  proof
    assume "map_of (waiting_tasks E m sts) t = Some i"
    from map_of_SomeD [OF this] show "t = stTaskID (sts ! i)" by (simp add: mem)
  next
    assume t: "t = stTaskID (sts ! i)"
    with assms mem have "(t, i) \<in> set (waiting_tasks E m sts)" by blast
    then obtain j where j: "map_of (waiting_tasks E m sts) t = Some j"
      by (metis map_of_eq_None_iff not_None_eq fst_conv image_eqI)
    from map_of_SomeD [OF this] t unique have "j = i" by (simp add: mem unique_task_def)
    with j show "map_of (waiting_tasks E m sts) t = Some i" by simp
  qed
qed

lemma collectResults_nth:
  assumes "range_ok E" and "collectResults E F rdb m sts w = (Inr sts', w')" and "feXRange F rdb resultsStream w = Inr msgs"
    and "i < length sts" and "m (stName (sts ! i)) = Some i" and "is_waiting (sts ! i)"
    and "unique_task sts i"
  shows "case result_for msgs (stTaskID (sts ! i)) of
     None \<Rightarrow> sts' ! i = sts ! i | Some msg \<Rightarrow> finished_with msg (sts' ! i)"
proof -
  have look: "map_of (waiting_tasks E m sts) t = Some i \<longleftrightarrow> t = stTaskID (sts ! i)" for t
    using assms(1,4,5,6,7) by (rule waiting_tasks_lookup)
  have "waiting_tasks E m sts \<noteq> []"
  proof
    assume "waiting_tasks E m sts = []"
    with look [of "stTaskID (sts ! i)"] show False by simp
  qed
  with assms(2,3) have "sts' = fst (collect_msgs F (waiting_tasks E m sts) msgs sts w)"
    by (simp add: collectResults_def Let_def split: prod.splits)
  then show ?thesis using collect_msgs_nth [OF look assms(4), where F = F and msgs = msgs and w = w]
    by (simp split: option.splits)
qed

text \<open>A step that does not wait is not touched, whatever the stream holds.\<close>

lemma collectResults_idle:
  assumes "range_ok E" and "collectResults E F rdb m sts w = (Inr sts', w')" and "\<not> is_waiting (sts ! i)"
  shows "sts' ! i = sts ! i"
proof -
  have "map_of (waiting_tasks E m sts) t \<noteq> Some i" for t
    using assms(1,3) by (auto simp: waiting_tasks_def range_ok_nat dest!: map_of_SomeD)
  then have "fst (collect_msgs F (waiting_tasks E m sts) msgs sts w) ! i = sts ! i" for msgs
    by (rule collect_msgs_other)
  with assms(2) show ?thesis
    by (auto simp: collectResults_def Let_def split: if_splits sum.splits redis_error.splits prod.splits) (metis fst_conv)
qed

end
