(* ===== verification/SystemModel.thy ===== *)
theory SystemModel
  imports AgentWorld FlowEffects FlowResults
begin

text \<open>
  The program as a whole: the flow controller and any number of agent pods over one cluster and one
  Redis. A step of the system is a reconcile of some flow, a round or a finished task of some pod, the
  loss of a task that a pod held, or anything that somebody else does. Reads may be stale: all that
  is asked of the API server is that it returns a flow that was stored at some time, and of Redis that
  it returns messages that were added at some time.
\<close>

section \<open>What has been stored\<close>

text \<open>
  The history of the shared state: the messages ever added to the task stream and to the results
  stream, and the flows ever stored.
\<close>

record 'w view =
  vwTasks :: "'w \<Rightarrow> redis_msg set"
  vwResults :: "'w \<Rightarrow> redis_msg set"
  vwFlows :: "'w \<Rightarrow> ArkFlow set"

definition unique_ids :: "redis_msg set \<Rightarrow> bool" where
  "unique_ids S \<longleftrightarrow> (\<forall>x \<in> S. \<forall>y \<in> S. rmID x = rmID y \<longrightarrow> x = y)"

text \<open>
  \<open>grows V R G w w'\<close>: tasks may have been added, under IDs that were never given before; the results added
  are in \<open>R\<close> and the flows stored in \<open>G\<close>.
\<close>

definition grows :: "'w view \<Rightarrow> redis_msg set \<Rightarrow> ArkFlow set \<Rightarrow> 'w \<Rightarrow> 'w \<Rightarrow> bool" where
  "grows V R G w w' \<longleftrightarrow> vwTasks V w \<subseteq> vwTasks V w' \<and> (unique_ids (vwTasks V w) \<longrightarrow> unique_ids (vwTasks V w')) \<and>
     vwResults V w \<subseteq> vwResults V w' \<and> vwResults V w' \<subseteq> vwResults V w \<union> R \<and>
     vwFlows V w' \<subseteq> vwFlows V w \<union> G"

text \<open>What the rest of the cluster does: it may submit tasks and create flows, which have no statuses yet.\<close>

definition quiet :: "'w view \<Rightarrow> 'w \<Rightarrow> 'w \<Rightarrow> bool" where
  "quiet V = grows V {} {f. fSteps (flStatus f) = []}"

section \<open>What Redis and the API server promise\<close>

definition flow_world :: "'w view \<Rightarrow> (any \<Rightarrow> any) \<Rightarrow> string \<Rightarrow> 'w flow_env \<Rightarrow> bool" where
  "flow_world V wire a F \<longleftrightarrow>
     (\<forall>w req f. feGetFlow F w req = Inr f \<longrightarrow> f \<in> vwFlows V w) \<and>
     (\<forall>w f. grows V {} {f} w (snd (feUpdateStatus F f w))) \<and>
     (\<forall>w v. grows V {} {} w (snd (feXAdd F a taskStream v w))) \<and>
     (\<forall>w v tid. fst (feXAdd F a taskStream v w) = Inr tid \<longrightarrow>
        tid \<noteq> [] \<and> stored_msg wire tid v \<in> vwTasks V (snd (feXAdd F a taskStream v w))) \<and>
     (\<forall>w msgs. feXRange F a resultsStream w = Inr msgs \<longrightarrow> set msgs \<subseteq> vwResults V w) \<and>
     (\<forall>w. grows V {} {} w (snd (feNow F w)))"

fun cmd_results :: "(any \<Rightarrow> any) \<Rightarrow> redis_cmd \<Rightarrow> redis_msg set" where
  "cmd_results wire (XAdd s v) = (if s = resultsStream then range (\<lambda>mid. stored_msg wire mid v) else {})"
| "cmd_results wire _ = {}"

definition agent_world :: "'w view \<Rightarrow> (any \<Rightarrow> any) \<Rightarrow> string \<Rightarrow> 'w agent_env \<Rightarrow> bool" where
  "agent_world V wire a A \<longleftrightarrow>
     (\<forall>w c. grows V (cmd_results wire c) {} w (snd (reCmd (aeRedis A) a c w))) \<and>
     (\<forall>w g c. grows V {} {} w (snd (reXReadGroup (aeRedis A) a g c taskStream w))) \<and>
     (\<forall>w g c ms. fst (reXReadGroup (aeRedis A) a g c taskStream w) = Inr ms \<longrightarrow>
        set (concat ms) \<subseteq> vwTasks V w) \<and>
     (\<forall>w rq. quiet V w (snd (heDo (aeHttp A) rq w))) \<and>
     (\<forall>w d. quiet V w (aeWithTimeout A d w))"

section \<open>The system\<close>

record 'w pod =
  pdRunner :: Runner
  pdRun :: "'w provider"
  pdOwn :: "'w \<Rightarrow> 'w \<Rightarrow> bool" \<comment> \<open>what a call to its LLM API may do\<close>
  pdQueue :: Queue

text \<open>A pod as \<open>main\<close> sets it up, with a provider that acts through its three channels only.\<close>

definition pod_ok :: "'w view \<Rightarrow> string \<Rightarrow> 'w pod \<Rightarrow> bool" where
  "pod_ok V a p \<longleftrightarrow> qRdb (pdQueue p) = a \<and> qStream (pdQueue p) = taskStream \<and>
     (rnQueue (pdRunner p) = None \<or> rnQueue (pdRunner p) = Some (pdQueue p)) \<and>
     sealed_provider (pdRun p) (pdOwn p) \<and> (\<forall>w w'. pdOwn p w w' \<longrightarrow> quiet V w w')"

record ('p, 'w) sys =
  syReconciler :: ArkFlowReconciler
  syHeld :: "'p \<Rightarrow> Task list"
  syWorld :: 'w

inductive sys_step ::
  "ext \<Rightarrow> 'w flow_env \<Rightarrow> 'w agent_env \<Rightarrow> 'w view \<Rightarrow> ('p \<Rightarrow> 'w pod) \<Rightarrow> ('p, 'w) sys \<Rightarrow> ('p, 'w) sys \<Rightarrow> bool"
  for E F A V pods where
  reconciled: "Reconcile E F (syReconciler s) req (syWorld s) = (res, r', w') \<Longrightarrow>
     sys_step E F A V pods s (s\<lparr>syReconciler := r', syWorld := w'\<rparr>)"
| agent: "agent_step A (pdRunner (pods p)) (pdRun (pods p)) (pdQueue (pods p)) (syHeld s p, syWorld s) (ts', w') \<Longrightarrow>
     sys_step E F A V pods s (s\<lparr>syHeld := (syHeld s)(p := ts'), syWorld := w'\<rparr>)"
| lost: "syHeld s p = us @ t # vs \<Longrightarrow> sys_step E F A V pods s (s\<lparr>syHeld := (syHeld s)(p := us @ vs)\<rparr>)"
| elsewhere: "quiet V (syWorld s) w' \<Longrightarrow> sys_step E F A V pods s (s\<lparr>syWorld := w'\<rparr>)"

text \<open>At the start there are no results, the flows have no statuses, and the flow controller's client, if it
  has one, is for the Redis of the pods.\<close>

definition sys_start :: "'w view \<Rightarrow> 'w flow_env \<Rightarrow> string \<Rightarrow> ('p, 'w) sys \<Rightarrow> bool" where
  "sys_start V F a s \<longleftrightarrow> unique_ids (vwTasks V (syWorld s)) \<and> vwResults V (syWorld s) = {} \<and>
     (\<forall>f \<in> vwFlows V (syWorld s). fSteps (flStatus f) = []) \<and> (\<forall>p. syHeld s p = []) \<and>
     fst (getRedis F (syReconciler s)) \<in> {None, Some a}"

section \<open>The invariant\<close>

text \<open>Some pod ran task \<open>t\<close> and its provider answered \<open>x\<close>.\<close>

definition answered :: "'w agent_env \<Rightarrow> ('p \<Rightarrow> 'w pod) \<Rightarrow> Task \<Rightarrow> string \<Rightarrow> bool" where
  "answered A pods t x \<longleftrightarrow>
     (\<exists>p w usage w'. RunTask A (pdRunner (pods p)) (pdRun (pods p)) t w = Some ((x, usage, None), w'))"

definition result_ok :: "'w view \<Rightarrow> 'w agent_env \<Rightarrow> ('p \<Rightarrow> 'w pod) \<Rightarrow> 'w \<Rightarrow> redis_msg \<Rightarrow> bool" where
  "result_ok V A pods w r \<longleftrightarrow>
     (\<exists>msg \<in> vwTasks V w. rmID msg = any_string (rmValues r ''task_id'') \<and>
        answered A pods (task_of_msg msg) (any_string (rmValues r ''result'')))"

text \<open>A message that asks for what a step of the flow \<open>f\<close> of the given name asks for.\<close>

definition prompt_of :: "ext \<Rightarrow> ArkFlow \<Rightarrow> string \<Rightarrow> string \<Rightarrow> bool" where
  "prompt_of E f n prompt \<longleftrightarrow>
     (\<exists>step \<in> set (fsSteps (flSpec f)). \<exists>mid. sName step = n \<and> same_shape mid f \<and>
        ResolvePrompt E step (BuildTemplateData E mid (BuildStatusByName mid)) = Inr prompt)"

definition entry_ok :: "'w view \<Rightarrow> ext \<Rightarrow> 'w \<Rightarrow> ArkFlow \<Rightarrow> ArkFlowStepStatus \<Rightarrow> bool" where
  "entry_ok V E w f st \<longleftrightarrow>
     (stTaskID st \<noteq> [] \<longrightarrow> (\<exists>msg \<in> vwTasks V w. rmID msg = stTaskID st \<and>
        prompt_of E f (stName st) (tkPrompt (task_of_msg msg)))) \<and>
     (stPhase st = StepSucceeded \<longrightarrow> stTaskID st \<noteq> [] \<and>
        (\<exists>r \<in> vwResults V w. any_string (rmValues r ''task_id'') = stTaskID st \<and>
           any_string (rmValues r ''result'') = stOutput st))"

definition flow_ok :: "'w view \<Rightarrow> ext \<Rightarrow> 'w \<Rightarrow> ArkFlow \<Rightarrow> bool" where
  "flow_ok V E w f \<longleftrightarrow> list_all (entry_ok V E w f) (fSteps (flStatus f))"

definition world_ok :: "'w view \<Rightarrow> ext \<Rightarrow> 'w agent_env \<Rightarrow> ('p \<Rightarrow> 'w pod) \<Rightarrow> 'w \<Rightarrow> bool" where
  "world_ok V E A pods w \<longleftrightarrow> unique_ids (vwTasks V w) \<and> (\<forall>r \<in> vwResults V w. result_ok V A pods w r) \<and>
     (\<forall>f \<in> vwFlows V w. flow_ok V E w f)"

definition sys_inv ::
  "'w view \<Rightarrow> ext \<Rightarrow> 'w flow_env \<Rightarrow> 'w agent_env \<Rightarrow> ('p \<Rightarrow> 'w pod) \<Rightarrow> string \<Rightarrow> ('p, 'w) sys \<Rightarrow> bool" where
  "sys_inv V E F A pods a s \<longleftrightarrow> world_ok V E A pods (syWorld s) \<and>
     (\<forall>p. set (syHeld s p) \<subseteq> task_of_msg ` vwTasks V (syWorld s)) \<and>
     fst (getRedis F (syReconciler s)) \<in> {None, Some a}"

section \<open>Growth\<close>

lemma grows_refl [simp]: "grows V R G w w"
  by (simp add: grows_def)

lemma grows_mono: "grows V R G w w' \<Longrightarrow> R \<subseteq> R' \<Longrightarrow> G \<subseteq> G' \<Longrightarrow> grows V R' G' w w'"
  by (auto simp: grows_def)

lemma grows_trans [trans]: "grows V R G w w1 \<Longrightarrow> grows V R G w1 w2 \<Longrightarrow> grows V R G w w2"
  unfolding grows_def by blast

lemma grows_none: "grows V {} {} w w' \<Longrightarrow> grows V R G w w'"
  by (rule grows_mono) auto

lemma entry_ok_grows: "grows V R G w w' \<Longrightarrow> entry_ok V E w f st \<Longrightarrow> entry_ok V E w' f st"
  unfolding grows_def entry_ok_def by blast

lemma flow_ok_grows: "grows V R G w w' \<Longrightarrow> flow_ok V E w f \<Longrightarrow> flow_ok V E w' f"
  unfolding flow_ok_def by (auto simp: list_all_iff entry_ok_grows)

lemma result_ok_grows: "grows V R G w w' \<Longrightarrow> result_ok V A pods w r \<Longrightarrow> result_ok V A pods w' r"
  unfolding grows_def result_ok_def by blast

text \<open>Growth by good results and good flows keeps the world good.\<close>

lemma world_ok_grows:
  assumes "grows V R G w w'" and "world_ok V E A pods w"
    and "\<And>r. r \<in> R \<Longrightarrow> result_ok V A pods w r" and "\<And>f. f \<in> G \<Longrightarrow> flow_ok V E w f"
  shows "world_ok V E A pods w'"
proof -
  have "result_ok V A pods w r" if "r \<in> vwResults V w'" for r
    using that assms by (auto simp: grows_def world_ok_def)
  moreover have "flow_ok V E w f" if "f \<in> vwFlows V w'" for f
    using that assms by (auto simp: grows_def world_ok_def)
  ultimately show ?thesis
    using assms(1,2) by (auto simp: world_ok_def intro: result_ok_grows flow_ok_grows) (simp add: grows_def)
qed

lemma world_ok_quiet: "quiet V w w' \<Longrightarrow> world_ok V E A pods w \<Longrightarrow> world_ok V E A pods w'"
  unfolding quiet_def by (erule world_ok_grows) (auto simp: flow_ok_def)

lemma prompt_of_shape: "same_shape f g \<Longrightarrow> prompt_of E f n prompt \<longleftrightarrow> prompt_of E g n prompt"
  by (simp add: prompt_of_def same_shape_def)

lemma entry_ok_shape: "same_shape f g \<Longrightarrow> entry_ok V E w f st \<longleftrightarrow> entry_ok V E w g st"
  by (simp add: entry_ok_def prompt_of_shape)

lemma list_all_update_at:
  "list_all P xs \<Longrightarrow> (i < length xs \<Longrightarrow> P (xs ! i) \<Longrightarrow> P (g (xs ! i))) \<Longrightarrow> list_all P (update_at i g xs)"
  by (auto simp: list_all_length nth_update_at)

end
