(* ===== verification/SystemSafety.thy ===== *)
theory SystemSafety
  imports SystemModel
begin

text \<open>
  Every step of the system keeps its invariant: results are answers to tasks, and the statuses of every
  flow that was ever stored refer to tasks and results of their own steps.
\<close>

section \<open>The flow package\<close>

lemma record_result_entry:
  assumes "entry_ok V E w f st" and "stTaskID st \<noteq> []" and "msg \<in> vwResults V w"
    and "any_string (rmValues msg ''task_id'') = stTaskID st"
  shows "entry_ok V E w f (record_result msg now st)"
  using assms by (auto simp: entry_ok_def record_result_def Let_def)

lemma parse_output_entry: "entry_ok V E w f st \<Longrightarrow> entry_ok V E w f (parse_output E' schemas st)"
  by (auto simp: entry_ok_def parse_output_def Let_def split: sum.splits)

lemma eval_loop_entry: "entry_ok V E w f st \<Longrightarrow> entry_ok V E w f (eval_loop E' data lp st)"
  by (auto simp: entry_ok_def eval_loop_def loop_reset_def split: sum.splits)

lemma flow_ok_ParseOutputJSON:
  assumes "flow_ok V E w f"
  shows "flow_ok V E w (ParseOutputJSON E f m)"
proof -
  have "list_all (entry_ok V E w f) (fold (\<lambda>i. update_at i (parse_output E schemas)) is sts)"
    if "list_all (entry_ok V E w f) sts" for schemas "is" sts
    using that by (induction "is" arbitrary: sts) (auto intro: list_all_update_at parse_output_entry)
  then show ?thesis
    using assms entry_ok_shape [OF same_shape_ParseOutputJSON]
    by (fastforce simp: flow_ok_def list_all_iff ParseOutputJSON_def Let_def)
qed

lemma flow_ok_EvaluateLoops:
  assumes "flow_ok V E w f"
  shows "flow_ok V E w (EvaluateLoops E f m data)"
proof -
  have "list_all (entry_ok V E w f) (eval_loop_step E m data s sts)"
    if "list_all (entry_ok V E w f) sts" for s sts
    using that by (auto simp: eval_loop_step_def split: option.splits intro: list_all_update_at eval_loop_entry)
  then have "list_all (entry_ok V E w f) (fold (eval_loop_step E m data) steps sts)"
    if "list_all (entry_ok V E w f) sts" for steps sts
    using that by (induction steps arbitrary: sts) auto
  then show ?thesis
    using assms entry_ok_shape [OF same_shape_EvaluateLoops]
    by (fastforce simp: flow_ok_def list_all_iff EvaluateLoops_def)
qed

lemma flow_ok_shape:
  "same_shape f g \<Longrightarrow> fSteps (flStatus g) = fSteps (flStatus f) \<Longrightarrow> flow_ok V E w g \<longleftrightarrow> flow_ok V E w f"
  by (simp add: flow_ok_def entry_ok_shape list_all_iff)

section \<open>Collecting\<close>

lemma collect_msgs_ok:
  assumes F: "flow_world V wire a F"
  shows "list_all (entry_ok V E w f) sts \<Longrightarrow> set msgs \<subseteq> vwResults V w \<Longrightarrow>
     (\<forall>(t, i) \<in> set waiting. t \<noteq> [] \<and> i < length sts \<and> stTaskID (sts ! i) = t) \<Longrightarrow>
     collect_msgs F waiting msgs sts w = (sts', w') \<Longrightarrow>
     grows V {} {} w w' \<and> list_all (entry_ok V E w' f) sts'"
proof (induction msgs arbitrary: sts w)
  case Nil
  then show ?case by simp
next
  case (Cons msg msgs)
  let ?t = "any_string (rmValues msg ''task_id'')"
  show ?case
  proof (cases "map_of waiting ?t")
    case None
    with Cons show ?thesis by simp
  next
    case (Some i)
    obtain now w1 where now: "feNow F w = (now, w1)" by fastforce
    with F have g: "grows V {} {} w w1" by (metis flow_world_def snd_conv)
    let ?sts = "update_at i (record_result msg now) sts"
    from map_of_SomeD [OF Some] Cons.prems(3) have i: "?t \<noteq> []" "i < length sts" "stTaskID (sts ! i) = ?t" by auto
    have "list_all (entry_ok V E w f) ?sts"
      using Cons.prems(1,2) i by (intro list_all_update_at) (auto intro: record_result_entry)
    then have "list_all (entry_ok V E w1 f) ?sts" using g by (auto simp: list_all_iff entry_ok_grows)
    moreover have "\<forall>(t, j) \<in> set waiting. t \<noteq> [] \<and> j < length ?sts \<and> stTaskID (?sts ! j) = t"
      using Cons.prems(3) by (auto simp: nth_update_at record_result_def Let_def)
    moreover have "set msgs \<subseteq> vwResults V w1" using Cons.prems(2) g by (auto simp: grows_def)
    moreover have "collect_msgs F waiting msgs ?sts w1 = (sts', w')" using Cons.prems(4) Some now by simp
    ultimately have "grows V {} {} w1 w' \<and> list_all (entry_ok V E w' f) sts'" by (intro Cons.IH) auto
    with g show ?thesis by (blast intro: grows_trans)
  qed
qed

lemma collectResults_ok:
  assumes F: "flow_world V wire a F" and E: "range_ok E"
    and sts: "list_all (entry_ok V E w f) sts" and run: "collectResults E F a m sts w = (r, w')"
  shows "grows V {} {} w w' \<and> (\<forall>sts'. r = Inr sts' \<longrightarrow> list_all (entry_ok V E w' f) sts')"
proof -
  have waiting: "\<forall>(t, i) \<in> set (waiting_tasks E m sts). t \<noteq> [] \<and> i < length sts \<and> stTaskID (sts ! i) = t"
    using E by (auto simp: waiting_tasks_def is_waiting_def range_ok_nat set_status_entries)
  show ?thesis
  proof (cases "waiting_tasks E m sts = [] \<or> isl (feXRange F a resultsStream w)")
    case True
    with run sts show ?thesis
      by (auto simp: collectResults_def Let_def isl_def split: redis_error.splits if_splits)
  next
    case False
    then obtain msgs where x: "feXRange F a resultsStream w = Inr msgs" by (cases "feXRange F a resultsStream w") auto
    with F have "set msgs \<subseteq> vwResults V w" by (metis flow_world_def)
    from collect_msgs_ok [OF F sts this waiting] False x run show ?thesis
      by (auto simp: collectResults_def Let_def split: prod.splits)
  qed
qed

section \<open>Submitting\<close>

lemma task_prompt [simp]: "wire_ok wire \<Longrightarrow> tkPrompt (task_of_msg (stored_msg wire tid (task_values prompt key))) = prompt"
  by (simp add: task_of_msg_def stored_msg_def task_values_def Let_def wire_ok_def)

lemma submitTask_ok:
  assumes "flow_world V wire a F" and "wire_ok wire" and "submitTask F a prompt key w = (r, w')"
  shows "grows V {} {} w w' \<and> (\<forall>tid. r = Inr tid \<longrightarrow> tid \<noteq> [] \<and>
     (\<exists>msg \<in> vwTasks V w'. rmID msg = tid \<and> tkPrompt (task_of_msg msg) = prompt))"
proof -
  obtain x where x: "feXAdd F a taskStream (task_values prompt key) w = (x, w')"
    using assms(3) by (auto simp: submitTask_def split: prod.splits sum.splits)
  with assms(1) have "grows V {} {} w w'" by (metis flow_world_def snd_conv)
  moreover have "tid \<noteq> [] \<and> stored_msg wire tid (task_values prompt key) \<in> vwTasks V w'" if "r = Inr tid" for tid
  proof -
    from that x assms(3) have "fst (feXAdd F a taskStream (task_values prompt key) w) = Inr tid"
      by (auto simp: submitTask_def split: sum.splits)
    with assms(1) x show ?thesis unfolding flow_world_def by (metis snd_conv)
  qed
  moreover have "rmID (stored_msg wire tid v) = tid" for tid v by (simp add: stored_msg_def)
  ultimately show ?thesis using task_prompt [OF assms(2)] by blast
qed

section \<open>Advancing\<close>

text \<open>A change of the world that keeps what is there and does not break the invariant.\<close>

definition advances :: "'w view \<Rightarrow> ext \<Rightarrow> 'w agent_env \<Rightarrow> ('p \<Rightarrow> 'w pod) \<Rightarrow> 'w \<Rightarrow> 'w \<Rightarrow> bool" where
  "advances V E A pods w w' \<longleftrightarrow> grows V UNIV UNIV w w' \<and> (world_ok V E A pods w \<longrightarrow> world_ok V E A pods w')"

lemma advances_refl [simp]: "advances V E A pods w w"
  by (simp add: advances_def)

lemma advances_trans [trans]: "advances V E A pods w w1 \<Longrightarrow> advances V E A pods w1 w2 \<Longrightarrow> advances V E A pods w w2"
  unfolding advances_def by (blast intro: grows_trans)

lemma advances_by:
  "grows V R G w w' \<Longrightarrow> (\<And>r. r \<in> R \<Longrightarrow> result_ok V A pods w r) \<Longrightarrow> (\<And>f. f \<in> G \<Longrightarrow> flow_ok V E w f) \<Longrightarrow>
     advances V E A pods w w'"
  unfolding advances_def by (blast intro: grows_mono world_ok_grows)

lemma advances_none: "grows V {} {} w w' \<Longrightarrow> advances V E A pods w w'"
  by (rule advances_by) auto

lemma advances_quiet: "quiet V w w' \<Longrightarrow> advances V E A pods w w'"
  unfolding quiet_def by (erule advances_by) (auto simp: flow_ok_def)

lemma advances_flow_ok: "advances V E A pods w w' \<Longrightarrow> flow_ok V E w f \<Longrightarrow> flow_ok V E w' f"
  unfolding advances_def by (blast intro: flow_ok_grows)

lemma advances_entries:
  "advances V E A pods w w' \<Longrightarrow> list_all (entry_ok V E w f) sts \<Longrightarrow> list_all (entry_ok V E w' f) sts"
  unfolding advances_def by (auto simp: list_all_iff intro: entry_ok_grows)

lemma advances_update:
  "flow_world V wire a F \<Longrightarrow> flow_ok V E w f \<Longrightarrow> advances V E A pods w (snd (feUpdateStatus F f w))"
  by (rule advances_by [where R = "{}" and G = "{f}"]) (auto simp: flow_world_def)

lemma advances_now: "flow_world V wire a F \<Longrightarrow> advances V E A pods w (snd (feNow F w))"
  by (rule advances_none) (auto simp: flow_world_def)

lemma with_steps_ok:
  "map stName sts = map stName (fSteps (flStatus f)) \<Longrightarrow>
     flow_ok V E w (f\<lparr>flStatus := (flStatus f)\<lparr>fSteps := sts\<rparr>\<rparr>) \<longleftrightarrow> list_all (entry_ok V E w f) sts"
  using entry_ok_shape [OF with_steps_shape, of sts f V E w] by (auto simp: flow_ok_def list_all_iff)

text \<open>One round of the submitting loop, over template data of the flow.\<close>

lemma mark_entry:
  "entry_ok V E w f st \<Longrightarrow> entry_ok V E w f (mark_skipped now st)"
  "entry_ok V E w f st \<Longrightarrow> entry_ok V E w f (mark_input_error now err st)"
  by (auto simp: entry_ok_def mark_defs)

lemma mark_submitted_entry:
  "msg \<in> vwTasks V w \<Longrightarrow> rmID msg = tid \<Longrightarrow> prompt_of E f (stName st) (tkPrompt (task_of_msg msg)) \<Longrightarrow>
     entry_ok V E w f (mark_submitted now tid st)"
  by (auto simp: entry_ok_def mark_defs)

lemma submit_step_ok:
  assumes F: "flow_world V wire a F" and wire: "wire_ok wire"
    and index: "status_index m (map stName (fSteps (flStatus f)))"
    and names: "map stName sts = map stName (fSteps (flStatus f))" and step: "step \<in> set (fsSteps (flSpec f))"
    and data: "data = BuildTemplateData E mid (BuildStatusByName mid)" "same_shape mid f"
    and ok: "list_all (entry_ok V E w f) sts" and run: "submit_step E F a f m data step sts w = (err, sts', w')"
  shows "advances V E A pods w w' \<and> list_all (entry_ok V E w' f) sts'"
proof -
  have at_once: ?thesis if "feNow F w = (now, w')" and "sts' = update_at i g sts"
    and "\<And>st. entry_ok V E w f st \<Longrightarrow> entry_ok V E w f (g st)" for now i g
  proof -
    from that(1) have a: "advances V E A pods w w'" using advances_now [OF F] by (metis snd_conv)
    have "list_all (entry_ok V E w f) sts'" using that(3) ok unfolding that(2) by (intro list_all_update_at)
    with a show ?thesis by (blast intro: advances_entries)
  qed
  show ?thesis
  proof (cases "m (sName step)")
    case None
    with run ok show ?thesis by (simp add: submit_step_def)
  next
    case (Some i)
    note ptr = status_index.pointer [OF index Some names]
    consider (idle) "err = None" "sts' = sts" "w' = w"
      | (quick) now g where "feNow F w = (now, w')" "sts' = update_at i g sts" "g = mark_skipped now \<or> (\<exists>e. g = mark_input_error now e)"
      | (asked) prompt r w1 where "ResolvePrompt E step data = Inr prompt" "submitTask F a prompt (stream_key f) w = (r, w1)"
         "case r of Inl e \<Rightarrow> sts' = sts \<and> w' = snd (feUpdateStatus F (f\<lparr>flStatus := (flStatus f)\<lparr>fSteps := sts\<rparr>\<rparr>) w1)
          | Inr tid \<Rightarrow> \<exists>now. feNow F w1 = (now, w') \<and> sts' = update_at i (mark_submitted now tid) sts"
      using run Some by (auto simp: submit_step_def Let_def split: if_splits sum.splits prod.splits)
    then show ?thesis
    proof cases
      case idle
      with ok show ?thesis by simp
    next
      case quick
      have "entry_ok V E w f (g st)" if "entry_ok V E w f st" for st
        using quick(3) that by (auto intro: mark_entry)
      from at_once [OF quick(1,2) this] show ?thesis .
    next
      case asked
      note sub = submitTask_ok [OF F wire asked(2)]
      then have a1: "advances V E A pods w w1" by (blast intro: advances_none)
      then have ok1: "list_all (entry_ok V E w1 f) sts" using ok by (rule advances_entries)
      show ?thesis
      proof (cases r)
        case (Inl e)
        from ok1 with_steps_ok [OF names, of V E w1]
        have "flow_ok V E w1 (f\<lparr>flStatus := (flStatus f)\<lparr>fSteps := sts\<rparr>\<rparr>)" by simp
        from advances_update [OF F this, of A pods] asked(3) Inl have "advances V E A pods w1 w'" by simp
        with a1 ok1 asked(3) Inl show ?thesis by (auto intro: advances_trans advances_entries)
      next
        case (Inr tid)
        with asked(3) obtain now where now: "feNow F w1 = (now, w')" and sts': "sts' = update_at i (mark_submitted now tid) sts" by auto
        have a2: "advances V E A pods w1 w'" using advances_now [OF F, of E A pods w1] now by simp
        from sub Inr obtain msg where msg: "msg \<in> vwTasks V w1" "rmID msg = tid" "tkPrompt (task_of_msg msg) = prompt" by auto
        have "prompt_of E f (sName step) prompt"
          using step data asked(1) unfolding prompt_of_def by blast
        with msg ptr have "list_all (entry_ok V E w1 f) sts'"
          unfolding sts' by (intro list_all_update_at ok1) (auto intro: mark_submitted_entry)
        with a1 a2 show ?thesis by (blast intro: advances_trans advances_entries)
      qed
    qed
  qed
qed

lemma submit_steps_ok:
  assumes F: "flow_world V wire a F" and wire: "wire_ok wire" and E: "range_ok E"
    and index: "status_index m (map stName (fSteps (flStatus f)))"
    and data: "data = BuildTemplateData E mid (BuildStatusByName mid)" "same_shape mid f"
  shows "set steps \<subseteq> set (fsSteps (flSpec f)) \<Longrightarrow> map stName sts = map stName (fSteps (flStatus f)) \<Longrightarrow>
     list_all (entry_ok V E w f) sts \<Longrightarrow> submit_steps E F a f m data steps sts w = (err, sts', w') \<Longrightarrow>
     advances V E A pods w w' \<and> list_all (entry_ok V E w' f) sts'"
proof (induction steps arbitrary: sts w)
  case Nil
  then show ?case by simp
next
  case (Cons step steps)
  obtain e1 sts1 w1 where one: "submit_step E F a f m data step sts w = (e1, sts1, w1)" by (metis prod_cases3)
  have step: "step \<in> set (fsSteps (flSpec f))" using Cons.prems(1) by simp
  note ok1 = submit_step_ok [OF F wire index Cons.prems(2) step data Cons.prems(3) one, of A pods]
  have names: "map stName sts1 = map stName (fSteps (flStatus f))"
    using status_rel_names [OF submit_step_rel [OF index Cons.prems(2) one, of "name_limit (fsSteps (flSpec f))"]]
      Cons.prems(2) by simp
  show ?case
  proof (cases e1)
    case (Some e)
    with one Cons.prems(4) ok1 show ?thesis by auto
  next
    case None
    with one Cons.prems(4) have rest: "submit_steps E F a f m data steps sts1 w1 = (err, sts', w')" by simp
    have "set steps \<subseteq> set (fsSteps (flSpec f))" using Cons.prems(1) by simp
    from Cons.IH [OF this names _ rest] ok1 show ?thesis by (blast intro: advances_trans)
  qed
qed

section \<open>A pass\<close>

lemma initialize_ok:
  assumes "flow_world V wire a F" and "initialize E F f w = (f0, w0)" and "flow_ok V E w f"
  shows "advances V E A pods w w0 \<and> flow_ok V E w0 f0"
proof (cases "fPhase (flStatus f) = FlowEmpty")
  case True
  then have "w0 = snd (feNow F w)" using assms(2) by (auto simp: initialize_def split: prod.splits)
  with advances_now [OF assms(1)] have "advances V E A pods w w0" by simp
  moreover have "flow_ok V E w0 f0"
    using initialize_shape(5) [OF assms(2) True]
    by (auto simp: flow_ok_def list_all_iff entry_ok_def pending_status_def)
  ultimately show ?thesis ..
next
  case False
  with initialize_shape(4) [OF assms(2)] assms(3) show ?thesis by simp
qed

lemma run_flow_ok:
  assumes F: "flow_world V wire a F" and wire: "wire_ok wire" and E: "range_ok E"
    and f: "flow_ok V E w f" and run: "run_flow E F a f w = (r, w')"
  shows "advances V E A pods w w' \<and> (\<forall>g. r = Inr g \<longrightarrow> flow_ok V E w' g)"
proof -
  obtain f0 w0 where init: "initialize E F f w = (f0, w0)" by (metis surj_pair)
  let ?m = "BuildStatusByName f0"
  note ok0 = initialize_ok [OF F init f, of A pods]
  then have e0: "list_all (entry_ok V E w0 f0) (fSteps (flStatus f0))" by (simp add: flow_ok_def)
  obtain c w1 where col: "collectResults E F a ?m (fSteps (flStatus f0)) w0 = (c, w1)" by (metis surj_pair)
  note colok = collectResults_ok [OF F E e0 col]
  then have a1: "advances V E A pods w w1" using ok0 by (blast intro: advances_none advances_trans)
  show ?thesis
  proof (cases c)
    case (Inl e)
    with run init col a1 show ?thesis by (auto simp: run_flow_def)
  next
    case (Inr sts)
    let ?f1 = "f0\<lparr>flStatus := (flStatus f0)\<lparr>fSteps := sts\<rparr>\<rparr>"
    let ?p = "ParseOutputJSON E ?f1 ?m"
    let ?data = "BuildTemplateData E ?p ?m"
    let ?l = "EvaluateLoops E ?p ?m ?data"
    have s1: "same_shape f0 ?f1"
      using status_rel_names [OF collectResults_rel [OF E col [unfolded Inr]]] by (rule with_steps_shape)
    then have "map stName sts = map stName (fSteps (flStatus f0))" by (simp add: same_shape_def)
    with colok Inr with_steps_ok [of sts f0 V E w1] have "flow_ok V E w1 ?f1" by simp
    then have okl: "flow_ok V E w1 ?l" by (intro flow_ok_EvaluateLoops flow_ok_ParseOutputJSON)
    have p: "same_shape f0 ?p" using s1 same_shape_ParseOutputJSON by (rule same_shape_trans)
    have pl: "same_shape ?p ?l" by (rule same_shape_EvaluateLoops)
    have mp: "BuildStatusByName ?p = ?m" by (rule same_shape_index [OF p])
    have ml: "?m = BuildStatusByName ?l" using same_shape_index [OF pl] mp by simp
    have index: "status_index ?m (map stName (fSteps (flStatus ?l)))"
      using by_name.status_index_axioms [of ?l] unfolding ml [symmetric] .
    obtain err f2 w2 where sub: "submitPendingSteps E F a ?l ?m ?data w1 = (err, f2, w2)" by (metis prod_cases3)
    then obtain sts2 where steps: "submit_steps E F a ?l ?m ?data (fsSteps (flSpec ?l)) (fSteps (flStatus ?l)) w1 = (err, sts2, w2)"
      and f2: "f2 = ?l\<lparr>flStatus := (flStatus ?l)\<lparr>fSteps := sts2\<rparr>\<rparr>"
      by (auto simp: submitPendingSteps_def split: prod.splits)
    have data: "?data = BuildTemplateData E ?p (BuildStatusByName ?p)" by (simp add: mp)
    note sok = submit_steps_ok [OF F wire E index data pl order_refl refl okl [unfolded flow_ok_def] steps, of A pods]
    with a1 have a2: "advances V E A pods w w2" by (blast intro: advances_trans)
    have n2: "map stName sts2 = map stName (fSteps (flStatus ?l))"
      using submitPendingSteps_rel [OF ml sub] f2 by (simp add: same_shape_def)
    show ?thesis
    proof (cases err)
      case (Some e)
      with run init col Inr sub a2 show ?thesis by (auto simp: run_flow_def Let_def)
    next
      case None
      obtain now w3 where now: "feNow F w2 = (now, w3)" by fastforce
      with run init col Inr sub None
      have w': "w' = w3" and r: "r = Inr (observe (UpdateFlowPhase E f2 ?data now))"
        by (auto simp: run_flow_def Let_def)
      have a3: "advances V E A pods w2 w'" using advances_now [OF F, of E A pods w2] now w' by simp
      have "flow_ok V E w2 f2" using sok with_steps_ok [OF n2, of V E w2] unfolding f2 by blast
      with a3 have ok2: "flow_ok V E w' f2" by (rule advances_flow_ok)
      let ?g = "observe (UpdateFlowPhase E f2 ?data now)"
      have g: "same_shape f2 ?g" by (simp add: same_shape_def observe_frame UpdateFlowPhase_frame)
      have "fSteps (flStatus ?g) = fSteps (flStatus f2)" by (simp add: observe_frame UpdateFlowPhase_frame)
      from flow_ok_shape [OF g this, of V E w'] ok2 have "flow_ok V E w' ?g" by blast
      with a2 a3 r show ?thesis by (auto intro: advances_trans)
    qed
  qed
qed

section \<open>A reconcile\<close>

lemma act_ok:
  assumes F: "flow_world V wire a F" and wire: "wire_ok wire" and E: "range_ok E"
    and d: "\<And>g. d = Report g \<or> d = Observe g \<Longrightarrow> flow_ok V E w g"
      "\<And>f rdb. d = Execute f rdb \<Longrightarrow> flow_ok V E w f \<and> rdb = a"
    and act: "act E F d w = (res, w')"
  shows "advances V E A pods w w'"
proof (cases d)
  case (Execute f rdb)
  with d have f: "flow_ok V E w f" and rdb: "rdb = a" by auto
  obtain r w1 where run: "run_flow E F a f w = (r, w1)" by (metis surj_pair)
  note ok = run_flow_ok [OF F wire E f run, of A pods]
  show ?thesis
  proof (cases r)
    case (Inl e)
    with ok act Execute rdb run show ?thesis by simp
  next
    case (Inr g)
    have "w' = snd (feUpdateStatus F g w1)"
      using Inr act Execute rdb run by (auto simp: update_and_return_def split: prod.splits option.splits)
    moreover from ok Inr have "advances V E A pods w w1" "flow_ok V E w1 g" by auto
    ultimately show ?thesis using advances_update [OF F \<open>flow_ok V E w1 g\<close>, of A pods] by (auto intro: advances_trans)
  qed
next
  case (Report g)
  with act have "w' = snd (feUpdateStatus F g w)" by (auto simp: update_ignored_def split: prod.splits)
  with advances_update [OF F d(1), of g A pods] Report show ?thesis by simp
next
  case (Observe g)
  with act have "w' = snd (feUpdateStatus F g w)"
    by (auto simp: update_and_return_def split: prod.splits option.splits)
  with advances_update [OF F d(1), of g A pods] Observe show ?thesis by simp
qed (use act in simp)

lemma Reconcile_ok:
  assumes F: "flow_world V wire a F" and wire: "wire_ok wire" and E: "range_ok E"
    and w: "world_ok V E A pods w" and redis: "fst (getRedis F r) \<in> {None, Some a}"
    and run: "Reconcile E F r req w = (res, r', w')"
  shows "advances V E A pods w w' \<and> fst (getRedis F r') \<in> {None, Some a}"
proof -
  obtain d where d: "flow_guard E F r req w = (d, r')" and act: "act E F d w = (res, w')"
    using run by (auto simp: Reconcile_decides split: prod.splits)
  have read: "flow_ok V E w f" if "feGetFlow F w req = Inr f" for f
    using that w F by (auto simp: world_ok_def flow_world_def)
  have "flow_ok V E w g" if "d = Report g \<or> d = Observe g" for g
  proof -
    from flow_guard_other [OF d that] obtain f where f: "feGetFlow F w req = Inr f" "same_progress f g" by blast
    then have "same_shape f g" by (simp add: same_progress_def same_shape_def)
    from flow_ok_shape [OF this, of V E w] read [OF f(1)] f(2) show ?thesis by (simp add: same_progress_def)
  qed
  moreover have "flow_ok V E w f \<and> rdb = a" if "d = Execute f rdb" for f rdb
    using flow_guard_Execute [OF d [unfolded that]] read redis by auto
  ultimately have "advances V E A pods w w'" by (intro act_ok [OF F wire E _ _ act]) auto
  moreover have "r' = r \<or> r' = snd (getRedis F r)"
    using d by (auto simp: flow_guard_def prod_eq_iff split: sum.splits if_splits option.splits)
  then have "fst (getRedis F r') = fst (getRedis F r)" by (auto simp: getRedis_def Let_def)
  ultimately show ?thesis using redis by simp
qed

section \<open>The pods\<close>

lemma send_ok:
  assumes A: "agent_world V wire a A" and c: "\<And>r. r \<in> cmd_results wire c \<Longrightarrow> result_ok V A pods w r"
  shows "advances V E A pods w (snd (reCmd (aeRedis A) a c w))"
  using A c by (intro advances_by [where R = "cmd_results wire c" and G = "{}"]) (auto simp: agent_world_def)

lemma send_all_ok:
  assumes A: "agent_world V wire a A" and q: "qRdb q = a"
  shows "(\<And>c r. c \<in> set cs \<Longrightarrow> r \<in> cmd_results wire c \<Longrightarrow> result_ok V A pods w r) \<Longrightarrow>
     advances V E A pods w (send_all (aeRedis A) q cs w)"
proof (induction cs arbitrary: w)
  case Nil
  then show ?case by (simp add: send_all_def)
next
  case (Cons c cs)
  let ?w1 = "snd (reCmd (aeRedis A) a c w)"
  have one: "advances V E A pods w ?w1" using Cons.prems by (intro send_ok [OF A]) auto
  then have g: "grows V UNIV UNIV w ?w1" by (simp add: advances_def)
  have "advances V E A pods ?w1 (send_all (aeRedis A) q cs ?w1)"
  proof (rule Cons.IH)
    fix c' r assume "c' \<in> set cs" and "r \<in> cmd_results wire c'"
    then have "result_ok V A pods w r" using Cons.prems [of c' r] by simp
    with g show "result_ok V A pods ?w1 r" by (rule result_ok_grows)
  qed
  with one q show ?case by (auto simp: send_all_def send_def intro: advances_trans)
qed

lemma heDo_ok: "agent_world V wire a A \<Longrightarrow> advances V E A pods w (snd (heDo (aeHttp A) rq w))"
  by (rule advances_quiet) (simp add: agent_world_def)

lemma stream_names [simp]: "taskStream \<noteq> resultsStream" "taskStream @ ''-dead'' \<noteq> resultsStream"
  by (simp_all add: taskStream_def resultsStream_def)

lemma pod_quiet: "pod_ok V a p \<Longrightarrow> pdOwn p w w' \<Longrightarrow> advances V E A pods w w'"
  by (rule advances_quiet) (simp add: pod_ok_def)

text \<open>A tool call sends at most one command or one request.\<close>

lemma call_submit_world:
  "snd (call_submit A q input w) = w \<or>
     (\<exists>v. snd (call_submit A q input w) = snd (reCmd (aeRedis A) (qRdb q) (XAdd (qStream q) v) w))"
  by (auto simp: call_submit_def Submit_def split_beta split: sum.splits)

lemma callWebhook_world: "snd (callWebhook H wt input w) = w \<or> (\<exists>rq. snd (callWebhook H wt input w) = snd (heDo H rq w))"
proof -
  have "snd (case heDo H rq w of (Inl e, w) \<Rightarrow> (f e, w) | (Inr resp, w) \<Rightarrow> (case heReadAll H resp of
      Inl e \<Rightarrow> (g e, w) | Inr b \<Rightarrow> if P resp then (h resp b, w) else (Inr b, w))) = snd (heDo H rq w)"
    for rq P and f g :: "gotext \<Rightarrow> gotext + string" and h
    by (simp split: prod.split sum.split)
  then show ?thesis unfolding callWebhook_def Let_def by (simp split: option.split) blast
qed

lemma mcp_CallTool_world: "snd (mcp_CallTool H ts n input w) = w \<or> (\<exists>rq. snd (mcp_CallTool H ts n input w) = snd (heDo H rq w))"
  by (auto simp: mcp_CallTool_first call_server_def split_beta split: sum.splits option.splits)

lemma CallTool_ok:
  assumes A: "agent_world V wire a A" and p: "pod_ok V a p"
  shows "advances V E A pods w (snd (CallTool A (pdRunner p) n input w))"
proof -
  have "advances V E A pods w (snd (call_submit A q input w))" if "rnQueue (pdRunner p) = Some q" for q
  proof -
    from that p have q: "qRdb q = a" "qStream q = taskStream" by (auto simp: pod_ok_def)
    have "advances V E A pods w (snd (reCmd (aeRedis A) a (XAdd taskStream v) w))" for v
      by (rule send_ok [OF A]) simp
    with call_submit_world [of A q input w] q show ?thesis by fastforce
  qed
  moreover have "advances V E A pods w (snd (callWebhook (aeHttp A) wt input w))" for wt
    using callWebhook_world [of "aeHttp A" wt input w] heDo_ok [OF A, of E pods w] by fastforce
  moreover have "advances V E A pods w (snd (mcp_CallTool (aeHttp A) ts n input w))" for ts
    using mcp_CallTool_world [of "aeHttp A" ts n input w] heDo_ok [OF A, of E pods w] by fastforce
  ultimately show ?thesis by (auto simp: CallTool_def split: option.splits)
qed

lemma cmd_results_nonempty: "r \<in> cmd_results wire c \<Longrightarrow> \<exists>v. c = XAdd resultsStream v"
  by (cases c) (auto split: if_splits)

lemma finish_cmds_results:
  assumes q: "qStream q = taskStream" and wire: "wire_ok wire"
    and "c \<in> set (finish_cmds A q t res)" and "r \<in> cmd_results wire c"
  shows "\<exists>x usage. res = (x, usage, None) \<and> any_string (rmValues r ''task_id'') = tkID t \<and>
     any_string (rmValues r ''result'') = x"
proof -
  obtain x usage err where res: "res = (x, usage, err)" by (metis prod_cases3)
  show ?thesis
  proof (cases err)
    case (Some e)
    from cmd_results_nonempty [OF assms(4)] obtain v where "c = XAdd resultsStream v" by blast
    with assms(3) res Some have "XAdd resultsStream v \<in> set (Nack q t (aeErrText A e))"
      by (auto simp: finish_cmds_def DoneChunk_def split: if_splits)
    from Nack_streams [OF this] q stream_names show ?thesis by metis
  next
    case None
    with assms(3,4) res q wire show ?thesis
      by (auto simp: finish_cmds_def Ack_def DoneChunk_def stored_msg_def wire_ok_def split: if_splits)
  qed
qed

lemma handle_task_ok:
  assumes A: "agent_world V wire a A" and p: "pod_ok V a (pods p)" and wire: "wire_ok wire"
    and run: "handle_task A (pdRunner (pods p)) (pdRun (pods p)) (pdQueue (pods p)) t w = Some w'"
    and t: "t \<in> task_of_msg ` vwTasks V w"
  shows "advances V E A pods w w'"
proof -
  let ?I = "\<lambda>w'. advances V E A pods w w'"
  have q: "qRdb (pdQueue (pods p)) = a" "qStream (pdQueue (pods p)) = taskStream" using p by (simp_all add: pod_ok_def)
  have sealed: "sealed_provider (pdRun (pods p)) (pdOwn (pods p))" using p by (simp add: pod_ok_def)
  have chunk: "?I (send_all (aeRedis A) q' (PublishChunk k c) w1)"
    if "rnQueue (pdRunner (pods p)) = Some q'" and "?I w1" for q' c k w1
  proof -
    from that(1) p have "qRdb q' = a" by (auto simp: pod_ok_def)
    then have "advances V E A pods w1 (send_all (aeRedis A) q' (PublishChunk k c) w1)"
      by (rule send_all_ok [OF A]) (auto simp: PublishChunk_def)
    with that(2) show ?thesis by (rule advances_trans)
  qed
  have deadline: "?I (aeWithTimeout A d w1)" if "?I w1" for d w1
    using that A advances_quiet [of V w1 "aeWithTimeout A d w1" E A pods] by (auto simp: agent_world_def intro: advances_trans)
  have own: "?I w2" if "pdOwn (pods p) w1 w2" and "?I w1" for w1 w2
    using that pod_quiet [OF p, of w1 w2 E A pods] by (blast intro: advances_trans)
  have tool: "?I (snd (CallTool A (pdRunner (pods p)) n i w1))" if "?I w1" for n i w1
    using that CallTool_ok [OF A p, of E pods w1 n i] by (blast intro: advances_trans)
  obtain res w0 w1 where ran: "RunTask A (pdRunner (pods p)) (pdRun (pods p)) t w0 = Some (res, w1)"
    and w1: "?I w1" and w': "w' = send_all (aeRedis A) (pdQueue (pods p)) (finish_cmds A (pdQueue (pods p)) t res) w1"
  proof (rule sealed_provider.handled [OF sealed run, where I = ?I])
    show "?I w" by simp
    show "?I w2" if "pdOwn (pods p) w1 w2" and "?I w1" for w1 w2 using that by (rule own)
    show "?I (snd (CallTool A (pdRunner (pods p)) n i w1))" if "?I w1" for n i w1 using that by (rule tool)
    show "?I (aeWithTimeout A d w1)" if "?I w1" for d w1 using that by (rule deadline)
    show "?I (send_all (aeRedis A) q' (PublishChunk k c) w1)"
      if "rnQueue (pdRunner (pods p)) = Some q'" and "?I w1" for q' c k w1 using that by (rule chunk)
  qed
  have "advances V E A pods w1 w'"
    unfolding w'
  proof (rule send_all_ok [OF A q(1)])
    fix c r assume "c \<in> set (finish_cmds A (pdQueue (pods p)) t res)" and "r \<in> cmd_results wire c"
    from finish_cmds_results [OF q(2) wire this] obtain x usage where x: "res = (x, usage, None)"
      "any_string (rmValues r ''task_id'') = tkID t" "any_string (rmValues r ''result'') = x" by blast
    from t obtain msg where msg: "msg \<in> vwTasks V w" "t = task_of_msg msg" by blast
    with w1 have "msg \<in> vwTasks V w1" by (auto simp: advances_def grows_def)
    moreover have "answered A pods t x" using ran x(1) unfolding answered_def by blast
    ultimately show "result_ok V A pods w1 r"
      using msg(2) x unfolding result_ok_def by (auto simp: task_of_msg_def intro!: bexI [of _ msg])
  qed
  with w1 show ?thesis by (rule advances_trans)
qed

lemma poll_round_ok:
  assumes A: "agent_world V wire a A" and p: "pod_ok V a p" and run: "poll_round A (pdQueue p) w = (t, w')"
  shows "advances V E A pods w w'" and "t = Some t' \<Longrightarrow> t' \<in> task_of_msg ` vwTasks V w"
proof -
  let ?q = "pdQueue p"
  obtain x w1 where x: "reXReadGroup (aeRedis A) a (qGroup ?q) (qConsumer ?q) taskStream w = (x, w1)" by (metis surj_pair)
  with p run have w': "w' = w1"
    by (auto simp: poll_round_def Poll_def pod_ok_def split: sum.splits redis_error.splits list.splits)
  have "grows V {} {} w w1" using A x unfolding agent_world_def by (metis snd_conv)
  then show "advances V E A pods w w'" unfolding w' by (rule advances_none)
  assume t: "t = Some t'"
  with p run x obtain msg ms mss where ms: "x = Inr ((msg # ms) # mss)" "t' = task_of_msg msg"
    by (auto simp: poll_round_def Poll_def pod_ok_def split: sum.splits redis_error.splits list.splits)
  have "set (concat ((msg # ms) # mss)) \<subseteq> vwTasks V w" using A x ms(1) unfolding agent_world_def by (metis fst_conv)
  with ms show "t' \<in> task_of_msg ` vwTasks V w" by simp
qed

section \<open>The system\<close>

lemma held_ok: "advances V E A pods w w' \<Longrightarrow> task_of_msg ` vwTasks V w \<subseteq> task_of_msg ` vwTasks V w'"
  by (auto simp: advances_def grows_def)

lemma agent_step_ok:
  assumes A: "agent_world V wire a A" and p: "pod_ok V a (pods p)" and wire: "wire_ok wire"
    and step: "agent_step A (pdRunner (pods p)) (pdRun (pods p)) (pdQueue (pods p)) (ts, w) (ts', w')"
    and held: "set ts \<subseteq> task_of_msg ` vwTasks V w"
  shows "advances V E A pods w w' \<and> set ts' \<subseteq> task_of_msg ` vwTasks V w'"
  using step
proof cases
  case (polled t)
  note ok = poll_round_ok(1) [OF A p polled(2), of E pods]
  from poll_round_ok(2) [OF A p polled(2) refl] polled(1) held held_ok [OF ok] ok show ?thesis by auto
next
  case idle
  note ok = poll_round_ok(1) [OF A p idle(2), of E pods]
  with idle(1) held held_ok [OF ok] show ?thesis by auto
next
  case (handled t us vs)
  with held have "t \<in> task_of_msg ` vwTasks V w" by auto
  from handle_task_ok [where p = p and pods = pods, OF A p wire handled(3) this] have ok: "advances V E A pods w w'" .
  with handled held held_ok [OF ok] show ?thesis by auto
qed

lemma sys_step_inv:
  assumes F: "flow_world V wire a F" and A: "agent_world V wire a A" and pods: "\<And>p. pod_ok V a (pods p)"
    and wire: "wire_ok wire" and E: "range_ok E"
    and step: "sys_step E F A V pods s s'" and inv: "sys_inv V E F A pods a s"
  shows "sys_inv V E F A pods a s'"
proof -
  have keep: "world_ok V E A pods w' \<and> (\<forall>p. set (syHeld s p) \<subseteq> task_of_msg ` vwTasks V w')"
    if "advances V E A pods (syWorld s) w'" for w'
    using that inv held_ok [OF that] by (fastforce simp: sys_inv_def advances_def)
  from step show ?thesis
  proof cases
    case (reconciled req res r' w')
    have "advances V E A pods (syWorld s) w' \<and> fst (getRedis F r') \<in> {None, Some a}"
      using inv by (intro Reconcile_ok [OF F wire E _ _ reconciled(2)]) (simp_all add: sys_inv_def)
    with keep reconciled(1) show ?thesis by (simp add: sys_inv_def)
  next
    case (agent p ts' w')
    have "advances V E A pods (syWorld s) w' \<and> set ts' \<subseteq> task_of_msg ` vwTasks V w'"
      using inv by (intro agent_step_ok [where p = p and pods = pods, OF A pods wire agent(2)]) (simp add: sys_inv_def)
    with keep agent(1) inv show ?thesis by (simp add: sys_inv_def)
  next
    case (lost p us t vs)
    have "set (us @ vs) \<subseteq> task_of_msg ` vwTasks V (syWorld s)"
      using inv lost(2) unfolding sys_inv_def by (metis le_sup_iff set_append set_subset_Cons subset_trans)
    with inv lost(1) show ?thesis by (simp add: sys_inv_def)
  next
    case (elsewhere w')
    with keep [OF advances_quiet [OF elsewhere(2)]] inv show ?thesis by (simp add: sys_inv_def)
  qed
qed

lemma sys_reachable_inv:
  assumes F: "flow_world V wire a F" and A: "agent_world V wire a A" and pods: "\<And>p. pod_ok V a (pods p)"
    and wire: "wire_ok wire" and E: "range_ok E"
    and start: "sys_start V F a s0" and run: "(sys_step E F A V pods)\<^sup>*\<^sup>* s0 s"
  shows "sys_inv V E F A pods a s"
  using run
proof (induction rule: rtranclp_induct)
  case base
  from start show ?case by (auto simp: sys_start_def sys_inv_def world_ok_def flow_ok_def)
next
  case (step s s')
  from sys_step_inv [OF F A pods wire E step.hyps(2) step.IH] show ?case .
qed

text \<open>What the invariant says of one step: its output answers its own prompt.\<close>

lemma succeeded_answers:
  assumes "world_ok V E A pods w" and "f \<in> vwFlows V w" and "st \<in> set (fSteps (flStatus f))"
    and "stPhase st = StepSucceeded"
  shows "\<exists>t. tkID t = stTaskID st \<and> prompt_of E f (stName st) (tkPrompt t) \<and> answered A pods t (stOutput st)"
proof -
  from assms have st: "entry_ok V E w f st" by (auto simp: world_ok_def flow_ok_def list_all_iff)
  with assms(4) obtain msg r where msg: "msg \<in> vwTasks V w" "rmID msg = stTaskID st"
      "prompt_of E f (stName st) (tkPrompt (task_of_msg msg))"
    and r: "r \<in> vwResults V w" "any_string (rmValues r ''task_id'') = stTaskID st"
      "any_string (rmValues r ''result'') = stOutput st"
    by (auto simp: entry_ok_def)
  from assms(1) r(1) obtain msg' where "msg' \<in> vwTasks V w" "rmID msg' = stTaskID st"
      "answered A pods (task_of_msg msg') (stOutput st)"
    unfolding world_ok_def result_ok_def using r by metis
  moreover from this msg assms(1) have "msg' = msg" unfolding world_ok_def unique_ids_def by metis
  ultimately show ?thesis using msg by (intro exI [of _ "task_of_msg msg"]) (simp add: task_of_msg_def)
qed

end
