(* ===== verification/FlowLiveness.thy ===== *)
theory FlowLiveness
  imports FlowResults FlowProgress
begin

text \<open>
  Flows end. If every task a flow has in flight is answered before the next pass, each pass that leaves
  the flow running lowers its rank, so there are at most as many such passes as the rank.
\<close>

section \<open>From the collected results to the end of the pass\<close>

lemma run_flow_collected:
  assumes E: "range_ok E" and run: "run_flow E F rdb f w = (Inr g, w')" and init: "initialize E F f w = (f0, w0)"
  obtains sts w1 where
    "collectResults E F rdb (BuildStatusByName f0) (fSteps (flStatus f0)) w0 = (Inr sts, w1)"
    "status_rel E (BuildStatusByName f0) (name_limit (fsSteps (flSpec f0))) (fSteps (flStatus f0)) sts"
    "status_rel E (BuildStatusByName f0) (name_limit (fsSteps (flSpec f0))) sts (fSteps (flStatus g))"
proof -
  let ?m = "BuildStatusByName f0" and ?lim = "name_limit (fsSteps (flSpec f0))"
  from run_flow_stages [OF run init] obtain sts w1 f2 now w2 data where
    col: "collectResults E F rdb ?m (fSteps (flStatus f0)) w0 = (Inr sts, w1)" and
    sub: "submitPendingSteps E F rdb (loop_stage E ?m (f0\<lparr>flStatus := (flStatus f0)\<lparr>fSteps := sts\<rparr>\<rparr>)) ?m data w1
            = (None, f2, w2)" and
    g: "g = observe (UpdateFlowPhase E f2 data now)" .
  let ?f1 = "f0\<lparr>flStatus := (flStatus f0)\<lparr>fSteps := sts\<rparr>\<rparr>"
  have r1: "status_rel E ?m ?lim (fSteps (flStatus f0)) sts" by (rule collectResults_rel [OF E col])
  then have s1: "same_shape f0 ?f1" by (simp add: with_steps_shape status_rel_names)
  have m1: "?m = BuildStatusByName ?f1" by (rule same_shape_index [OF s1, symmetric])
  note l = loop_stage_rel [OF E m1]
  have m2: "?m = BuildStatusByName (loop_stage E ?m ?f1)"
    using m1 same_shape_index [of ?f1 "loop_stage E ?m ?f1"] l by simp
  have "status_rel E ?m ?lim sts (fSteps (flStatus f2))"
    using l submitPendingSteps_rel [OF m2 sub, of ?lim] by (auto intro: status_rel_trans)
  then have "status_rel E ?m ?lim sts (fSteps (flStatus g))"
    by (simp add: g observe_frame UpdateFlowPhase_frame)
  with that col r1 show thesis by blast
qed

section \<open>Answered tasks\<close>

text \<open>Every step in flight waits for a task of its own, and the results stream holds an answer to it.\<close>

definition all_answered :: "'w flow_env \<Rightarrow> string \<Rightarrow> ArkFlow \<Rightarrow> 'w \<Rightarrow> bool" where
  "all_answered F a f w \<longleftrightarrow> (let sts = fSteps (flStatus f) in
     \<forall>i < length sts. in_flight (sts ! i) \<longrightarrow> is_waiting (sts ! i) \<and> unique_task sts i \<and>
       (\<exists>msgs. feXRange F a resultsStream w = Inr msgs \<and> result_for msgs (stTaskID (sts ! i)) \<noteq> None))"

lemma life_refines_le: "status_rel E m lim a b \<Longrightarrow> flow_rank lim b \<le> flow_rank lim a"
  by (simp add: status_rel_def life_refines_rank)

lemma life_refines_moved:
  "status_rel E m lim a b \<Longrightarrow> i < length a \<Longrightarrow> stPhase (b ! i) \<noteq> stPhase (a ! i) \<Longrightarrow> flow_rank lim b < flow_rank lim a"
  by (rule life_refines_rank_strict) (auto simp: status_rel_def life_of_def)

lemma pass_lowers_rank:
  assumes E: "range_ok E" and valid: "ValidateDAG f = None" and match: "entries_match f"
    and begun: "fPhase (flStatus f) \<noteq> FlowEmpty" and ans: "all_answered F a f w"
    and run: "run_flow E F a f w = (Inr g, w')" and going: "\<not> IsTerminalPhase (fPhase (flStatus g))"
  shows "flow_rank (name_limit (fsSteps (flSpec f))) (fSteps (flStatus g))
       < flow_rank (name_limit (fsSteps (flSpec f))) (fSteps (flStatus f))"
proof -
  let ?sts = "fSteps (flStatus f)" and ?m = "BuildStatusByName f" and ?lim = "name_limit (fsSteps (flSpec f))"
  have init: "initialize E F f w = (f, w)" using begun by (simp add: initialize_def InitializeSteps_def)
  from run_flow_collected [OF E run init] obtain sts w1 where
    col: "collectResults E F a ?m ?sts w = (Inr sts, w1)" and
    r: "status_rel E ?m ?lim ?sts sts" "status_rel E ?m ?lim sts (fSteps (flStatus g))" .
  show ?thesis
  proof (cases "list_ex in_flight ?sts")
    case True
    then obtain i where i: "i < length ?sts" "in_flight (?sts ! i)" by (auto simp: list_ex_length)
    with ans obtain msgs where msgs: "feXRange F a resultsStream w = Inr msgs"
      "result_for msgs (stTaskID (?sts ! i)) \<noteq> None" "is_waiting (?sts ! i)" "unique_task ?sts i"
      by (auto simp: all_answered_def Let_def)
    have mi: "?m (stName (?sts ! i)) = Some i"
      using by_name.index_unique [of f i] match i(1) by (simp add: entries_match_def)
    from collectResults_nth [OF E col msgs(1) i(1) mi msgs(3,4)] msgs(2)
    have "stPhase (sts ! i) = StepSucceeded" by (auto simp: finished_with_def)
    with i(2) have "stPhase (sts ! i) \<noteq> stPhase (?sts ! i)" by (simp add: in_flight_def)
    from life_refines_moved [OF r(1) i(1) this] life_refines_le [OF r(2)] show ?thesis by simp
  next
    case False
    from run_flow_progress [OF E valid match run init going] show ?thesis
    proof
      assume "list_ex in_flight (fSteps (flStatus g))"
      then obtain i where i: "i < length (fSteps (flStatus g))" "in_flight (fSteps (flStatus g) ! i)"
        by (auto simp: list_ex_length)
      have rel: "status_rel E ?m ?lim ?sts (fSteps (flStatus g))" using r by (rule status_rel_trans)
      have len: "length (fSteps (flStatus g)) = length ?sts"
        using status_rel_names [OF rel] by (rule map_eq_imp_length_eq)
      with False i have "stPhase (fSteps (flStatus g) ! i) \<noteq> stPhase (?sts ! i)"
        by (auto simp: list_ex_length in_flight_def)
      with life_refines_moved [OF rel] i(1) len show ?thesis by simp
    qed
  qed
qed

section \<open>Passes\<close>

text \<open>\<open>n\<close> passes, each over answered tasks and each leaving the flow running.\<close>

inductive passes :: "ext \<Rightarrow> 'w flow_env \<Rightarrow> string \<Rightarrow> nat \<Rightarrow> ArkFlow \<Rightarrow> ArkFlow \<Rightarrow> bool" for E F a where
  start: "passes E F a 0 f f"
| pass: "passes E F a n f g \<Longrightarrow> all_answered F a g w \<Longrightarrow> run_flow E F a g w = (Inr h, w') \<Longrightarrow>
     \<not> IsTerminalPhase (fPhase (flStatus h)) \<Longrightarrow> passes E F a (Suc n) f h"

lemma begun_verdict: "p \<noteq> FlowEmpty \<Longrightarrow> verdict_phase p v \<noteq> FlowEmpty"
  by (cases v) auto

lemma passes_rank:
  assumes E: "range_ok E"
  shows "passes E F a n f g \<Longrightarrow> ValidateDAG f = None \<Longrightarrow> entries_match f \<Longrightarrow> fPhase (flStatus f) \<noteq> FlowEmpty \<Longrightarrow>
     same_shape f g \<and> fPhase (flStatus g) \<noteq> FlowEmpty \<and>
     n + flow_rank (name_limit (fsSteps (flSpec f))) (fSteps (flStatus g))
       \<le> flow_rank (name_limit (fsSteps (flSpec f))) (fSteps (flStatus f))"
proof (induction rule: passes.induct)
  case (start f)
  then show ?case by simp
next
  case (pass n f g w h w')
  then have IH: "same_shape f g" "fPhase (flStatus g) \<noteq> FlowEmpty"
    "n + flow_rank (name_limit (fsSteps (flSpec f))) (fSteps (flStatus g))
       \<le> flow_rank (name_limit (fsSteps (flSpec f))) (fSteps (flStatus f))" by auto
  have spec: "flSpec g = flSpec f" using IH(1) by (simp add: same_shape_def)
  have valid: "ValidateDAG g = None"
    using pass.prems(1) spec by (simp add: ValidateDAG_None deps_known_def flow_graph_def)
  have match: "entries_match g" using IH(1) pass.prems(2) by (rule entries_match_shape)
  have init: "initialize E F g w = (g, w)" using IH(2) by (simp add: initialize_def InitializeSteps_def)
  from pass_lowers_rank [OF E valid match IH(2) pass.hyps(2-4)] IH(3) spec
  have "Suc n + flow_rank (name_limit (fsSteps (flSpec f))) (fSteps (flStatus h))
       \<le> flow_rank (name_limit (fsSteps (flSpec f))) (fSteps (flStatus f))" by simp
  moreover have "same_shape f h" using IH(1) run_flow_rel [OF E pass.hyps(3) init] by (blast intro: same_shape_trans)
  moreover have "fPhase (flStatus h) \<noteq> FlowEmpty"
    using run_flow_phase [OF pass.hyps(3) init] begun_verdict [OF IH(2)] by metis
  ultimately show ?case by blast
qed

end
