(* ===== verification/Samples.thy ===== *)
theory Samples
  imports FlowEffects FlowResults
begin

text \<open>
  Concrete instances of what the model takes from outside, and small resources, at which the
  properties of the flow engine are applied.
\<close>

section \<open>Outside functions\<close>

text \<open>Templates without actions, the JSON object \<open>{}\<close>, one condition per type, maps visited in order.\<close>

definition sample_ext :: ext where
  "sample_ext =
     \<lparr>xParse = (\<lambda>s. if s = ''{{'' then Inl (TLit ''unclosed action'') else Inr (\<lambda>_. Inr s)),
      xUnmarshal = (\<lambda>s. if s = ''{}'' then Inr (AMap Map.empty) else Inl (TLit ''invalid character'')),
      xSetStatusCondition = (\<lambda>cs c. c # filter (\<lambda>d. cType d \<noteq> cType c) cs),
      xRemoveStatusCondition = (\<lambda>cs t. filter (\<lambda>d. cType d \<noteq> t) cs),
      xIsStatusConditionTrue = (\<lambda>cs t. list_ex (\<lambda>d. cType d = t \<and> cStatus d = ConditionTrue) cs),
      xRangeNat = (\<lambda>xs. xs),
      xRangeInputs = (\<lambda>xs. xs)\<rparr>"

lemma sample_range_ok [simp]: "range_ok sample_ext"
  by (simp add: range_ok_def sample_ext_def)

lemma sample_condition_laws [simp]: "condition_laws sample_ext"
  by (auto simp: condition_laws_def sample_ext_def list_ex_iff)

section \<open>A flow of two steps\<close>

definition sample_meta :: "string \<Rightarrow> ObjectMeta" where
  "sample_meta n = \<lparr>mName = n, mNamespace = ''default'', mGeneration = 1, mDeletionTimestamp = None,
     mAnnotations = Map.empty, mLabels = Map.empty, mController = None\<rparr>"

definition sample_step :: "string \<Rightarrow> string list \<Rightarrow> ArkFlowStep" where
  "sample_step n deps = \<lparr>sName = n, sArkAgent = ''agent'', sInputs = [(''task'', ''do it'')], sDependsOn = deps,
     sOutputSchema = [], sIf = [], sLoop = None\<rparr>"

definition sample_spec :: ArkFlowSpec where
  "sample_spec = \<lparr>fsSteps = [sample_step ''a'' [], sample_step ''b'' [''a'']], fsInput = Map.empty, fsOutput = [],
     fsTimeoutSeconds = 60, fsMaxTokens = 100\<rparr>"

text \<open>Step \<open>a\<close> waits for the result of task \<open>1-0\<close>; step \<open>b\<close> waits for \<open>a\<close>.\<close>

definition sample_status :: ArkFlowStatus where
  "sample_status =
     \<lparr>fPhase = FlowRunning,
      fSteps = [(pending_status (sample_step ''a'' []))\<lparr>stPhase := StepRunning, stTaskID := ''1-0'', stStartTime := Some 0\<rparr>,
                pending_status (sample_step ''b'' [''a''])],
      fStartTime = Some 0, fCompletionTime = None, fOutput = [], fObservedGeneration = 1,
      fTotalTokenUsage = None, fConditions = []\<rparr>"

definition sample_flow :: ArkFlow where
  "sample_flow = \<lparr>flMeta = sample_meta ''flow'', flSpec = sample_spec, flStatus = sample_status\<rparr>"

section \<open>A small world\<close>

text \<open>
  The world is a clock that ticks at each reading. The cluster holds the flow and any agent; the
  results stream holds the result of task \<open>1-0\<close>.
\<close>

definition sample_agent :: ArkAgent where
  "sample_agent =
     \<lparr>agMeta = sample_meta ''agent'',
      agSpec = \<lparr>asReplicas = None, asModel = ''m'', asSystemPrompt = ''p'', asSystemPromptRef = None, asMCPServers = [],
        asLimits = None, asLivenessProbe = None, asConfigRef = None, asMemoryRef = None, asTools = []\<rparr>,
      agStatus = \<lparr>aReadyReplicas = 0, aReplicas = 0, aObservedGeneration = 0, aDailyTokenUsage = None, aConditions = []\<rparr>\<rparr>"

definition sample_result :: redis_msg where
  "sample_result = \<lparr>rmID = ''2-0'', rmValues = [''task_id'' \<mapsto> AStr ''1-0'', ''result'' \<mapsto> AStr ''done'',
     ''input_tokens'' \<mapsto> AStr ''3'', ''output_tokens'' \<mapsto> AStr ''4'']\<rparr>"

definition sample_env :: "int flow_env" where
  "sample_env =
     \<lparr>feGetFlow = (\<lambda>w req. Inr sample_flow), feListEvents = (\<lambda>w ns. Inr []), feGetAgent = (\<lambda>w req. Inr sample_agent),
      feUpdateStatus = (\<lambda>f w. (None, w)), feParseURL = (\<lambda>u. Inr u), feXAdd = (\<lambda>a s v w. (Inr ''3-0'', w)),
      feXRange = (\<lambda>a s w. Inr [sample_result]), feNow = (\<lambda>w. (w, w + 1))\<rparr>"

definition sample_reconciler :: ArkFlowReconciler where
  "sample_reconciler = \<lparr>rTaskQueueURL = ''redis:6379'', rRedisOnce = False, rRdb = None\<rparr>"

definition sample_request :: NamespacedName where
  "sample_request = \<lparr>nnName = ''flow'', nnNamespace = ''default''\<rparr>"

text \<open>The pass over the sample flow: \<open>a\<close> takes its result and \<open>b\<close> is submitted.\<close>

lemma sample_valid: "ValidateDAG sample_flow = None"
  by code_simp

lemma sample_run: "\<not> isl (fst (run_flow sample_ext sample_env ''q'' sample_flow 0))"
  by code_simp

lemma sample_run_phases:
  "map stPhase (fSteps (flStatus (projr (fst (run_flow sample_ext sample_env ''q'' sample_flow 0)))))
     = [StepSucceeded, StepRunning]"
  by code_simp

end
