(* ===== verification/FlowProps.thy ===== *)
theory FlowProps
  imports Samples
begin

text \<open>
  The properties of the flow engine and of the flow controller, each with its witness. They are
  short: the lemmas of the component theories carry them.
\<close>

section \<open>Validation\<close>

text \<open>
  C7: \<open>ValidateDAG\<close> accepts a flow exactly when every dependency names a step and the dependency
  relation is acyclic. The three-colour search neither misses a cycle nor reports a false one.
\<close>

theorem ValidateDAG_accepts:
  "ValidateDAG f = None \<longleftrightarrow> deps_known f \<and> acyclic (flow_graph f)"
  by (rule ValidateDAG_None)

text \<open>
  C37: When \<open>ValidateDAG\<close> rejects a flow, its message names the fault: a step of the flow and one of its
  dependencies that is no step, or two adjacent steps that lie on a cycle.
\<close>

theorem ValidateDAG_explains:
  assumes "ValidateDAG f = Some e"
  shows "(\<exists>s \<in> set (fsSteps (flSpec f)). \<exists>d \<in> set (sDependsOn s).
            d \<notin> sName ` set (fsSteps (flSpec f)) \<and>
            e = TFmt ''step %q depends on unknown step %q'' [GStr (sName s), GStr d]) \<or>
         (\<exists>a d. e = cycle_error a d \<and> (a, d) \<in> flow_graph f \<and> (d, a) \<in> (flow_graph f)\<^sup>*)"
  using assms dfs_all_Inl [of "fsSteps (flSpec f)"] check_deps_Some
  by (fastforce simp: ValidateDAG_def Let_def flow_graph_def split: option.splits sum.splits)

theorem ValidateDAG_explains_witness:
  "\<exists>a d. ValidateDAG (sample_flow\<lparr>flSpec := sample_spec\<lparr>fsSteps := [sample_step ''a'' [''b''], sample_step ''b'' [''a'']]\<rparr>\<rparr>)
     = Some (cycle_error a d)"
proof -
  let ?f = "sample_flow\<lparr>flSpec := sample_spec\<lparr>fsSteps := [sample_step ''a'' [''b''], sample_step ''b'' [''a'']]\<rparr>\<rparr>"
  have "ValidateDAG ?f \<noteq> None" by code_simp
  then obtain e where e: "ValidateDAG ?f = Some e" by auto
  from ValidateDAG_explains [OF e] e show ?thesis
    by (auto simp: sample_step_def)
qed

section \<open>The phase of a flow\<close>

text \<open>
  C8: \<open>UpdateFlowPhase\<close> implements the verdict on a flow: timed out before over budget before a failed
  step before all steps done; otherwise the phase stays. The steps stay as they are in every case.
\<close>

theorem UpdateFlowPhase_verdict:
  "fPhase (flStatus (UpdateFlowPhase E f data now)) = verdict_phase (fPhase (flStatus f)) (flow_verdict f now) \<and>
   fSteps (flStatus (UpdateFlowPhase E f data now)) = fSteps (flStatus f)"
  by (simp add: UpdateFlowPhase_phase UpdateFlowPhase_frame)

text \<open>
  The budget is compared with the true number of tokens the steps report, whenever the counts are
  not negative and their sum fits an \<open>int64\<close>: the 64-bit accumulation loses nothing below that.
\<close>

lemma sum_tokens_exact:
  assumes "\<forall>st \<in> set sts. 0 \<le> sint (st_in st) \<and> 0 \<le> sint (st_out st)"
    and "(\<Sum>st\<leftarrow>sts. sint (st_in st)) + (\<Sum>st\<leftarrow>sts. sint (st_out st)) < 2 ^ 63"
  shows "sint (total_tokens sts) = (\<Sum>st\<leftarrow>sts. sint (st_in st)) + (\<Sum>st\<leftarrow>sts. sint (st_out st))"
proof -
  have nonneg: "0 \<le> (\<Sum>st\<leftarrow>sts. sint (st_in st))" "0 \<le> (\<Sum>st\<leftarrow>sts. sint (st_out st))"
    using assms(1) by (auto intro!: sum_list_nonneg)
  have "sint (sum_list (map st_in sts)) = (\<Sum>st\<leftarrow>sts. sint (st_in st))"
    using sum_list_sint_nonneg [of "map st_in sts"] assms nonneg by (simp add: comp_def)
  moreover have "sint (sum_list (map st_out sts)) = (\<Sum>st\<leftarrow>sts. sint (st_out st))"
    using sum_list_sint_nonneg [of "map st_out sts"] assms nonneg by (simp add: comp_def)
  ultimately show ?thesis
    using assms(2) nonneg by (simp add: total_tokens_def sint_add_i64)
qed

theorem SumStepTokens_exact:
  assumes "\<forall>st \<in> set (fSteps (flStatus f)). 0 \<le> sint (st_in st) \<and> 0 \<le> sint (st_out st)"
    and "(\<Sum>st\<leftarrow>fSteps (flStatus f). sint (st_in st)) + (\<Sum>st\<leftarrow>fSteps (flStatus f). sint (st_out st)) < 2 ^ 63"
  shows "sint (fst (SumStepTokens f)) =
     (\<Sum>st\<leftarrow>fSteps (flStatus f). sint (st_in st)) + (\<Sum>st\<leftarrow>fSteps (flStatus f). sint (st_out st))"
  using assms by (simp add: SumStepTokens_fst sum_tokens_exact)

theorem SumStepTokens_exact_witness:
  "sint (fst (SumStepTokens (projr (fst (run_flow sample_ext sample_env ''q'' sample_flow 0))))) = 7"
proof -
  let ?f = "projr (fst (run_flow sample_ext sample_env ''q'' sample_flow 0))"
  have i: "map (\<lambda>st. sint (st_in st)) (fSteps (flStatus ?f)) = [3, 0]" by code_simp
  have o: "map (\<lambda>st. sint (st_out st)) (fSteps (flStatus ?f)) = [4, 0]" by code_simp
  have "\<forall>st \<in> set (fSteps (flStatus ?f)). 0 \<le> sint (st_in st) \<and> 0 \<le> sint (st_out st)" by code_simp
  from SumStepTokens_exact [OF this] show ?thesis by (simp add: i o)
qed

lemma timeout_product:
  fixes s :: i64
  assumes "0 < sint s" and "sint s * 1000000000 < 2 ^ 63"
  shows "sint (s * Second) = sint s * 1000000000"
  using assms by (simp add: Second_def sint_word_ariths signed_take_bit_int_eq_self)

text \<open>
  C40: the timeout is exact for every limit whose nanoseconds fit an \<open>int64\<close>: the flow fails when more
  than \<open>timeoutSeconds\<close> have passed since its start, and otherwise \<open>EnforceTimeout\<close> changes nothing.
\<close>

theorem EnforceTimeout_exact:
  assumes "0 < sint (fsTimeoutSeconds (flSpec f))" and "sint (fsTimeoutSeconds (flSpec f)) * 1000000000 < 2 ^ 63"
    and "fStartTime (flStatus f) = Some start"
  shows "fst (EnforceTimeout E f now) \<longleftrightarrow> start + sint (fsTimeoutSeconds (flSpec f)) * 1000000000 < now"
  using assms by (simp add: EnforceTimeout_fst timed_out_def timeout_product)

theorem EnforceTimeout_exact_witness:
  "\<not> fst (EnforceTimeout sample_ext sample_flow 60000000000) \<and> fst (EnforceTimeout sample_ext sample_flow 60000000001)"
proof -
  have s: "sint (fsTimeoutSeconds (flSpec sample_flow)) = 60"
    by (simp add: sample_flow_def sample_spec_def)
  have "fStartTime (flStatus sample_flow) = Some 0"
    by (simp add: sample_flow_def sample_status_def)
  from EnforceTimeout_exact [OF _ _ this, of sample_ext] s show ?thesis by simp
qed

section \<open>Reconciling\<close>

text \<open>
  C3: Every flow a reconcile stores, on success or on error, is the flow it read with a new condition or
  generation only, or a refinement of it: the same identity, specification and step names, and every
  step status moved along the documented lifecycle, through \<open>statusByName\<close> alone. A flow whose phase is
  terminal is only ever stored with the steps, phase and output it had.
\<close>

theorem Reconcile_refines:
  assumes "range_ok E" and "Reconcile E (logged F) r req (w, []) = (res, r', w', es)" and "g \<in> set (stored es)"
  shows "\<exists>f. feGetFlow F w req = Inr f \<and>
     (same_progress f g \<or> \<not> IsTerminalPhase (fPhase (flStatus f)) \<and> pass_ok E (fst (initialize E F f w)) g)"
  using assms by (rule Reconcile_stores)

definition sample_reconcile ::
    "(gotext + ctrl_result) \<times> ArkFlowReconciler \<times> int \<times> flow_effect list" where
  "sample_reconcile = Reconcile sample_ext (logged sample_env) sample_reconciler sample_request (0, [])"

lemma sample_env_get: "feGetFlow sample_env w req = Inr sample_flow"
  by (simp add: sample_env_def)

lemma sample_reconcile_effects:
  "length (stored (snd (snd (snd sample_reconcile)))) = 1"
  "length (submitted (snd (snd (snd sample_reconcile)))) = 1"
  by code_simp+

theorem Reconcile_refines_witness:
  "\<exists>g. g \<in> set (stored (snd (snd (snd sample_reconcile)))) \<and>
     (same_progress sample_flow g \<or> pass_ok sample_ext (fst (initialize sample_ext sample_env sample_flow 0)) g)"
proof -
  obtain res r' w' es where run: "sample_reconcile = (res, r', w', es)" by (metis prod_cases4)
  have "length (stored es) = 1" using sample_reconcile_effects(1) unfolding run by simp
  then obtain g where g: "g \<in> set (stored es)" by (cases "stored es") auto
  from Reconcile_refines [OF sample_range_ok run [unfolded sample_reconcile_def] g] g
  show ?thesis unfolding run by (auto simp: sample_env_get)
qed

text \<open>
  C4: A reconcile puts a task on the queue only for a flow that it read, that is not being deleted, that no
  event of the namespace uses as a template, whose graph is valid, all of whose agents exist, that has
  not ended, and with a queue configured. In every other case no task is submitted.
\<close>

theorem Reconcile_submits_only:
  assumes "Reconcile E (logged F) r req (w, []) = (res, r', w', es)" and "submitted es \<noteq> []"
  shows "\<exists>f rdb. feGetFlow F w req = Inr f \<and> mDeletionTimestamp (flMeta f) = None \<and>
     isTriggerTemplate F f w = Inr False \<and> ValidateDAG f = None \<and> validateAgents F f w = None \<and>
     \<not> IsTerminalPhase (fPhase (flStatus f)) \<and> getRedis F r = (Some rdb, r')"
  using assms by (rule Reconcile_submits)

theorem Reconcile_submits_only_witness:
  "ValidateDAG sample_flow = None \<and> \<not> IsTerminalPhase (fPhase (flStatus sample_flow)) \<and>
   submitted (snd (snd (snd sample_reconcile))) \<noteq> []"
proof -
  obtain res r' w' es where run: "sample_reconcile = (res, r', w', es)" by (metis prod_cases4)
  have "length (submitted es) = 1" using sample_reconcile_effects(2) unfolding run by simp
  then have s: "submitted es \<noteq> []" by auto
  from Reconcile_submits_only [OF run [unfolded sample_reconcile_def] s] s
  show ?thesis unfolding run by (auto simp: sample_env_get)
qed



text \<open>
  C6: No deadlock. When a pass leaves a flow running, some step has a task in flight, or the pass moved
  some step: the flow's rank, a natural number, decreased. So between two results only boundedly many
  passes can leave the flow waiting for nothing.
\<close>

theorem run_flow_no_deadlock:
  assumes "range_ok E" and "ValidateDAG f = None" and "initialize E F f w = (f0, w0)" and "entries_match f0"
    and "run_flow E F rdb f w = (Inr g, w')" and "\<not> IsTerminalPhase (fPhase (flStatus g))"
  shows "list_ex in_flight (fSteps (flStatus g)) \<or>
     flow_rank (name_limit (fsSteps (flSpec f))) (fSteps (flStatus g))
       < flow_rank (name_limit (fsSteps (flSpec f))) (fSteps (flStatus f0))"
  using run_flow_progress [OF assms(1,2,4,5,3,6)] .

theorem run_flow_no_deadlock_witness:
  "\<exists>g w'. run_flow sample_ext sample_env ''q'' sample_flow 0 = (Inr g, w') \<and>
     (list_ex in_flight (fSteps (flStatus g)) \<or>
      flow_rank (name_limit (fsSteps sample_spec)) (fSteps (flStatus g))
        < flow_rank (name_limit (fsSteps sample_spec)) (fSteps sample_status))"
proof -
  obtain g w' where run: "run_flow sample_ext sample_env ''q'' sample_flow 0 = (Inr g, w')"
    using sample_run by (metis prod.collapse sum.collapse(2))
  have "\<not> IsTerminalPhase (fPhase (flStatus (projr (fst (run_flow sample_ext sample_env ''q'' sample_flow 0)))))"
    by code_simp
  with run have going: "\<not> IsTerminalPhase (fPhase (flStatus g))" by simp
  have init: "initialize sample_ext sample_env sample_flow 0 = (sample_flow, 0)"
    by (simp add: initialize_def InitializeSteps_def sample_flow_def sample_status_def)
  have "entries_match sample_flow"
    by (simp add: entries_match_def sample_flow_def sample_status_def sample_spec_def sample_step_def pending_status_def)
  from run_flow_no_deadlock [OF sample_range_ok sample_valid init this run going] run
  show ?thesis by (auto simp: sample_flow_def)
qed



text \<open>
  C28: The entries stay well-formed through a pass: a step that runs or ran has a start time, a step that
  is over has a completion time, a pending step has no task, and \<open>OutputJSON\<close> parses. The readers that
  use these fields without a check are safe.
\<close>

theorem run_flow_well_formed:
  assumes "range_ok E" and "run_flow E F rdb f w = (Inr g, w')"
    and "fPhase (flStatus f) = FlowEmpty \<or> list_all (st_ok E) (fSteps (flStatus f))"
  shows "list_all (st_ok E) (fSteps (flStatus g))"
proof -
  obtain f0 w0 where init: "initialize E F f w = (f0, w0)" by (metis surj_pair)
  have "list_all (st_ok E) (fSteps (flStatus f0))"
    using assms(3) initialize_shape(4,5) [OF init] by (cases "fPhase (flStatus f) = FlowEmpty") (auto simp: list_all_iff)
  then have ok: "st_ok E (fSteps (flStatus f0) ! i)" if "i < length (fSteps (flStatus f0))" for i
    using that by (simp add: list_all_length)
  have rel: "pass_ok E f0 g" by (rule run_flow_Inr_pass [OF assms(1,2) init])
  then have "length (fSteps (flStatus g)) = length (fSteps (flStatus f0))"
    by (simp add: pass_ok_def same_shape_length)
  with rel ok show ?thesis by (auto simp: list_all_length pass_ok_def status_rel_def)
qed

theorem run_flow_well_formed_witness:
  "\<exists>g w'. run_flow sample_ext sample_env ''q'' sample_flow 0 = (Inr g, w') \<and> list_all (st_ok sample_ext) (fSteps (flStatus g))"
proof -
  obtain g w' where run: "run_flow sample_ext sample_env ''q'' sample_flow 0 = (Inr g, w')"
    using sample_run by (metis prod.collapse sum.collapse(2))
  have "list_all (st_ok sample_ext) (fSteps (flStatus sample_flow))"
    by (simp add: sample_flow_def sample_status_def st_ok_def pending_status_def)
  with run_flow_well_formed [OF sample_range_ok run] run show ?thesis by blast
qed

text \<open>
  A step that waits for a task takes the last result in the stream that carries its task ID: it
  succeeds with that output and those token counts. If no result carries the ID, the entry stays
  exactly as it was, and so does every entry that does not wait.
\<close>

theorem collectResults_entry:
  assumes "range_ok E" and "collectResults E F rdb m sts w = (Inr sts', w')"
    and "feXRange F rdb resultsStream w = Inr msgs" and "i < length sts" and "m (stName (sts ! i)) = Some i"
    and "unique_task sts i"
  shows "if is_waiting (sts ! i)
     then (case result_for msgs (stTaskID (sts ! i)) of None \<Rightarrow> sts' ! i = sts ! i | Some msg \<Rightarrow> finished_with msg (sts' ! i))
     else sts' ! i = sts ! i"
  using collectResults_nth [OF assms(1-5) _ assms(6)] collectResults_idle [OF assms(1,2)] by simp

theorem collectResults_entry_witness:
  "\<exists>sts' w'. collectResults sample_ext sample_env ''q'' (BuildStatusByName sample_flow) (fSteps sample_status) 0
     = (Inr sts', w') \<and> finished_with sample_result (sts' ! 0)"
proof -
  let ?r = "collectResults sample_ext sample_env ''q'' (BuildStatusByName sample_flow) (fSteps sample_status) 0"
  have "\<not> isl (fst ?r)" by code_simp
  then obtain sts' w' where r: "?r = (Inr sts', w')" by (metis prod.collapse sum.collapse(2))
  have x: "feXRange sample_env ''q'' resultsStream 0 = Inr [sample_result]" by (simp add: sample_env_def)
  have m: "BuildStatusByName sample_flow (stName (fSteps sample_status ! 0)) = Some 0" by code_simp
  have u: "unique_task (fSteps sample_status) 0"
    by (auto simp: unique_task_def sample_status_def is_waiting_def pending_status_def less_Suc_eq numeral_2_eq_2)
  have f: "is_waiting (fSteps sample_status ! 0)" by code_simp
  have res: "result_for [sample_result] (stTaskID (fSteps sample_status ! 0)) = Some sample_result"
    by (simp add: result_for_def sample_result_def sample_status_def)
  have "0 < length (fSteps sample_status)" by (simp add: sample_status_def)
  from collectResults_entry [OF sample_range_ok r x this m u] f res r show ?thesis by auto
qed

section \<open>Prompts and outputs\<close>

text \<open>
  A prompt exists exactly when every input template resolves; then it holds one line per input, in the
  order the map is visited, and the instruction for the output schema if there is one. Only the order of
  the lines depends on the map.
\<close>

theorem ResolvePrompt_lines:
  assumes "range_ok E"
  shows "case ResolvePrompt E step data of
      Inl _ \<Rightarrow> \<not> list_all (resolves E data) (sInputs step)
    | Inr prompt \<Rightarrow> list_all (resolves E data) (sInputs step) \<and>
        (\<exists>kvs. mset kvs = mset (sInputs step) \<and>
           prompt = concat (map (prompt_line E data) kvs) @
             (if sOutputSchema step = [] then []
              else nl @ ''Respond with valid JSON matching this schema:'' @ nl @ sOutputSchema step @ nl))"
proof (cases "list_all (resolves E data) (sInputs step)")
  case True
  with assms have "list_all (resolves E data) (xRangeInputs E (sInputs step))"
    by (simp add: list_all_range_inputs)
  from prompt_inputs_ok [OF this] True range_ok_inputs [OF assms] show ?thesis
    by (auto simp: ResolvePrompt_def)
next
  case False
  with ResolvePrompt_total [OF assms] show ?thesis by (auto split: sum.split)
qed

theorem ResolvePrompt_lines_witness:
  "\<exists>prompt. ResolvePrompt sample_ext (sample_step ''a'' []) ANil = Inr prompt \<and>
     list_all (resolves sample_ext ANil) (sInputs (sample_step ''a'' []))"
proof -
  have "\<not> isl (ResolvePrompt sample_ext (sample_step ''a'' []) ANil)" by code_simp
  then obtain p where p: "ResolvePrompt sample_ext (sample_step ''a'' []) ANil = Inr p" by (metis sum.collapse(2))
  with ResolvePrompt_lines [OF sample_range_ok, where step = "sample_step ''a'' []" and data = ANil] show ?thesis by auto
qed

text \<open>
  \<open>ParseOutputJSON\<close> does not depend on the order in which the map is visited: every entry that
  \<open>statusByName\<close> points to is parsed once, by itself, and the others are left alone; and what it stores
  in \<open>OutputJSON\<close> parses, if \<open>OutputJSON\<close> was empty before.
\<close>

theorem ParseOutputJSON_entry:
  assumes "range_ok E" and "i < length (fSteps (flStatus f))"
  shows "fSteps (flStatus (ParseOutputJSON E f m)) ! i =
    (if m (stName (fSteps (flStatus f) ! i)) = Some i
     then parse_output E (schemaByName (fsSteps (flSpec f))) (fSteps (flStatus f) ! i)
     else fSteps (flStatus f) ! i)"
  using assms by (rule ParseOutputJSON_nth)

theorem ParseOutputJSON_entry_witness:
  "stOutputJSON (fSteps (flStatus (ParseOutputJSON sample_ext
      (sample_flow\<lparr>flSpec := sample_spec\<lparr>fsSteps := [(sample_step ''a'' [])\<lparr>sOutputSchema := ''{}''\<rparr>]\<rparr>,
        flStatus := sample_status\<lparr>fSteps := [(fSteps sample_status ! 0)\<lparr>stPhase := StepSucceeded, stOutput := '' {} ''\<rparr>]\<rparr>\<rparr>)
      [''a'' \<mapsto> 0])) ! 0) = ''{}''"
proof -
  let ?f = "sample_flow\<lparr>flSpec := sample_spec\<lparr>fsSteps := [(sample_step ''a'' [])\<lparr>sOutputSchema := ''{}''\<rparr>]\<rparr>,
        flStatus := sample_status\<lparr>fSteps := [(fSteps sample_status ! 0)\<lparr>stPhase := StepSucceeded, stOutput := '' {} ''\<rparr>]\<rparr>\<rparr>"
  have "0 < length (fSteps (flStatus ?f))" by simp
  from ParseOutputJSON_entry [OF sample_range_ok this, of "[''a'' \<mapsto> 0]"]
  show ?thesis
    by (simp add: sample_status_def pending_status_def sample_step_def) code_simp
qed

section \<open>Duplicate names\<close>

text \<open>
  C38: Of two steps with one name, the first is never run: \<open>statusByName\<close> points to the last entry of a
  name, so no pass touches an earlier one, and the flow can never be marked succeeded by its steps while
  that entry is pending. \<open>ValidateDAG\<close> does not reject such a flow.
\<close>

theorem duplicate_name_unreachable:
  assumes "range_ok E" and "run_flow E F rdb f w = (Inr g, w')" and "initialize E F f w = (f0, w0)"
    and "i < j" and "j < length (fSteps (flStatus f0))"
    and "stName (fSteps (flStatus f0) ! i) = stName (fSteps (flStatus f0) ! j)"
  shows "fSteps (flStatus g) ! i = fSteps (flStatus f0) ! i \<and>
     (stPhase (fSteps (flStatus f0) ! i) = StepPending \<and> fPhase (flStatus f0) \<noteq> FlowSucceeded \<longrightarrow>
        fPhase (flStatus g) \<noteq> FlowSucceeded)"
proof -
  have "BuildStatusByName f0 (stName (fSteps (flStatus f0) ! i)) \<noteq> Some i"
    using BuildStatusByName_last [of f0 _ i j] assms(4-6) by fastforce
  moreover have rel: "pass_ok E f0 g" by (rule run_flow_Inr_pass [OF assms(1-3)])
  ultimately have same: "fSteps (flStatus g) ! i = fSteps (flStatus f0) ! i"
    using assms(4,5) by (simp add: pass_ok_def status_rel_def)
  have i: "i < length (fSteps (flStatus g))"
    using rel assms(4,5) by (auto simp: pass_ok_def dest!: same_shape_length)
  obtain f2 now where v: "fPhase (flStatus g) = verdict_phase (fPhase (flStatus f0)) (flow_verdict f2 now)"
      "fSteps (flStatus f2) = fSteps (flStatus g)"
    using run_flow_phase [OF assms(2,3)] by blast
  have "flow_verdict f2 now \<noteq> AllDone" if "stPhase (fSteps (flStatus f0) ! i) = StepPending"
    using that same i v(2) by (auto simp: flow_verdict_def list_all_length step_done_def)
  with v(1) same show ?thesis by (cases "flow_verdict f2 now") auto
qed

definition twin_flow :: ArkFlow where
  "twin_flow = sample_flow\<lparr>flSpec := sample_spec\<lparr>fsSteps := [sample_step ''a'' [], sample_step ''a'' []]\<rparr>,
     flStatus := sample_status\<lparr>fSteps := map pending_status [sample_step ''a'' [], sample_step ''a'' []]\<rparr>\<rparr>"

theorem duplicate_name_unreachable_witness:
  "ValidateDAG twin_flow = None \<and>
   (\<exists>g w'. run_flow sample_ext sample_env ''q'' twin_flow 0 = (Inr g, w') \<and>
      stPhase (fSteps (flStatus g) ! 0) = StepPending \<and> fPhase (flStatus g) \<noteq> FlowSucceeded)"
proof -
  have "\<not> isl (fst (run_flow sample_ext sample_env ''q'' twin_flow 0))" by code_simp
  then obtain g w' where run: "run_flow sample_ext sample_env ''q'' twin_flow 0 = (Inr g, w')"
    by (metis prod.collapse sum.collapse(2))
  have init: "initialize sample_ext sample_env twin_flow 0 = (twin_flow, 0)"
    by (simp add: initialize_def InitializeSteps_def twin_flow_def sample_status_def)
  have f: "stPhase (fSteps (flStatus twin_flow) ! 0) = StepPending" "fPhase (flStatus twin_flow) = FlowRunning"
    "length (fSteps (flStatus twin_flow)) = 2"
    "stName (fSteps (flStatus twin_flow) ! 0) = stName (fSteps (flStatus twin_flow) ! 1)"
    by (simp_all add: twin_flow_def sample_status_def pending_status_def sample_step_def)
  have "ValidateDAG twin_flow = None" by code_simp
  with duplicate_name_unreachable [OF sample_range_ok run init, of 0 1] f run show ?thesis by auto
qed

end
