(* ===== verification/AgentProps.thy ===== *)
theory AgentProps
  imports AgentStream FlowProps
begin

text \<open>The properties of the agent runtime, and of the path from its results back to a flow.\<close>

section \<open>Samples\<close>

text \<open>A world that counts the commands sent; every HTTP request fails.\<close>

definition sample_redis :: "nat redis_env" where
  "sample_redis =
     \<lparr>reParseURL = (\<lambda>u. Inr u), reCmd = (\<lambda>a c w. (Inr ''9-0'', Suc w)), reXReadGroup = (\<lambda>a g c s w. (Inr [], w))\<rparr>"

definition sample_http :: "'w http_env" where
  "sample_http =
     \<lparr>heNewRequest = (\<lambda>m u. None), heDo = (\<lambda>r w. (Inl (TLit ''refused''), w)), heReadAll = (\<lambda>r. Inr (hrBody r)),
      heTools = (\<lambda>r. Inr []), heContent = (\<lambda>r. Inr []), heMarshalCall = (\<lambda>n a. Inr a)\<rparr>"

definition sample_agent_env :: "(nat \<times> redis_cmd list) agent_env" where
  "sample_agent_env =
     \<lparr>aeHttp = sample_http, aeRedis = logged_redis sample_redis, aePromptArg = (\<lambda>s. Inr s), aeErrText = (\<lambda>_. ''failed''),
      aeWithTimeout = (\<lambda>_ w. w)\<rparr>"

lemma sample_timeout [simp]: "aeWithTimeout sample_agent_env d w = w"
  by (simp add: sample_agent_env_def)

definition sample_queue :: Queue where
  "sample_queue = \<lparr>qRdb = ''redis'', qStream = ''agent-tasks'', qGroup = ''agent-workers'', qConsumer = ''pod'', qMaxRetries = 3\<rparr>"

definition sample_config :: Config where
  "sample_config = \<lparr>cfgProvider = ''anthropic'', cfgModel = ''claude-x'', cfgSystemPrompt = ''p'', cfgMCPServers = [],
     cfgMaxTokensPerCall = 8000, cfgTimeoutSeconds = 120, cfgTaskQueueURL = ''redis'', cfgValidatorPrompt = ''ok?'',
     cfgMaxRetries = 3, cfgWebhookTools = []\<rparr>"

definition sample_runner :: Runner where
  "sample_runner = \<lparr>rnCfg = sample_config, rnManager = [], rnQueue = Some sample_queue, rnAllTools = []\<rparr>"

text \<open>An API whose stream says \<open>Hello\<close> in two deltas, and whose whole answers are \<open>UNHEALTHY\<close>.\<close>

definition sample_anthropic :: "'w anthropic_env" where
  "sample_anthropic =
     \<lparr>anGetenv = (\<lambda>_. ''key''),
      anNew = (\<lambda>k q w. (Inr \<lparr>arContent = [\<lparr>abType = ''text'', abText = ''UNHEALTHY'', abID = [], abName = [], abInput = []\<rparr>],
                              arStopReason = ''end_turn'', arInputTokens = 1, arOutputTokens = 1\<rparr>, w)),
      anStream = (\<lambda>k q w. (([MessageStart 2 0, TextDelta ''Hel'', TextDelta ''lo'', MessageDelta 1], None), w)),
      anSchema = (\<lambda>s. Inl (TLit ''no'')), anUnmarshal = (\<lambda>s. Inl (TLit ''no''))\<rparr>"

definition sample_task :: Task where
  "sample_task = \<lparr>tkID = ''1-0'', tkPrompt = ''hi'', tkMeta = [''stream_key'' \<mapsto> ''chunks'']\<rparr>"

definition sample_wire :: "any \<Rightarrow> any" where
  "sample_wire v = (case v of AInt n \<Rightarrow> AStr (Itoa (sint n)) | _ \<Rightarrow> v)"

lemma sample_wire_ok: "wire_ok sample_wire"
  by (simp add: wire_ok_def sample_wire_def)

section \<open>Retries\<close>

text \<open>
  C15: A task that keeps failing is retried a bounded number of times. After \<open>n\<close> retries its attempt
  counter is \<open>n\<close> more than at first and at most \<open>maxRetries\<close>, and prompt and metadata are those of the
  first attempt; the counter survives its trip through Redis as decimal text, and never wraps.
\<close>

theorem retries_bounded:
  assumes "wire_ok wire" and "tkMeta task ''prompt'' = None" and "retried wire q task n t" and "n \<noteq> 0"
  shows "sint (task_attempt task) + int n \<le> sint (qMaxRetries q) \<and>
     sint (task_attempt t) = sint (task_attempt task) + int n \<and>
     tkPrompt t = tkPrompt task \<and> (\<forall>k. k \<noteq> ''attempt'' \<longrightarrow> tkMeta t k = tkMeta task k)"
  using retried_chain [OF assms(1,2,3)] assms(4) by simp

theorem retries_bounded_witness:
  "\<exists>t. retried sample_wire sample_queue sample_task 1 t \<and> tkPrompt t = ''hi'' \<and> sint (task_attempt t) = 1"
proof -
  have "next_task sample_wire sample_queue sample_task ''5-0'' \<noteq> None" by code_simp
  then obtain t where t: "next_task sample_wire sample_queue sample_task ''5-0'' = Some t" by auto
  have r: "retried sample_wire sample_queue sample_task 1 t"
    using retried.again [OF retried.first t] by simp
  have "task_attempt sample_task = 0" by code_simp
  with retries_bounded [OF sample_wire_ok _ r] r show ?thesis by (auto simp: sample_task_def)
qed

section \<open>Results\<close>

text \<open>
  C14: The result of a task reaches its step intact. What \<open>Ack\<close> writes for task \<open>tid\<close>, read back from the
  results stream, makes \<open>collectResults\<close> finish the step that waits for \<open>tid\<close> with that text and those
  token counts, if it is the last result for \<open>tid\<close>.
\<close>

theorem Ack_finishes_step:
  assumes "range_ok E" and "wire_ok wire" and "qStream q = ''agent-tasks''"
    and "collectResults E F rdb m sts w = (Inr sts', w')"
    and "Ack q (stTaskID (sts ! i)) result usage = [c, XAdd resultsStream values]"
    and "feXRange F rdb resultsStream w = Inr (before @ stored_msg wire mid values # after)"
    and "result_for after (stTaskID (sts ! i)) = None"
    and "i < length sts" and "m (stName (sts ! i)) = Some i" and "is_waiting (sts ! i)" and "unique_task sts i"
    and "0 < sint (quInputTokens usage)"
  shows "stPhase (sts' ! i) = StepSucceeded \<and> stOutput (sts' ! i) = result \<and>
     stTokenUsage (sts' ! i) = Some \<lparr>tuInputTokens = quInputTokens usage, tuOutputTokens = quOutputTokens usage,
        tuTotalTokens = quInputTokens usage + quOutputTokens usage\<rparr>"
proof -
  obtain vs where "Ack q (stTaskID (sts ! i)) result usage = [XAck (qStream q) (qGroup q) (stTaskID (sts ! i)), XAdd resultsStream vs]"
    and f: "any_string (rmValues (stored_msg wire mid vs) ''task_id'') = stTaskID (sts ! i)"
    "any_string (rmValues (stored_msg wire mid vs) ''result'') = result"
    "ToInt64 (rmValues (stored_msg wire mid vs) ''input_tokens'') = quInputTokens usage"
    "ToInt64 (rmValues (stored_msg wire mid vs) ''output_tokens'') = quOutputTokens usage"
    using stored_ack_fields [OF assms(2,3)] by blast
  with assms(5) have vs: "values = vs" by simp
  have "result_for (stored_msg wire mid values # after) (stTaskID (sts ! i)) = Some (stored_msg wire mid values)"
    using assms(7) f(1) by (simp add: result_for_Cons vs)
  then have "result_for (before @ stored_msg wire mid values # after) (stTaskID (sts ! i)) = Some (stored_msg wire mid values)"
    by (induction before) (simp_all add: result_for_Cons)
  with collectResults_nth [OF assms(1,4,6,8-11)] have "finished_with (stored_msg wire mid vs) (sts' ! i)"
    by (simp add: vs)
  with f assms(12) show ?thesis by (simp add: finished_with_def)
qed

definition acked_env :: "int flow_env" where
  "acked_env = sample_env\<lparr>feXRange := (\<lambda>a s w. Inr [stored_msg sample_wire ''2-0''
     [''task_id'' \<mapsto> AStr ''1-0'', ''result'' \<mapsto> AStr ''done'', ''input_tokens'' \<mapsto> AInt 3, ''output_tokens'' \<mapsto> AInt 4]])\<rparr>"

theorem Ack_finishes_step_witness:
  "\<exists>sts' w'. collectResults sample_ext acked_env ''q'' (BuildStatusByName sample_flow) (fSteps sample_status) 0
     = (Inr sts', w') \<and> stPhase (sts' ! 0) = StepSucceeded \<and> stOutput (sts' ! 0) = ''done''"
proof -
  let ?r = "collectResults sample_ext acked_env ''q'' (BuildStatusByName sample_flow) (fSteps sample_status) 0"
  have "\<not> isl (fst ?r)" by code_simp
  then obtain sts' w' where r: "?r = (Inr sts', w')" by (metis prod.collapse sum.collapse(2))
  have x: "feXRange acked_env ''q'' resultsStream 0 = Inr ([] @ stored_msg sample_wire ''2-0''
     [''task_id'' \<mapsto> AStr ''1-0'', ''result'' \<mapsto> AStr ''done'', ''input_tokens'' \<mapsto> AInt 3, ''output_tokens'' \<mapsto> AInt 4] # [])"
    by (simp add: acked_env_def)
  have tid: "stTaskID (fSteps sample_status ! 0) = ''1-0''" by (simp add: sample_status_def)
  have q: "qStream sample_queue = ''agent-tasks''" by (simp add: sample_queue_def)
  have a: "Ack sample_queue (stTaskID (fSteps sample_status ! 0)) ''done'' \<lparr>quInputTokens = 3, quOutputTokens = 4\<rparr>
      = [XAck ''agent-tasks'' ''agent-workers'' ''1-0'', XAdd resultsStream
     [''task_id'' \<mapsto> AStr ''1-0'', ''result'' \<mapsto> AStr ''done'', ''input_tokens'' \<mapsto> AInt 3, ''output_tokens'' \<mapsto> AInt 4]]"
    by (simp add: tid Ack_def sample_queue_def resultsStream_def)
  have m: "BuildStatusByName sample_flow (stName (fSteps sample_status ! 0)) = Some 0" by code_simp
  have u: "unique_task (fSteps sample_status) 0"
    by (auto simp: unique_task_def sample_status_def is_waiting_def pending_status_def less_Suc_eq numeral_2_eq_2)
  have f: "is_waiting (fSteps sample_status ! 0)" by code_simp
  have l: "0 < length (fSteps sample_status)" by (simp add: sample_status_def)
  from Ack_finishes_step [OF sample_range_ok sample_wire_ok q r a x _ l m f u] r show ?thesis by simp
qed

text \<open>
  A task that fails leaves no result. The commands that end it write to the task stream or to the
  dead-letter stream and never to the results stream, so the step that waits for it can only end by
  the timeout of its flow.
\<close>

theorem failed_task_no_result:
  "set (finish_cmds E q t (answer, usage, Some e)) \<inter> range (XAdd (qStream q @ ''-results'')) = {}"
  using Nack_streams [of _ _ q t "aeErrText E e"]
  by (auto simp: finish_cmds_def DoneChunk_def)



section \<open>Tools\<close>

text \<open>
  Every tool the model is offered leads to a handler: a call by an advertised name goes to the built-in,
  to the first webhook of that name, or to the server of the first MCP tool of that name, in this order.
  The answer that no server has the tool is for names that were not offered.
\<close>

theorem CallTool_dispatch:
  assumes "n \<in> advertised (new_runner cfg mgr q)"
  shows "CallTool E (new_runner cfg mgr q) n input w =
     (if n = submitSubtaskTool \<and> q \<noteq> None then call_submit E (the q) input w
      else case find (\<lambda>wt. wcName wt = n) (cfgWebhookTools cfg) of
             Some wt \<Rightarrow> callWebhook (aeHttp E) wt input w
           | None \<Rightarrow> call_server (aeHttp E) (the (find (\<lambda>t. tlName t = n) mgr)) input w)"
proof -
  have "find (\<lambda>t. tlName t = n) mgr \<noteq> None"
    if "\<not> (n = submitSubtaskTool \<and> q \<noteq> None)" and "find (\<lambda>wt. wcName wt = n) (cfgWebhookTools cfg) = None"
    using assms that by (auto simp: advertised_new_runner find_None_iff split: if_splits)
  then show ?thesis
    by (auto simp: CallTool_def new_runner_def buildTools_def find_webhook_first mcp_CallTool_first split: option.split)
qed

theorem CallTool_dispatch_witness:
  "CallTool sample_agent_env (new_runner sample_config [] (Some sample_queue)) submitSubtaskTool ''go'' (0, [])
     = call_submit sample_agent_env sample_queue ''go'' (0, [])"
proof -
  have "submitSubtaskTool \<in> advertised (new_runner sample_config [] (Some sample_queue))"
    by (simp add: advertised_new_runner)
  from CallTool_dispatch [OF this] show ?thesis by simp
qed

text \<open>
  The agent answers every tool use of a turn, once, in order and under its ID, whether the tool
  succeeded or not; content of other kinds gets no answer.
\<close>

fun answered_id :: "an_param \<Rightarrow> string option" where
  "answered_id (PToolResult i _ _) = Some i"
| "answered_id _ = None"

theorem executeTools_answers:
  "map answered_id (fst (executeTools content callTool w)) =
     map (\<lambda>b. Some (abID b)) (filter (\<lambda>b. abType b = ''tool_use'') content)"
proof (induction content arbitrary: w)
  case Nil
  show ?case by simp
next
  case (Cons b content)
  obtain res w1 where call: "callTool (abName b) (abInput b) w = (res, w1)" by fastforce
  from Cons [of w] Cons [of w1] call show ?case by (cases res) (auto simp: Let_def split: prod.splits)
qed

section \<open>The probe\<close>

text \<open>
  The readiness endpoint answers 200 exactly when no validator prompt is set, or the run succeeded with
  a text that contains \<open>HEALTHY\<close>, and 503 otherwise. The text need not say so in the affirmative:
  the witness is a model that answers \<open>UNHEALTHY\<close>.
\<close>

theorem readyz_answers:
  assumes "readyz E r p v w = Some ((status, body), w')"
  shows "status = (if v = [] then 200
     else case RunTask E r p \<lparr>tkID = ''health-probe'', tkPrompt = v, tkMeta = Map.empty\<rparr> (aeWithTimeout E (15 * Second) w) of
        Some ((result, _, None), _) \<Rightarrow> if Contains result ''HEALTHY'' then 200 else 503
      | _ \<Rightarrow> 503)"
  using assms by (auto simp: readyz_def split: if_splits option.splits prod.splits)

theorem readyz_answers_witness:
  "\<exists>body w'. readyz sample_agent_env sample_runner (anthropic_RunTask sample_anthropic) ''ok?'' (0, [])
     = Some ((200, body), w') \<and>
   (\<exists>u w'. RunTask sample_agent_env sample_runner (anthropic_RunTask sample_anthropic)
      \<lparr>tkID = ''health-probe'', tkPrompt = ''ok?'', tkMeta = Map.empty\<rparr> (0, []) = Some ((''UNHEALTHY'', u, None), w'))"
proof -
  let ?t = "\<lparr>tkID = ''health-probe'', tkPrompt = ''ok?'', tkMeta = Map.empty\<rparr>"
  have run: "\<exists>u. RunTask sample_agent_env sample_runner (anthropic_RunTask sample_anthropic) ?t (0, [])
      = Some ((''UNHEALTHY'', u, None), (0, []))"
    by (simp add: RunTask_def chunk_fn_of_def anthropic_RunTask_def sample_runner_def sample_anthropic_def
        stream_key_of_def Let_def agent_loop.simps an_turn_def toAnthropicTools_def emit_def)
  let ?z = "readyz sample_agent_env sample_runner (anthropic_RunTask sample_anthropic) ''ok?'' (0, [])"
  from run have "?z \<noteq> None" by (auto simp: readyz_def simp del: Contains.simps)
  then obtain st b w' where z: "?z = Some ((st, b), w')" by (metis not_None_eq prod.collapse)
  have "Contains ''UNHEALTHY'' ''HEALTHY''" by code_simp
  with readyz_answers [OF z] run have "st = 200" by (auto simp del: Contains.simps)
  with z run show ?thesis by auto
qed

end
