(* ===== verification/SystemProps.thy ===== *)
theory SystemProps
  imports SystemSafety FlowLiveness AgentProps
begin

text \<open>The properties of the program as a whole.\<close>

section \<open>Flows end\<close>

text \<open>
  C2: Flows end. For a valid flow whose tasks in flight are answered before each pass, the number of passes
  that leave it running is bounded by its rank: a sum over its steps of a few moves for each run of the
  step that its loop limit allows. So a flow that agents answer reaches a terminal phase, whatever its
  templates, loops and conditions compute.
\<close>

theorem flow_finishes:
  assumes "range_ok E" and "ValidateDAG f = None" and "entries_match f" and "fPhase (flStatus f) \<noteq> FlowEmpty"
    and "passes E F a n f g"
  shows "n \<le> flow_rank (name_limit (fsSteps (flSpec f))) (fSteps (flStatus f))"
  using passes_rank [OF assms(1,5,2,3,4)] by simp

theorem flow_finishes_witness:
  "\<exists>g. passes sample_ext sample_env ''q'' 1 sample_flow g \<and>
     1 \<le> flow_rank (name_limit (fsSteps sample_spec)) (fSteps sample_status)"
proof -
  obtain g w' where run: "run_flow sample_ext sample_env ''q'' sample_flow 0 = (Inr g, w')"
    using sample_run by (metis prod.collapse sum.collapse(2))
  have "\<not> IsTerminalPhase (fPhase (flStatus (projr (fst (run_flow sample_ext sample_env ''q'' sample_flow 0)))))"
    by code_simp
  with run have going: "\<not> IsTerminalPhase (fPhase (flStatus g))" by simp
  have ans: "all_answered sample_env ''q'' sample_flow 0"
    by (auto simp: all_answered_def sample_flow_def sample_status_def sample_env_def in_flight_def is_waiting_def
        unique_task_def pending_status_def result_for_def sample_result_def less_Suc_eq)
  have match: "entries_match sample_flow"
    by (simp add: entries_match_def sample_flow_def sample_status_def sample_spec_def sample_step_def pending_status_def)
  have "passes sample_ext sample_env ''q'' (Suc 0) sample_flow g"
    using passes.start ans run going by (rule passes.pass)
  with flow_finishes [OF sample_range_ok sample_valid match _ this] show ?thesis
    by (auto simp: sample_flow_def sample_status_def)
qed

section \<open>Outputs answer prompts\<close>

text \<open>
  C1: End to end, an output answers its prompt. In every state the system reaches, whatever the order in
  which reconciles, pods and everybody else act, however stale the reads, and whichever tasks are lost
  or retried: the output of a step that has succeeded is what a provider answered, in a run that ended
  without an error, to a task whose prompt is that of the step itself, resolved over some progress of the
  same flow. Results of other steps, of other flows, of subtasks and of failed attempts never
  reach it. (Which pod ran the task is open: the pods of all agents read the one task stream.)
\<close>

theorem outputs_answer_prompts:
  assumes "range_ok E" and "wire_ok wire" and "flow_world V wire a F" and "agent_world V wire a A"
    and "\<forall>p. pod_ok V a (pods p)" and "sys_start V F a s0" and "(sys_step E F A V pods)\<^sup>*\<^sup>* s0 s"
    and "feGetFlow F (syWorld s) req = Inr f" and "st \<in> set (fSteps (flStatus f))" and "stPhase st = StepSucceeded"
  shows "\<exists>step \<in> set (fsSteps (flSpec f)). \<exists>mid t p w usage w'. sName step = stName st \<and> same_shape mid f \<and>
     ResolvePrompt E step (BuildTemplateData E mid (BuildStatusByName mid)) = Inr (tkPrompt t) \<and>
     tkID t = stTaskID st \<and>
     RunTask A (pdRunner (pods p)) (pdRun (pods p)) t w = Some ((stOutput st, usage, None), w')"
proof -
  have "sys_inv V E F A pods a s"
    using assms(5) by (intro sys_reachable_inv [OF assms(3,4) _ assms(2,1,6,7)]) simp
  then have "world_ok V E A pods (syWorld s)" by (simp add: sys_inv_def)
  moreover have "f \<in> vwFlows V (syWorld s)" using assms(3,8) by (simp add: flow_world_def)
  ultimately obtain t where "tkID t = stTaskID st" "prompt_of E f (stName st) (tkPrompt t)"
      "answered A pods t (stOutput st)"
    using succeeded_answers [OF _ _ assms(9,10)] by metis
  then show ?thesis unfolding prompt_of_def answered_def by metis
qed

text \<open>
  A cluster for the witness: two streams that only grow, with a reader of the first, and the flows stored.
  An ID is longer than all before.
\<close>

record small_world =
  smTasks :: "redis_msg list"
  smRead :: nat
  smResults :: "redis_msg list"
  smFlows :: "ArkFlow list"

definition small_id :: "redis_msg list \<Rightarrow> string" where
  "small_id ms = replicate (Suc (sum_list (map (length \<circ> rmID) ms))) CHR ''1''"

definition small_add :: "redis_msg list \<Rightarrow> (string \<rightharpoonup> any) \<Rightarrow> redis_msg list" where
  "small_add ms v = ms @ [stored_msg sample_wire (small_id ms) v]"

definition small_flow_env :: "small_world flow_env" where
  "small_flow_env =
     \<lparr>feGetFlow = (\<lambda>w req. case smFlows w of [] \<Rightarrow> Inl (ApiNotFound (TLit ''not found'')) | f # _ \<Rightarrow> Inr f),
      feListEvents = (\<lambda>w ns. Inr []), feGetAgent = (\<lambda>w req. Inr sample_agent),
      feUpdateStatus = (\<lambda>f w. (None, w\<lparr>smFlows := f # smFlows w\<rparr>)), feParseURL = (\<lambda>u. Inr u),
      feXAdd = (\<lambda>a s v w. (Inr (small_id (smTasks w)), w\<lparr>smTasks := small_add (smTasks w) v\<rparr>)),
      feXRange = (\<lambda>a s w. Inr (smResults w)), feNow = (\<lambda>w. (0, w))\<rparr>"

definition small_redis :: "small_world redis_env" where
  "small_redis =
     \<lparr>reParseURL = (\<lambda>u. Inr u),
      reCmd = (\<lambda>a c w. case c of
          XAdd s v \<Rightarrow> (Inr [], if s = taskStream then w\<lparr>smTasks := small_add (smTasks w) v\<rparr>
                            else if s = resultsStream then w\<lparr>smResults := small_add (smResults w) v\<rparr> else w)
        | _ \<Rightarrow> (Inr [], w)),
      reXReadGroup = (\<lambda>a g c s w. if smRead w < length (smTasks w)
          then (Inr [[smTasks w ! smRead w]], w\<lparr>smRead := Suc (smRead w)\<rparr>) else (Inl RedisNil, w))\<rparr>"

definition small_agent_env :: "small_world agent_env" where
  "small_agent_env =
     \<lparr>aeHttp = sample_http, aeRedis = small_redis, aePromptArg = (\<lambda>s. Inr s), aeErrText = (\<lambda>_. ''failed''),
      aeWithTimeout = (\<lambda>_ w. w)\<rparr>"

definition small_view :: "small_world view" where
  "small_view = \<lparr>vwTasks = (\<lambda>w. set (smTasks w)), vwResults = (\<lambda>w. set (smResults w)), vwFlows = (\<lambda>w. set (smFlows w))\<rparr>"

definition small_sleep :: "duration \<Rightarrow> small_world \<Rightarrow> gotext option \<times> small_world" where
  "small_sleep d w = (None, w)"

definition small_provider :: "small_world provider" where
  "small_provider = mock_RunTask (\<lambda>s. s) small_sleep \<lparr>mkResponses = [], mkDefault = ''done'', mkDelay = 0\<rparr>"

definition small_pod :: "small_world pod" where
  "small_pod = \<lparr>pdRunner = sample_runner, pdRun = small_provider, pdOwn = (\<lambda>w w'. \<exists>d. w' = snd (small_sleep d w)),
     pdQueue = sample_queue\<rparr>"

definition small_pods :: "unit \<Rightarrow> small_world pod" where
  "small_pods _ = small_pod"

definition small_start :: "(unit, small_world) sys" where
  "small_start =
     \<lparr>syReconciler = \<lparr>rTaskQueueURL = ''redis'', rRedisOnce = False, rRdb = None\<rparr>, syHeld = (\<lambda>_. []),
      syWorld = \<lparr>smTasks = [], smRead = 0, smResults = [],
        smFlows = [sample_flow\<lparr>flStatus := sample_status\<lparr>fPhase := FlowEmpty, fSteps := []\<rparr>\<rparr>]\<rparr>\<rparr>"

lemma small_id_fresh: "msg \<in> set ms \<Longrightarrow> rmID msg \<noteq> small_id ms"
proof
  assume "msg \<in> set ms" and eq: "rmID msg = small_id ms"
  from this(1) have "(length \<circ> rmID) msg \<in> set (map (length \<circ> rmID) ms)" by auto
  then have "(length \<circ> rmID) msg \<le> sum_list (map (length \<circ> rmID) ms)" by (intro member_le_sum_list) auto
  with eq show False by (simp add: small_id_def)
qed

lemma small_add_grows:
  "unique_ids (set ms) \<Longrightarrow> unique_ids (set (small_add ms v))" "set ms \<subseteq> set (small_add ms v)"
  using small_id_fresh [of _ ms] by (fastforce simp: unique_ids_def small_add_def stored_msg_def)+

lemmas small_simps = grows_def small_view_def small_flow_env_def small_redis_def small_add_grows

lemma small_flow_world: "flow_world small_view sample_wire ''redis'' small_flow_env"
proof -
  have "fst (feXAdd small_flow_env a s v w) = Inr tid \<Longrightarrow> tid \<noteq> [] \<and>
      stored_msg sample_wire tid v \<in> vwTasks small_view (snd (feXAdd small_flow_env a s v w))" for a s v w tid
    by (auto simp: small_flow_env_def small_view_def small_add_def small_id_def)
  moreover have "feGetFlow small_flow_env w req = Inr f \<Longrightarrow> f \<in> vwFlows small_view w" for w req f
    by (auto simp: small_flow_env_def small_view_def split: list.splits)
  ultimately show ?thesis by (auto simp: flow_world_def small_simps)
qed

lemma small_agent_world: "agent_world small_view sample_wire ''redis'' small_agent_env"
proof -
  have "grows small_view (cmd_results sample_wire c) {} w (snd (reCmd small_redis a c w))" for a c w
    by (cases c) (auto simp: small_simps, auto simp: small_add_def)
  then show ?thesis
    by (auto simp: agent_world_def small_agent_env_def quiet_def sample_http_def small_redis_def small_view_def grows_def)
qed

lemma small_pod_ok: "pod_ok small_view ''redis'' (small_pods p)"
proof -
  have "sealed_provider small_provider (\<lambda>w w'. \<exists>d. w' = snd (small_sleep d w))"
    unfolding small_provider_def by (rule mock.sealed_provider_axioms)
  then show ?thesis
    by (auto simp: pod_ok_def small_pods_def small_pod_def sample_queue_def sample_runner_def taskStream_def
        small_sleep_def quiet_def)
qed

lemma small_sys_start: "sys_start small_view small_flow_env ''redis'' small_start"
  by (simp add: sys_start_def small_start_def small_view_def unique_ids_def getRedis_def small_flow_env_def)

text \<open>Four steps of the system: the first pass, a poll, the task, and the second pass.\<close>

definition small_pass :: "(unit, small_world) sys \<Rightarrow> (unit, small_world) sys" where
  "small_pass s = (let (_, r, w) = Reconcile sample_ext small_flow_env (syReconciler s) sample_request (syWorld s)
     in s\<lparr>syReconciler := r, syWorld := w\<rparr>)"

definition small_poll :: "(unit, small_world) sys \<Rightarrow> (unit, small_world) sys" where
  "small_poll s = (let (t, w) = poll_round small_agent_env sample_queue (syWorld s)
     in s\<lparr>syHeld := (\<lambda>_. [the t]), syWorld := w\<rparr>)"

definition small_task :: "(unit, small_world) sys \<Rightarrow> (unit, small_world) sys" where
  "small_task s = s\<lparr>syHeld := (\<lambda>_. []), syWorld := the (handle_task small_agent_env sample_runner
     small_provider sample_queue (hd (syHeld s ())) (syWorld s))\<rparr>"

abbreviation small_step :: "(unit, small_world) sys \<Rightarrow> (unit, small_world) sys \<Rightarrow> bool" where
  "small_step \<equiv> sys_step sample_ext small_flow_env small_agent_env small_view small_pods"

lemma small_pass_step: "small_step s (small_pass s)"
proof -
  obtain res r w where "Reconcile sample_ext small_flow_env (syReconciler s) sample_request (syWorld s) = (res, r, w)"
    by (metis prod_cases3)
  from reconciled [OF this] this show ?thesis by (simp add: small_pass_def)
qed

lemma small_agent_step:
  "agent_step small_agent_env sample_runner small_provider sample_queue (syHeld s (), syWorld s) (ts, w) \<Longrightarrow>
     small_step s (s\<lparr>syHeld := (\<lambda>_. ts), syWorld := w\<rparr>)"
  using agent [of small_agent_env small_pods "()" s ts w]
  by (simp add: small_pods_def small_pod_def fun_upd_def)

lemma small_poll_step:
  assumes "syHeld s () = []" and "fst (poll_round small_agent_env sample_queue (syWorld s)) \<noteq> None"
  shows "small_step s (small_poll s)"
proof -
  from assms(2) obtain t w where "poll_round small_agent_env sample_queue (syWorld s) = (Some t, w)"
    by (metis prod.collapse option.exhaust)
  with polled [OF this] assms(1) show ?thesis by (simp add: small_poll_def small_agent_step)
qed

lemma small_task_step:
  assumes "length (syHeld s ()) = 1"
    and "handle_task small_agent_env sample_runner small_provider sample_queue (hd (syHeld s ())) (syWorld s) \<noteq> None"
  shows "small_step s (small_task s)"
proof -
  from assms(1) obtain t where t: "syHeld s () = [t]" by (metis One_nat_def length_0_conv length_Suc_conv)
  with assms(2) obtain w where "handle_task small_agent_env sample_runner small_provider sample_queue t (syWorld s) = Some w"
    by auto
  with handled [OF this, of "[]" "[]"] t show ?thesis by (simp add: small_task_def small_agent_step)
qed

definition small_end :: "(unit, small_world) sys" where
  "small_end = small_pass (small_task (small_poll (small_pass small_start)))"

lemma small_run: "small_step\<^sup>*\<^sup>* small_start small_end"
proof -
  have "syHeld (small_pass small_start) () = []" by (simp add: small_pass_def small_start_def split_beta Let_def)
  moreover have "fst (poll_round small_agent_env sample_queue (syWorld (small_pass small_start))) \<noteq> None" by code_simp
  ultimately have p: "small_step (small_pass small_start) (small_poll (small_pass small_start))" by (rule small_poll_step)
  have "length (syHeld (small_poll (small_pass small_start)) ()) = 1" by (simp add: small_poll_def split_beta Let_def)
  moreover have "handle_task small_agent_env sample_runner small_provider sample_queue
      (hd (syHeld (small_poll (small_pass small_start)) ())) (syWorld (small_poll (small_pass small_start))) \<noteq> None"
    by code_simp
  ultimately have t: "small_step (small_poll (small_pass small_start)) (small_task (small_poll (small_pass small_start)))"
    by (rule small_task_step)
  show ?thesis unfolding small_end_def
    using small_pass_step p t small_pass_step by (meson rtranclp.rtrancl_into_rtrancl rtranclp.rtrancl_refl)
qed

theorem outputs_answer_prompts_witness:
  "\<exists>f st t w usage w'. feGetFlow small_flow_env (syWorld small_end) sample_request = Inr f \<and>
     st \<in> set (fSteps (flStatus f)) \<and> stOutput st = ''done'' \<and> tkID t = stTaskID st \<and>
     RunTask small_agent_env sample_runner small_provider t w = Some ((''done'', usage, None), w')"
proof -
  have "\<not> isl (feGetFlow small_flow_env (syWorld small_end) sample_request)" by code_simp
  then obtain f where f: "feGetFlow small_flow_env (syWorld small_end) sample_request = Inr f"
    by (metis isl_def sum.collapse(2))
  have sts: "map (\<lambda>st. (stPhase st, stOutput st)) (fSteps (flStatus (projr (feGetFlow small_flow_env (syWorld small_end) sample_request))))
      = [(StepSucceeded, ''done''), (StepRunning, [])]" by code_simp
  define st where "st = fSteps (flStatus f) ! 0"
  from sts f have len: "fSteps (flStatus f) \<noteq> []" by auto
  with sts f have st: "st \<in> set (fSteps (flStatus f))" "stPhase st = StepSucceeded" "stOutput st = ''done''"
    unfolding st_def by (cases "fSteps (flStatus f)"; simp)+
  have pods: "\<forall>p. pod_ok small_view ''redis'' (small_pods p)" by (simp add: small_pod_ok)
  from outputs_answer_prompts [OF sample_range_ok sample_wire_ok small_flow_world small_agent_world pods
      small_sys_start small_run f st(1,2)]
  obtain t w usage w' where "tkID t = stTaskID st"
    and "RunTask small_agent_env sample_runner small_provider t w = Some ((''done'', usage, None), w')"
    by (auto simp: small_pods_def small_pod_def st(3))
  with f st show ?thesis by blast
qed

end
