(* ===== verification/FlowAgents.thy ===== *)
theory FlowAgents
  imports FlowProps AgentQueue
begin

text \<open>
  What the agent named by a step decides. Giving the steps of a flow to other agents changes nothing that a pass
  does: the same tasks go to the same stream, which every agent pod reads as a member of one group.
\<close>

section \<open>Reassigning steps\<close>

definition reassign :: "(ArkFlowStep \<Rightarrow> string) \<Rightarrow> ArkFlowStep \<Rightarrow> ArkFlowStep" where
  "reassign ag step = step\<lparr>sArkAgent := ag step\<rparr>"

definition with_agents :: "(ArkFlowStep \<Rightarrow> string) \<Rightarrow> ArkFlow \<Rightarrow> ArkFlow" where
  "with_agents ag f = f\<lparr>flSpec := (flSpec f)\<lparr>fsSteps := map (reassign ag) (fsSteps (flSpec f))\<rparr>\<rparr>"

lemma reassign_simps [simp]:
  "sName (reassign ag s) = sName s" "sInputs (reassign ag s) = sInputs s" "sDependsOn (reassign ag s) = sDependsOn s"
  "sOutputSchema (reassign ag s) = sOutputSchema s" "sIf (reassign ag s) = sIf s" "sLoop (reassign ag s) = sLoop s"
  "sArkAgent (reassign ag s) = ag s"
  by (simp_all add: reassign_def)

lemma with_agents_simps [simp]:
  "flMeta (with_agents ag f) = flMeta f" "flStatus (with_agents ag f) = flStatus f"
  "fsSteps (flSpec (with_agents ag f)) = map (reassign ag) (fsSteps (flSpec f))"
  "fsInput (flSpec (with_agents ag f)) = fsInput (flSpec f)" "fsOutput (flSpec (with_agents ag f)) = fsOutput (flSpec f)"
  "fsTimeoutSeconds (flSpec (with_agents ag f)) = fsTimeoutSeconds (flSpec f)"
  "fsMaxTokens (flSpec (with_agents ag f)) = fsMaxTokens (flSpec f)"
  by (simp_all add: with_agents_def)

lemma with_agents_status: "(with_agents ag f)\<lparr>flStatus := s\<rparr> = with_agents ag (f\<lparr>flStatus := s\<rparr>)"
  by (simp add: with_agents_def)

section \<open>The stages of a pass\<close>

lemma SetCondition_agents: "SetCondition E (with_agents ag f) s r t = with_agents ag (SetCondition E f s r t)"
  by (simp add: SetCondition_def with_agents_status)

lemma initialize_agents:
  "initialize E F (with_agents ag f) w = (let (g, w') = initialize E F f w in (with_agents ag g, w'))"
proof -
  have p: "pending_status (reassign ag s) = pending_status s" for s by (simp add: pending_status_def)
  have "InitializeSteps E (with_agents ag f) now = with_agents ag (InitializeSteps E f now)" for now
    by (simp add: InitializeSteps_def Let_def with_agents_status SetCondition_agents p comp_def)
  then show ?thesis by (simp add: initialize_def split: prod.split)
qed

lemma BuildStatusByName_agents [simp]: "BuildStatusByName (with_agents ag f) = BuildStatusByName f"
  by (rule BuildStatusByName_names) simp

lemma BuildTemplateData_agents [simp]: "BuildTemplateData E (with_agents ag f) m = BuildTemplateData E f m"
  by (simp add: BuildTemplateData_def)

lemma schemaByName_agents [simp]: "schemaByName (map (reassign ag) ss) = schemaByName ss"
proof -
  have "fold (\<lambda>s m. if sOutputSchema s \<noteq> [] then m(sName s \<mapsto> sOutputSchema s) else m) (map (reassign ag) ss) m =
      fold (\<lambda>s m. if sOutputSchema s \<noteq> [] then m(sName s \<mapsto> sOutputSchema s) else m) ss m" for m
    by (induction ss arbitrary: m) auto
  then show ?thesis by (simp add: schemaByName_def)
qed

lemma ParseOutputJSON_agents: "ParseOutputJSON E (with_agents ag f) m = with_agents ag (ParseOutputJSON E f m)"
  by (simp add: ParseOutputJSON_def Let_def with_agents_status)

lemma eval_loop_step_agents: "eval_loop_step E m data (reassign ag s) = eval_loop_step E m data s"
  by (rule ext) (simp add: eval_loop_step_def split: option.split)

lemma EvaluateLoops_agents: "EvaluateLoops E (with_agents ag f) m data = with_agents ag (EvaluateLoops E f m data)"
  by (simp add: EvaluateLoops_def fold_map comp_def eval_loop_step_agents with_agents_status)

lemma submit_step_agents:
  "fst (submit_step E F rdb f m data s sts w) = None \<Longrightarrow>
     submit_step E F rdb (with_agents ag f) m data (reassign ag s) sts w = submit_step E F rdb f m data s sts w"
  by (auto simp: submit_step_def condition_holds_def ResolvePrompt_def stream_key_def Let_def
      split: option.splits sum.splits prod.splits)

lemma submit_steps_agents:
  "fst (submit_steps E F rdb f m data ss sts w) = None \<Longrightarrow>
     submit_steps E F rdb (with_agents ag f) m data (map (reassign ag) ss) sts w = submit_steps E F rdb f m data ss sts w"
proof (induction ss arbitrary: sts w)
  case (Cons s ss)
  obtain err sts1 w1 where one: "submit_step E F rdb f m data s sts w = (err, sts1, w1)" by (metis prod_cases3)
  with Cons.prems have "err = None" by (cases err) auto
  with one submit_step_agents [of E F rdb f m data s sts w ag] Cons show ?case by simp
qed simp

lemma submitPendingSteps_agents:
  "submitPendingSteps E F rdb f m data w = (None, g, w') \<Longrightarrow>
     submitPendingSteps E F rdb (with_agents ag f) m data w = (None, with_agents ag g, w')"
  using submit_steps_agents [of E F rdb f m data "fsSteps (flSpec f)" "fSteps (flStatus f)" w ag]
  by (auto simp: submitPendingSteps_def with_agents_status Let_def split: prod.splits)

lemma SumStepTokens_agents:
  "SumStepTokens (with_agents ag f) = (fst (SumStepTokens f), with_agents ag (snd (SumStepTokens f)))"
  by (simp add: SumStepTokens_def Let_def with_agents_status split: prod.split)

lemma EnforceTimeout_agents:
  "EnforceTimeout E (with_agents ag f) now = (fst (EnforceTimeout E f now), with_agents ag (snd (EnforceTimeout E f now)))"
  by (simp add: EnforceTimeout_def Let_def with_agents_status SetCondition_agents split: option.split)

lemma UpdateFlowPhase_agents: "UpdateFlowPhase E (with_agents ag f) data now = with_agents ag (UpdateFlowPhase E f data now)"
  by (simp add: UpdateFlowPhase_def EnforceTimeout_agents SumStepTokens_agents with_agents_status SetCondition_agents Let_def
      split: prod.split)

lemma observe_agents: "observe (with_agents ag f) = with_agents ag (observe f)"
  by (simp add: observe_def with_agents_status)

section \<open>The pass\<close>

text \<open>
  C26: the agent that a step names has no part in running it. If the steps of a flow are given to other agents, a pass that
  succeeds has the same effects, task by task, and stores the same statuses; and the queue of every agent pod, whatever
  its configuration, is the one stream that all tasks go to, read in one group. So any agent may run any step.
\<close>
theorem agent_choice_ignored:
  assumes "run_flow E F rdb f w = (Inr g, w')"
  shows "run_flow E F rdb (with_agents ag f) w = (Inr (with_agents ag g), w') \<and>
     (\<forall>R getenv addr n v. qStream (fst (new_queue R getenv addr n v)) = taskStream \<and>
        qGroup (fst (new_queue R getenv addr n v)) = ''agent-workers'')"
proof
  obtain f1 w1 where i: "initialize E F f w = (f1, w1)" by fastforce
  let ?m = "BuildStatusByName f1"
  obtain sts w2 where c: "collectResults E F rdb ?m (fSteps (flStatus f1)) w1 = (Inr sts, w2)"
    using assms i by (auto simp: run_flow_def Let_def split: prod.splits sum.splits)
  let ?f2 = "ParseOutputJSON E (f1\<lparr>flStatus := (flStatus f1)\<lparr>fSteps := sts\<rparr>\<rparr>) ?m"
  let ?data = "BuildTemplateData E ?f2 ?m"
  let ?f3 = "EvaluateLoops E ?f2 ?m ?data"
  obtain f4 w3 where s: "submitPendingSteps E F rdb ?f3 ?m ?data w2 = (None, f4, w3)"
    using assms i c by (auto simp: run_flow_def Let_def split: prod.splits option.splits)
  obtain now where n: "feNow F w3 = (now, w')" "g = observe (UpdateFlowPhase E f4 ?data now)"
    using assms i c s by (auto simp: run_flow_def Let_def split: prod.splits)
  show "run_flow E F rdb (with_agents ag f) w = (Inr (with_agents ag g), w')"
    by (simp add: run_flow_def initialize_agents i c with_agents_status ParseOutputJSON_agents EvaluateLoops_agents
        submitPendingSteps_agents [OF s] n UpdateFlowPhase_agents observe_agents Let_def)
qed (simp add: new_queue_def taskStream_def Let_def)

lemma agent_choice_ignored_witness:
  "\<exists>g w'. run_flow sample_ext sample_env ''q'' sample_flow 0 = (Inr g, w') \<and>
     run_flow sample_ext sample_env ''q'' (with_agents (\<lambda>s. ''other'') sample_flow) 0 = (Inr (with_agents (\<lambda>s. ''other'') g), w')"
proof -
  obtain r w' where r: "run_flow sample_ext sample_env ''q'' sample_flow 0 = (r, w')" by fastforce
  moreover have "isl (fst (run_flow sample_ext sample_env ''q'' sample_flow 0)) = False" by code_simp
  ultimately obtain g where "r = Inr g" by (cases r) auto
  with r agent_choice_ignored [of sample_ext sample_env "''q''" sample_flow 0 g w' "\<lambda>s. ''other''"] show ?thesis by auto
qed

end
