(* ===== verification/GoMemory.thy ===== *)
theory GoMemory
  imports ArkTypes "HOL-Library.AList"
begin

text \<open>
  Go memory, for the one place where the code depends on it: deep copies. A value is what a variable
  holds, with the addresses of what it points to; \<open>reads\<close> follows the addresses to the tree of data that a
  value stands for and collects those it meets. A \<^emph>\<open>copier\<close> is a \<open>DeepCopyInto\<close> as a function from the value
  of \<open>*in\<close> to the value it leaves in \<open>*out\<close>, and the heap.
\<close>

section \<open>Values and the heap\<close>

datatype basic = BStr string | BNum int | BBool bool

text \<open>A slice is the address of its array, an offset and a length; \<open>None\<close> is \<open>nil\<close>.\<close>

datatype gval =
    VBasic basic
  | VStruct "(string \<times> gval) list"
  | VPtr "nat option"
  | VSlice "(nat \<times> nat \<times> nat) option"
  | VMap "nat option"

datatype cell =
    CVal gval
  | CArr "gval list"
  | CMap "(string \<times> string) list"

record heap =
  hpNext :: nat
  hpCells :: "nat \<rightharpoonup> cell"

definition store :: "nat \<Rightarrow> cell \<Rightarrow> heap \<Rightarrow> heap" where
  "store p c h = h\<lparr>hpCells := (hpCells h)(p \<mapsto> c)\<rparr>"

definition alloc :: "cell \<Rightarrow> heap \<Rightarrow> nat \<times> heap" where
  "alloc c h = (hpNext h, store (hpNext h) c (h\<lparr>hpNext := Suc (hpNext h)\<rparr>))"

text \<open>\<open>new\<close> and \<open>make\<close> give zero values, which are overwritten before they are read.\<close>

definition zero :: gval where "zero = VStruct []"

definition deref :: "heap \<Rightarrow> nat \<Rightarrow> gval" where
  "deref h p = (case hpCells h p of Some (CVal v) \<Rightarrow> v | _ \<Rightarrow> zero)"

definition elems :: "heap \<Rightarrow> nat \<times> nat \<times> nat \<Rightarrow> gval list" where
  "elems h s = (case s of (p, off, n) \<Rightarrow> (case hpCells h p of Some (CArr xs) \<Rightarrow> take n (drop off xs) | _ \<Rightarrow> []))"

definition entries :: "heap \<Rightarrow> nat \<Rightarrow> (string \<times> string) list" where
  "entries h p = (case hpCells h p of Some (CMap m) \<Rightarrow> m | _ \<Rightarrow> [])"

section \<open>The statements of a deep copy\<close>

type_synonym copier = "gval \<Rightarrow> heap \<Rightarrow> gval \<times> heap"

text \<open>\<open>*out = *in\<close>.\<close>

definition assign :: copier where
  "assign v h = (v, h)"

text \<open>\<open>if in != nil { *out = new(T); (*in).DeepCopyInto(*out) }\<close>.\<close>

fun new_of :: "copier \<Rightarrow> copier" where
  "new_of c (VPtr (Some p)) h =
     (let (b, h) = alloc (CVal zero) h;
          (v, h) = c (deref h p) h
      in (VPtr (Some b), store b (CVal v) h))"
| "new_of c v h = (v, h)"

text \<open>\<open>if in != nil { *out = make([]T, len(*in)); for i := range *in { (*in)[i].DeepCopyInto(&(*out)[i]) } }\<close>;
  with \<open>assign\<close> it is \<open>copy(*out, *in)\<close>.\<close>

fun copy_elems :: "copier \<Rightarrow> gval list \<Rightarrow> heap \<Rightarrow> gval list \<times> heap" where
  "copy_elems c [] h = ([], h)"
| "copy_elems c (x # xs) h =
     (let (y, h) = c x h; (ys, h) = copy_elems c xs h in (y # ys, h))"

fun slice_of :: "copier \<Rightarrow> copier" where
  "slice_of c (VSlice (Some (p, off, n))) h =
     (let (b, h) = alloc (CArr (replicate n zero)) h;
          (ys, h) = copy_elems c (elems h (p, off, n)) h
      in (VSlice (Some (b, 0, n)), store b (CArr ys) h))"
| "slice_of c v h = (v, h)"

text \<open>\<open>if in != nil { *out = make(map[string]string, len(*in)); for key, val := range *in { (*out)[key] = val } }\<close>,
  for the order in which this run visits the map.\<close>

fun map_copy :: "((string \<times> string) list \<Rightarrow> (string \<times> string) list) \<Rightarrow> copier" where
  "map_copy order (VMap (Some p)) h =
     (let (b, h) = alloc (CMap (fold (\<lambda>(k, v). AList.update k v) (order (entries h p)) [])) h
      in (VMap (Some b), h))"
| "map_copy order v h = (v, h)"

text \<open>
  The body of a \<open>DeepCopyInto\<close> on a struct: \<open>*out = *in\<close>, then a statement for each listed field, in the order
  of the fields.
\<close>

fun copy_fields :: "(string \<times> copier) list \<Rightarrow> (string \<times> gval) list \<Rightarrow> heap \<Rightarrow> (string \<times> gval) list \<times> heap" where
  "copy_fields cs [] h = ([], h)"
| "copy_fields cs ((n, v) # fs) h =
     (let (v', h) = (case map_of cs n of None \<Rightarrow> (v, h) | Some c \<Rightarrow> c v h);
          (fs', h) = copy_fields cs fs h
      in ((n, v') # fs', h))"

fun into :: "(string \<times> copier) list \<Rightarrow> copier" where
  "into cs (VStruct fs) h = (let (fs', h) = copy_fields cs fs h in (VStruct fs', h))"
| "into cs v h = (v, h)"

text \<open>
  \<open>DeepCopyObject\<close> returns an interface value, here \<open>Some\<close> type and pointer: \<open>if c := in.DeepCopy(); c != nil
  { return c }; return nil\<close>, so the interface of a nil pointer is nil.
\<close>

definition deep_copy_object :: "string \<Rightarrow> copier \<Rightarrow> gval \<Rightarrow> heap \<Rightarrow> (string \<times> gval) option \<times> heap" where
  "deep_copy_object n dc v h = (let (c, h) = dc v h in (if c \<noteq> VPtr None then Some (n, c) else None, h))"

section \<open>The data a value stands for\<close>

datatype tree =
    TBasic basic
  | TStruct "(string \<times> tree) list"
  | TNil
  | TRef tree
  | TSlice "tree list"
  | TMap "string \<rightharpoonup> string"

inductive reads :: "heap \<Rightarrow> gval \<Rightarrow> tree \<Rightarrow> nat set \<Rightarrow> bool"
  and reads_list :: "heap \<Rightarrow> gval list \<Rightarrow> tree list \<Rightarrow> nat set \<Rightarrow> bool" for h where
  basic: "reads h (VBasic b) (TBasic b) {}"
| struct: "reads_list h (map snd fs) (map snd ts) A \<Longrightarrow> map fst ts = map fst fs \<Longrightarrow> reads h (VStruct fs) (TStruct ts) A"
| nil_ptr: "reads h (VPtr None) TNil {}"
| nil_slice: "reads h (VSlice None) TNil {}"
| nil_map: "reads h (VMap None) TNil {}"
| ptr: "hpCells h p = Some (CVal v) \<Longrightarrow> reads h v t A \<Longrightarrow> reads h (VPtr (Some p)) (TRef t) (insert p A)"
| slice: "hpCells h p = Some (CArr xs) \<Longrightarrow> off + n \<le> length xs \<Longrightarrow> reads_list h (take n (drop off xs)) ts A \<Longrightarrow>
     reads h (VSlice (Some (p, off, n))) (TSlice ts) (insert p A)"
| map: "hpCells h p = Some (CMap m) \<Longrightarrow> distinct (map fst m) \<Longrightarrow>
     reads h (VMap (Some p)) (TMap (map_of m)) {p}"
| none: "reads_list h [] [] {}"
| more: "reads h v t A \<Longrightarrow> reads_list h vs ts B \<Longrightarrow> reads_list h (v # vs) (t # ts) (A \<union> B)"

inductive_cases reads_cases:
  "reads h v (TStruct ts) A" "reads h v (TRef t) A" "reads h v (TSlice ts) A" "reads h v (TMap m) A"
  "reads h v TNil A" "reads h v (TBasic b) A"
inductive_cases reads_list_cases: "reads_list h [] ts A" "reads_list h vs [] A" "reads_list h vs (t # ts) A" "reads_list h (v # vs) ts A"

text \<open>What a value reads depends on the addresses it meets and on no other.\<close>

lemma reads_frame:
  "reads h v t A \<Longrightarrow> (\<forall>p \<in> A. hpCells h' p = hpCells h p) \<longrightarrow> reads h' v t A"
  "reads_list h vs ts A \<Longrightarrow> (\<forall>p \<in> A. hpCells h' p = hpCells h p) \<longrightarrow> reads_list h' vs ts A"
  by (induction rule: reads_reads_list.inducts) (auto intro: reads_reads_list.intros)

lemma reads_dom:
  "reads h v t A \<Longrightarrow> \<forall>p \<in> A. hpCells h p \<noteq> None"
  "reads_list h vs ts A \<Longrightarrow> \<forall>p \<in> A. hpCells h p \<noteq> None"
  by (induction rule: reads_reads_list.inducts) auto

lemma reads_list_length: "reads_list h vs ts A \<Longrightarrow> length ts = length vs"
  by (induction vs arbitrary: ts A) (auto elim: reads_list.cases)

definition heap_ok :: "heap \<Rightarrow> bool" where
  "heap_ok h \<longleftrightarrow> (\<forall>p. hpCells h p \<noteq> None \<longrightarrow> p < hpNext h)"

text \<open>The second heap holds everything the first does, unchanged.\<close>

definition extends :: "heap \<Rightarrow> heap \<Rightarrow> bool" where
  "extends h h' \<longleftrightarrow> heap_ok h' \<and> hpNext h \<le> hpNext h' \<and> (\<forall>p < hpNext h. hpCells h' p = hpCells h p)"

lemma extends_refl: "heap_ok h \<Longrightarrow> extends h h"
  by (simp add: extends_def)

lemma extends_trans: "extends h h1 \<Longrightarrow> extends h1 h2 \<Longrightarrow> extends h h2"
  unfolding extends_def by (metis le_trans order_less_le_trans)

lemma extends_reads: "heap_ok h \<Longrightarrow> extends h h' \<Longrightarrow> reads h v t A \<Longrightarrow> reads h' v t A"
  using reads_frame(1) [of h v t A h'] reads_dom(1) [of h v t A] by (auto simp: extends_def heap_ok_def)

lemma extends_reads_list: "heap_ok h \<Longrightarrow> extends h h' \<Longrightarrow> reads_list h vs ts A \<Longrightarrow> reads_list h' vs ts A"
  using reads_frame(2) [of h vs ts A h'] reads_dom(2) [of h vs ts A] by (auto simp: extends_def heap_ok_def)

lemma alloc_extends: "heap_ok h \<Longrightarrow> alloc c h = (b, h') \<Longrightarrow> extends h h' \<and> b = hpNext h \<and> hpNext h' = Suc b \<and> hpCells h' b = Some c"
  by (auto simp: alloc_def store_def extends_def heap_ok_def less_Suc_eq split: if_splits)

lemma store_extends: "extends h h' \<Longrightarrow> hpNext h \<le> b \<Longrightarrow> b < hpNext h' \<Longrightarrow> extends h (store b c h')"
  by (auto simp: store_def extends_def heap_ok_def)

section \<open>Types\<close>

text \<open>
  The declared types, as far as copying depends on them. \<open>YLib\<close> is a type of another module; which data it
  has is a parameter \<open>L\<close>.
\<close>

datatype gtype =
    YBasic
  | YStruct "(string \<times> gtype) list"
  | YPtr gtype
  | YSlice gtype
  | YMap
  | YLib string

fun typed :: "(string \<Rightarrow> tree \<Rightarrow> bool) \<Rightarrow> gtype \<Rightarrow> tree \<Rightarrow> bool"
  and typed_fields :: "(string \<Rightarrow> tree \<Rightarrow> bool) \<Rightarrow> (string \<times> gtype) list \<Rightarrow> (string \<times> tree) list \<Rightarrow> bool" where
  "typed L YBasic (TBasic b) = True"
| "typed L (YStruct ys) (TStruct ts) = typed_fields L ys ts"
| "typed L (YPtr y) TNil = True"
| "typed L (YPtr y) (TRef t) = typed L y t"
| "typed L (YSlice y) TNil = True"
| "typed L (YSlice y) (TSlice ts) = list_all (typed L y) ts"
| "typed L YMap TNil = True"
| "typed L YMap (TMap m) = True"
| "typed L (YLib n) t = L n t"
| "typed L _ _ = False"
| "typed_fields L [] [] = True"
| "typed_fields L ((n, y) # ys) ((n', t) # ts) = (n = n' \<and> typed L y t \<and> typed_fields L ys ts)"
| "typed_fields L _ _ = False"

text \<open>Data without pointers, and types with such data only.\<close>

fun plain :: "tree \<Rightarrow> bool" where
  "plain (TBasic b) = True"
| "plain (TStruct ts) = list_all (\<lambda>(n, t). plain t) ts"
| "plain _ = False"

fun plain_type :: "gtype \<Rightarrow> bool" where
  "plain_type YBasic = True"
| "plain_type (YStruct ys) = list_all (\<lambda>(n, y). plain_type y) ys"
| "plain_type _ = False"

lemma plain_reads:
  "reads h v t A \<Longrightarrow> plain t \<longrightarrow> A = {} \<and> reads h' v t {}"
  "reads_list h vs ts A \<Longrightarrow> list_all plain ts \<longrightarrow> A = {} \<and> reads_list h' vs ts {}"
proof (induction rule: reads_reads_list.inducts)
  case (struct fs ts A)
  then show ?case by (auto simp: list_all_iff intro: reads_reads_list.struct)
next
  case (more v t A vs ts B)
  then show ?case using reads_reads_list.more [of h' v t "{}" vs ts "{}"] by simp
qed (auto intro: reads_reads_list.intros)

lemma plain_typed:
  "typed L y t \<Longrightarrow> plain_type y \<Longrightarrow> plain t"
  "typed_fields L ys ts \<Longrightarrow> list_all (\<lambda>(n, y). plain_type y) ys \<Longrightarrow> list_all (\<lambda>(n, t). plain t) ts"
  by (induction L y t and L ys ts rule: typed_typed_fields.induct) auto

section \<open>Deep copiers\<close>

named_theorems deep_rules

text \<open>
  A deep copier of a type leaves the heap as it was, but for new addresses, and its result stands for the
  same data and reads new addresses only.
\<close>

definition deep :: "(string \<Rightarrow> tree \<Rightarrow> bool) \<Rightarrow> gtype \<Rightarrow> copier \<Rightarrow> bool" where
  "deep L y c \<longleftrightarrow> (\<forall>h v t A v' h'. heap_ok h \<longrightarrow> reads h v t A \<longrightarrow> typed L y t \<longrightarrow> c v h = (v', h') \<longrightarrow>
     extends h h' \<and> (\<exists>A'. reads h' v' t A' \<and> A' \<subseteq> {hpNext h..<hpNext h'}))"

lemma deepD:
  assumes "deep L y c" and "heap_ok h" and "reads h v t A" and "typed L y t" and "c v h = (v', h')"
  obtains A' where "extends h h'" and "reads h' v' t A'" and "A' \<subseteq> {hpNext h..<hpNext h'}"
  using assms unfolding deep_def by metis

lemma deep_assign: "(\<And>t. typed L y t \<Longrightarrow> plain t) \<Longrightarrow> deep L y assign"
  unfolding deep_def assign_def using extends_refl plain_reads(1) by (metis empty_subsetI prod.inject)

lemma deep_assign_plain [deep_rules]: "plain_type y \<Longrightarrow> deep L y assign"
  using plain_typed(1) by (rule deep_assign)

lemma deep_new_of [deep_rules]:
  assumes c: "deep L y c"
  shows "deep L (YPtr y) (new_of c)"
  unfolding deep_def
proof (intro allI impI)
  fix h v t A v' h'
  assume h: "heap_ok h" and v: "reads h v t A" and y: "typed L (YPtr y) t" and run: "new_of c v h = (v', h')"
  from y consider "t = TNil" | u where "t = TRef u" "typed L y u" by (cases t) auto
  then show "extends h h' \<and> (\<exists>A'. reads h' v' t A' \<and> A' \<subseteq> {hpNext h..<hpNext h'})"
  proof cases
    case 1
    with v run have "v' = v" "h' = h" "\<And>h. reads h v t {}" by (auto elim: reads_cases intro: reads_reads_list.intros)
    with h extends_refl show ?thesis by fastforce
  next
    case 2
    with v obtain p w B where p: "v = VPtr (Some p)" "hpCells h p = Some (CVal w)" "reads h w u B"
      by (auto elim: reads_cases)
    obtain b h1 where a: "alloc (CVal zero) h = (b, h1)" by fastforce
    note a1 = alloc_extends [OF h a]
    then have h1: "heap_ok h1" by (simp add: extends_def)
    have w: "deref h1 p = w" using p(2) a1 h by (auto simp: deref_def extends_def heap_ok_def)
    obtain w' h2 where c2: "c w h1 = (w', h2)" by fastforce
    from deepD [OF c h1 extends_reads [OF h conjunct1 [OF a1] p(3)] 2(2) c2] obtain B'
      where e: "extends h1 h2" and r: "reads h2 w' u B'" and B: "B' \<subseteq> {hpNext h1..<hpNext h2}" .
    from run p(1) a w c2 have res: "v' = VPtr (Some b)" "h' = store b (CVal w') h2" by (auto simp: Let_def)
    have lt: "b < hpNext h2" using a1 e by (auto simp: extends_def)
    have "extends h h'" unfolding res(2) using a1 e lt by (intro store_extends extends_trans [of h h1 h2]) auto
    moreover have "reads h' w' u B'"
      using reads_frame(1) [OF r, of h'] B a1 by (auto simp: res(2) store_def)
    then have "reads h' v' t (insert b B')"
      unfolding res 2(1) by (intro reads_reads_list.ptr) (simp_all add: store_def)
    moreover have "insert b B' \<subseteq> {hpNext h..<hpNext h'}"
      using B a1 lt by (auto simp: res(2) store_def)
    ultimately show ?thesis by blast
  qed
qed

lemma copy_elems_deep:
  assumes c: "deep L y c"
  shows "heap_ok h \<Longrightarrow> reads_list h xs ts A \<Longrightarrow> list_all (typed L y) ts \<Longrightarrow> copy_elems c xs h = (ys, h') \<Longrightarrow>
     extends h h' \<and> length ys = length xs \<and> (\<exists>A'. reads_list h' ys ts A' \<and> A' \<subseteq> {hpNext h..<hpNext h'})"
proof (induction xs arbitrary: ts A ys h)
  case Nil
  then have "ts = []" "ys = []" "h' = h" by (auto elim: reads_list_cases)
  with Nil extends_refl reads_reads_list.none show ?case by fastforce
next
  case (Cons x xs)
  from Cons.prems(2) obtain t us B C where ts: "ts = t # us" "reads h x t B" "reads_list h xs us C"
    by (auto elim: reads_list_cases)
  obtain y1 h1 where one: "c x h = (y1, h1)" by fastforce
  obtain ys1 where rest: "copy_elems c xs h1 = (ys1, h')" "ys = y1 # ys1"
    using Cons.prems(4) one by (auto simp: Let_def split: prod.splits)
  have y: "typed L y t" "list_all (typed L y) us" using Cons.prems(3) ts(1) by auto
  from deepD [OF c Cons.prems(1) ts(2) y(1) one] obtain B'
    where e1: "extends h h1" and r1: "reads h1 y1 t B'" and B: "B' \<subseteq> {hpNext h..<hpNext h1}" .
  have h1: "heap_ok h1" using e1 by (simp add: extends_def)
  from Cons.IH [OF h1 extends_reads_list [OF Cons.prems(1) e1 ts(3)] y(2) rest(1)] obtain C'
    where e2: "extends h1 h'" and len: "length ys1 = length xs" and r2: "reads_list h' ys1 us C'"
      and C: "C' \<subseteq> {hpNext h1..<hpNext h'}" by blast
  have "reads_list h' ys ts (B' \<union> C')"
    unfolding rest(2) ts(1) using extends_reads [OF h1 e2 r1] r2 by (rule reads_reads_list.more)
  moreover have "B' \<union> C' \<subseteq> {hpNext h..<hpNext h'}" using B C e1 e2 by (fastforce simp: extends_def)
  ultimately show ?case using extends_trans [OF e1 e2] len rest(2) by auto
qed

lemma deep_slice_of [deep_rules]:
  assumes c: "deep L y c"
  shows "deep L (YSlice y) (slice_of c)"
  unfolding deep_def
proof (intro allI impI)
  fix h v t A v' h'
  assume h: "heap_ok h" and v: "reads h v t A" and y: "typed L (YSlice y) t" and run: "slice_of c v h = (v', h')"
  from y consider "t = TNil" | us where "t = TSlice us" "list_all (typed L y) us" by (cases t) auto
  then show "extends h h' \<and> (\<exists>A'. reads h' v' t A' \<and> A' \<subseteq> {hpNext h..<hpNext h'})"
  proof cases
    case 1
    with v run have "v' = v" "h' = h" "\<And>h. reads h v t {}" by (auto elim: reads_cases intro: reads_reads_list.intros)
    with h extends_refl show ?thesis by fastforce
  next
    case 2
    with v obtain p off n xs B where p: "v = VSlice (Some (p, off, n))" "hpCells h p = Some (CArr xs)"
        "off + n \<le> length xs" "reads_list h (take n (drop off xs)) us B"
      by (auto elim: reads_cases)
    obtain b h1 where a: "alloc (CArr (replicate n zero)) h = (b, h1)" by fastforce
    note a1 = alloc_extends [OF h a]
    then have h1: "heap_ok h1" by (simp add: extends_def)
    have w: "elems h1 (p, off, n) = take n (drop off xs)"
      using p(2) a1 h by (auto simp: elems_def extends_def heap_ok_def)
    obtain ys h2 where c2: "copy_elems c (take n (drop off xs)) h1 = (ys, h2)" by fastforce
    from copy_elems_deep [OF c h1 extends_reads_list [OF h conjunct1 [OF a1] p(4)] 2(2) c2] obtain B'
      where e: "extends h1 h2" and len: "length ys = n" and r: "reads_list h2 ys us B'"
        and B: "B' \<subseteq> {hpNext h1..<hpNext h2}" using p(3) by auto
    from run p(1) a w c2 have res: "v' = VSlice (Some (b, 0, n))" "h' = store b (CArr ys) h2" by (auto simp: Let_def)
    have lt: "b < hpNext h2" using a1 e by (auto simp: extends_def)
    have "extends h h'" unfolding res(2) using a1 e lt by (intro store_extends extends_trans [of h h1 h2]) auto
    moreover have "reads_list h' ys us B'"
      using reads_frame(2) [OF r, of h'] B a1 by (auto simp: res(2) store_def)
    then have "reads h' v' t (insert b B')"
      unfolding res 2(1) using len reads_reads_list.slice [of _ b ys 0 n us B'] by (simp add: store_def)
    moreover have "insert b B' \<subseteq> {hpNext h..<hpNext h'}"
      using B a1 lt by (auto simp: res(2) store_def)
    ultimately show ?thesis by blast
  qed
qed

text \<open>A map is copied whatever the order in which it is visited.\<close>

lemma map_of_fold_update:
  "distinct (map fst m) \<Longrightarrow> map_of (fold (\<lambda>(k, v). AList.update k v) m acc) = map_of acc ++ map_of m"
proof (induction m arbitrary: acc)
  case Nil
  then show ?case by simp
next
  case (Cons x m)
  obtain k v where x: "x = (k, v)" by fastforce
  with Cons have "map_of (fold (\<lambda>(k, v). AList.update k v) (x # m) acc) = (map_of acc)(k \<mapsto> v) ++ map_of m"
    by (simp add: update_conv')
  also have "\<dots> = map_of acc ++ map_of (x # m)"
  proof
    fix j
    have "j = k \<Longrightarrow> map_of m j = None" using Cons.prems x by (auto simp: map_of_eq_None_iff)
    then show "((map_of acc)(k \<mapsto> v) ++ map_of m) j = (map_of acc ++ map_of (x # m)) j"
      by (auto simp: x map_add_def split: option.split)
  qed
  finally show ?case .
qed

lemma distinct_fold_update:
  "distinct (map fst acc) \<Longrightarrow> distinct (map fst (fold (\<lambda>(k, v). AList.update k v) m acc))"
  by (induction m arbitrary: acc) (auto simp: distinct_update)

lemma deep_map_copy [deep_rules]:
  assumes order: "\<And>m. mset (order m) = mset m"
  shows "deep L YMap (map_copy order)"
  unfolding deep_def
proof (intro allI impI)
  fix h v t A v' h'
  assume h: "heap_ok h" and v: "reads h v t A" and y: "typed L YMap t" and run: "map_copy order v h = (v', h')"
  from y consider "t = TNil" | f where "t = TMap f" by (cases t) auto
  then show "extends h h' \<and> (\<exists>A'. reads h' v' t A' \<and> A' \<subseteq> {hpNext h..<hpNext h'})"
  proof cases
    case 1
    with v run have "v' = v" "h' = h" "\<And>h. reads h v t {}" by (auto elim: reads_cases intro: reads_reads_list.intros)
    with h extends_refl show ?thesis by fastforce
  next
    case 2
    with v obtain p m where p: "v = VMap (Some p)" "hpCells h p = Some (CMap m)" "distinct (map fst m)" "f = map_of m"
      by (auto elim: reads_cases)
    let ?m = "fold (\<lambda>(k, v). AList.update k v) (order m) []"
    obtain b h1 where a: "alloc (CMap ?m) h = (b, h1)" by fastforce
    note a1 = alloc_extends [OF h a]
    have "mset (map fst (order m)) = mset (map fst m)" by (simp add: order)
    then have d: "distinct (map fst (order m))" using p(3) mset_eq_imp_distinct_iff by blast
    have "map_of ?m = map_of (order m)" using map_of_fold_update [OF d, of "[]"] by simp
    also have "\<dots> = map_of m"
      using p(3) d order by (intro map_of_inject_set [THEN iffD2]) (auto dest: mset_eq_setD)
    finally have m: "map_of ?m = f" using p(4) by simp
    have res: "v' = VMap (Some b)" "h' = h1" using run p(1,2) a by (auto simp: entries_def Let_def)
    have cell: "hpCells h1 b = Some (CMap ?m)" using a1 by blast
    have "distinct (map fst ?m)" by (rule distinct_fold_update) simp
    from reads_reads_list.map [OF cell this] have "reads h' v' t {b}" by (simp only: res 2 m)
    with a1 res(2) show ?thesis by (intro conjI exI [of _ "{b}"]) auto
  qed
qed

section \<open>Structs\<close>

text \<open>Each field has its copier, or is plain and was copied by the first assignment.\<close>

definition covers :: "(string \<Rightarrow> tree \<Rightarrow> bool) \<Rightarrow> (string \<times> copier) list \<Rightarrow> (string \<times> gtype) list \<Rightarrow> bool" where
  "covers L cs ys \<longleftrightarrow>
     (\<forall>(n, y) \<in> set ys. case map_of cs n of None \<Rightarrow> plain_type y | Some c \<Rightarrow> deep L y c)"

lemma covers_simps [simp]:
  "covers L cs []"
  "covers L cs ((n, y) # ys) \<longleftrightarrow>
     (case map_of cs n of None \<Rightarrow> plain_type y | Some c \<Rightarrow> deep L y c) \<and> covers L cs ys"
  by (simp_all add: covers_def)

lemma copy_fields_deep:
  "covers L cs ys \<Longrightarrow> heap_ok h \<Longrightarrow> reads_list h (map snd fs) (map snd ts) A \<Longrightarrow> map fst ts = map fst fs \<Longrightarrow>
     typed_fields L ys ts \<Longrightarrow> copy_fields cs fs h = (gs, h') \<Longrightarrow>
     extends h h' \<and> map fst gs = map fst fs \<and>
     (\<exists>A'. reads_list h' (map snd gs) (map snd ts) A' \<and> A' \<subseteq> {hpNext h..<hpNext h'})"
proof (induction fs arbitrary: ys ts A gs h)
  case Nil
  then show ?case using extends_refl reads_reads_list.none by fastforce
next
  case (Cons f fs)
  obtain n v where f: "f = (n, v)" by fastforce
  with Cons.prems(4) obtain t us where ts: "ts = (n, t) # us" "map fst us = map fst fs"
    by (cases ts) (auto simp: prod_eq_iff)
  with Cons.prems(5) obtain y zs where ys: "ys = (n, y) # zs" "typed L y t" "typed_fields L zs us"
    by (cases ys) auto
  from Cons.prems(3) f ts obtain B C where r: "reads h v t B" "reads_list h (map snd fs) (map snd us) C"
    by (auto elim: reads_list_cases)
  let ?c = "case map_of cs n of None \<Rightarrow> assign | Some c \<Rightarrow> c"
  have c: "deep L y ?c" and cov: "covers L cs zs"
    using Cons.prems(1) ys(1) by (auto split: option.splits intro: deep_assign_plain)
  obtain w h1 where one: "?c v h = (w, h1)" by fastforce
  obtain gs1 where rest: "copy_fields cs fs h1 = (gs1, h')" "gs = (n, w) # gs1"
    using Cons.prems(6) one f by (auto simp: Let_def assign_def split: prod.splits option.splits)
  from deepD [OF c Cons.prems(2) r(1) ys(2) one] obtain B'
    where e1: "extends h h1" and r1: "reads h1 w t B'" and B: "B' \<subseteq> {hpNext h..<hpNext h1}" .
  have h1: "heap_ok h1" using e1 by (simp add: extends_def)
  from Cons.IH [OF cov h1 extends_reads_list [OF Cons.prems(2) e1 r(2)] ts(2) ys(3) rest(1)] obtain C'
    where e2: "extends h1 h'" and names: "map fst gs1 = map fst fs"
      and r2: "reads_list h' (map snd gs1) (map snd us) C'" and C: "C' \<subseteq> {hpNext h1..<hpNext h'}" by blast
  have "reads_list h' (map snd gs) (map snd ts) (B' \<union> C')"
    unfolding rest(2) ts(1) using reads_reads_list.more [OF extends_reads [OF h1 e2 r1] r2] by simp
  moreover have "B' \<union> C' \<subseteq> {hpNext h..<hpNext h'}" using B C e1 e2 by (fastforce simp: extends_def)
  ultimately show ?case using extends_trans [OF e1 e2] names rest(2) f by auto
qed

lemma deep_into [deep_rules]:
  assumes "covers L cs ys"
  shows "deep L (YStruct ys) (into cs)"
  unfolding deep_def
proof (intro allI impI)
  fix h v t A v' h'
  assume h: "heap_ok h" and v: "reads h v t A" and y: "typed L (YStruct ys) t" and run: "into cs v h = (v', h')"
  from y obtain ts where t: "t = TStruct ts" "typed_fields L ys ts" by (cases t) auto
  with v obtain fs where fs: "v = VStruct fs" "reads_list h (map snd fs) (map snd ts) A" "map fst ts = map fst fs"
    by (auto elim: reads_cases)
  with run obtain gs where gs: "copy_fields cs fs h = (gs, h')" "v' = VStruct gs" by (auto split: prod.splits)
  from copy_fields_deep [OF assms h fs(2,3) t(2) gs(1)] fs(3)
  show "extends h h' \<and> (\<exists>A'. reads h' v' t A' \<and> A' \<subseteq> {hpNext h..<hpNext h'})"
    unfolding gs(2) t(1) by (metis reads_reads_list.struct)
qed

section \<open>Isolation\<close>

text \<open>
  What a deep copy is for: it stands for the same data as the original, the two share no address, and so
  nothing written to the memory of the one is seen through the other.
\<close>

lemma deep_isolates:
  assumes "deep L y c" and h: "heap_ok h" and v: "reads h v t A" and "typed L y t" and "c v h = (v', h')"
  shows "\<exists>A'. reads h' v' t A' \<and> reads h' v t A \<and> A' \<inter> A = {} \<and>
     (\<forall>h2. (\<forall>p. p \<notin> A' \<longrightarrow> hpCells h2 p = hpCells h' p) \<longrightarrow> reads h2 v t A) \<and>
     (\<forall>h2. (\<forall>p. p \<notin> A \<longrightarrow> hpCells h2 p = hpCells h' p) \<longrightarrow> reads h2 v' t A')"
proof -
  from deepD [OF assms] obtain A' where e: "extends h h'" and r: "reads h' v' t A'"
    and A': "A' \<subseteq> {hpNext h..<hpNext h'}" .
  have v': "reads h' v t A" by (rule extends_reads [OF h e v])
  have "\<forall>p \<in> A. p < hpNext h" using reads_dom(1) [OF v] h by (auto simp: heap_ok_def)
  with A' have disj: "A' \<inter> A = {}" by force
  then have "reads h2 v t A" if "\<forall>p. p \<notin> A' \<longrightarrow> hpCells h2 p = hpCells h' p" for h2
    using reads_frame(1) [OF v', of h2] that by blast
  moreover have "reads h2 v' t A'" if "\<forall>p. p \<notin> A \<longrightarrow> hpCells h2 p = hpCells h' p" for h2
    using reads_frame(1) [OF r, of h2] that disj by blast
  ultimately show ?thesis using r v' disj by blast
qed

end
