(* ===== verification/DeepCopy.thy ===== *)
theory DeepCopy
  imports GoMemory
begin

text \<open>
  \<^verbatim>\<open>api/v1alpha1/zz_generated.deepcopy.go\<close>: the deep copies of the API types, which keep a reconciler from writing
  to the cache its client reads from. For each struct, its declared type, its \<open>DeepCopyInto\<close> and its
  \<open>DeepCopy\<close>; for the objects, \<open>DeepCopyObject\<close> too. The copies of the types of other modules are parameters.
\<close>

section \<open>Types of other modules\<close>

record lib =
  lbInto :: "string \<Rightarrow> copier" \<comment> \<open>their \<open>DeepCopyInto\<close>\<close>
  lbDeepCopy :: "string \<Rightarrow> copier" \<comment> \<open>their \<open>DeepCopy\<close>, on pointers\<close>
  lbRange :: "(string \<times> string) list \<Rightarrow> (string \<times> string) list" \<comment> \<open>the order in which a map is visited\<close>

definition lib_types :: "string set" where
  "lib_types = {''metav1.ObjectMeta'', ''metav1.ListMeta'', ''metav1.Condition'', ''metav1.Time'',
     ''v1.ConfigMapKeySelector'', ''v1.SecretKeySelector''}"

text \<open>Their documented behaviour: they are deep copies. A \<open>TypeMeta\<close> holds two strings.\<close>

definition lib_ok :: "(string \<Rightarrow> tree \<Rightarrow> bool) \<Rightarrow> lib \<Rightarrow> bool" where
  "lib_ok L P \<longleftrightarrow> (\<forall>n \<in> lib_types. deep L (YLib n) (lbInto P n) \<and> deep L (YPtr (YLib n)) (lbDeepCopy P n)) \<and>
     (\<forall>m. mset (lbRange P m) = mset m) \<and> (\<forall>t. L ''metav1.TypeMeta'' t \<longrightarrow> plain t)"

section \<open>The declared types\<close>

definition ArkonisLimits_type :: gtype where
  "ArkonisLimits_type = YStruct [(''MaxTokensPerCall'', YBasic), (''MaxConcurrentTasks'', YBasic),
   (''TimeoutSeconds'', YBasic), (''MaxDailyTokens'', YBasic)]"

definition ArkonisProbe_type :: gtype where
  "ArkonisProbe_type = YStruct [(''Type'', YBasic), (''IntervalSeconds'', YBasic), (''ValidatorPrompt'', YBasic)]"

definition LocalObjectReference_type :: gtype where
  "LocalObjectReference_type = YStruct [(''Name'', YBasic)]"

definition MCPServerSpec_type :: gtype where
  "MCPServerSpec_type = YStruct [(''Name'', YBasic), (''URL'', YBasic)]"

definition SystemPromptSource_type :: gtype where
  "SystemPromptSource_type = YStruct [(''ConfigMapKeyRef'', YPtr (YLib ''v1.ConfigMapKeySelector'')),
   (''SecretKeyRef'', YPtr (YLib ''v1.SecretKeySelector''))]"

definition WebhookToolSpec_type :: gtype where
  "WebhookToolSpec_type = YStruct [(''Name'', YBasic), (''Description'', YBasic), (''URL'', YBasic),
   (''Method'', YBasic), (''InputSchema'', YBasic)]"

definition ArkAgentSpec_type :: gtype where
  "ArkAgentSpec_type = YStruct [(''Replicas'', YPtr YBasic), (''Model'', YBasic), (''SystemPrompt'', YBasic),
   (''SystemPromptRef'', YPtr SystemPromptSource_type), (''MCPServers'', YSlice MCPServerSpec_type),
   (''Limits'', YPtr ArkonisLimits_type), (''LivenessProbe'', YPtr ArkonisProbe_type),
   (''ConfigRef'', YPtr LocalObjectReference_type), (''MemoryRef'', YPtr LocalObjectReference_type),
   (''Tools'', YSlice WebhookToolSpec_type)]"

definition TokenUsage_type :: gtype where
  "TokenUsage_type = YStruct [(''InputTokens'', YBasic), (''OutputTokens'', YBasic), (''TotalTokens'', YBasic)]"

definition ArkAgentStatus_type :: gtype where
  "ArkAgentStatus_type = YStruct [(''ReadyReplicas'', YBasic), (''Replicas'', YBasic),
   (''ObservedGeneration'', YBasic), (''DailyTokenUsage'', YPtr TokenUsage_type),
   (''Conditions'', YSlice (YLib ''metav1.Condition''))]"

definition ArkAgent_type :: gtype where
  "ArkAgent_type = YStruct [(''TypeMeta'', YLib ''metav1.TypeMeta''),
   (''ObjectMeta'', YLib ''metav1.ObjectMeta''), (''Spec'', ArkAgentSpec_type),
   (''Status'', ArkAgentStatus_type)]"

definition ArkAgentList_type :: gtype where
  "ArkAgentList_type = YStruct [(''TypeMeta'', YLib ''metav1.TypeMeta''),
   (''ListMeta'', YLib ''metav1.ListMeta''), (''Items'', YSlice ArkAgent_type)]"

definition PipelineOutputSource_type :: gtype where
  "PipelineOutputSource_type = YStruct [(''Name'', YBasic), (''OnPhase'', YBasic)]"

definition ArkEventSource_type :: gtype where
  "ArkEventSource_type = YStruct [(''Type'', YBasic), (''Cron'', YBasic),
   (''PipelineOutput'', YPtr PipelineOutputSource_type)]"

definition ArkEventTarget_type :: gtype where
  "ArkEventTarget_type = YStruct [(''Pipeline'', YBasic), (''Input'', YMap)]"

definition ArkEventSpec_type :: gtype where
  "ArkEventSpec_type = YStruct [(''Source'', ArkEventSource_type), (''Targets'', YSlice ArkEventTarget_type),
   (''ConcurrencyPolicy'', YBasic), (''Suspended'', YBasic)]"

definition ArkEventStatus_type :: gtype where
  "ArkEventStatus_type = YStruct [(''LastFiredAt'', YPtr (YLib ''metav1.Time'')),
   (''NextFireAt'', YPtr (YLib ''metav1.Time'')), (''FiredCount'', YBasic), (''WebhookURL'', YBasic),
   (''ObservedGeneration'', YBasic), (''Conditions'', YSlice (YLib ''metav1.Condition''))]"

definition ArkEvent_type :: gtype where
  "ArkEvent_type = YStruct [(''TypeMeta'', YLib ''metav1.TypeMeta''),
   (''ObjectMeta'', YLib ''metav1.ObjectMeta''), (''Spec'', ArkEventSpec_type),
   (''Status'', ArkEventStatus_type)]"

definition ArkEventList_type :: gtype where
  "ArkEventList_type = YStruct [(''TypeMeta'', YLib ''metav1.TypeMeta''),
   (''ListMeta'', YLib ''metav1.ListMeta''), (''Items'', YSlice ArkEvent_type)]"

definition LoopSpec_type :: gtype where
  "LoopSpec_type = YStruct [(''Condition'', YBasic), (''MaxIterations'', YBasic)]"

definition ArkFlowStep_type :: gtype where
  "ArkFlowStep_type = YStruct [(''Name'', YBasic), (''ArkAgent'', YBasic), (''Inputs'', YMap),
   (''DependsOn'', YSlice YBasic), (''OutputSchema'', YBasic), (''If'', YBasic), (''Loop'', YPtr LoopSpec_type)]"

definition ArkFlowSpec_type :: gtype where
  "ArkFlowSpec_type = YStruct [(''Steps'', YSlice ArkFlowStep_type), (''Input'', YMap), (''Output'', YBasic),
   (''TimeoutSeconds'', YBasic), (''MaxTokens'', YBasic)]"

definition ArkFlowStepStatus_type :: gtype where
  "ArkFlowStepStatus_type = YStruct [(''Name'', YBasic), (''Phase'', YBasic), (''TaskID'', YBasic),
   (''Output'', YBasic), (''OutputJSON'', YBasic), (''StartTime'', YPtr (YLib ''metav1.Time'')),
   (''CompletionTime'', YPtr (YLib ''metav1.Time'')), (''Message'', YBasic), (''Iterations'', YBasic),
   (''TokenUsage'', YPtr TokenUsage_type)]"

definition ArkFlowStatus_type :: gtype where
  "ArkFlowStatus_type = YStruct [(''Phase'', YBasic), (''Steps'', YSlice ArkFlowStepStatus_type),
   (''StartTime'', YPtr (YLib ''metav1.Time'')), (''CompletionTime'', YPtr (YLib ''metav1.Time'')),
   (''Output'', YBasic), (''ObservedGeneration'', YBasic), (''TotalTokenUsage'', YPtr TokenUsage_type),
   (''Conditions'', YSlice (YLib ''metav1.Condition''))]"

definition ArkFlow_type :: gtype where
  "ArkFlow_type = YStruct [(''TypeMeta'', YLib ''metav1.TypeMeta''),
   (''ObjectMeta'', YLib ''metav1.ObjectMeta''), (''Spec'', ArkFlowSpec_type), (''Status'', ArkFlowStatus_type)]"

definition ArkFlowList_type :: gtype where
  "ArkFlowList_type = YStruct [(''TypeMeta'', YLib ''metav1.TypeMeta''),
   (''ListMeta'', YLib ''metav1.ListMeta''), (''Items'', YSlice ArkFlow_type)]"

definition RedisMemoryConfig_type :: gtype where
  "RedisMemoryConfig_type = YStruct [(''SecretRef'', LocalObjectReference_type), (''TTLSeconds'', YBasic),
   (''MaxEntries'', YBasic)]"

definition VectorStoreMemoryConfig_type :: gtype where
  "VectorStoreMemoryConfig_type = YStruct [(''Provider'', YBasic), (''Endpoint'', YBasic),
   (''Collection'', YBasic), (''SecretRef'', YPtr LocalObjectReference_type), (''TTLSeconds'', YBasic)]"

definition ArkMemorySpec_type :: gtype where
  "ArkMemorySpec_type = YStruct [(''Backend'', YBasic), (''Redis'', YPtr RedisMemoryConfig_type),
   (''VectorStore'', YPtr VectorStoreMemoryConfig_type)]"

definition ArkMemoryStatus_type :: gtype where
  "ArkMemoryStatus_type = YStruct [(''ObservedGeneration'', YBasic),
   (''Conditions'', YSlice (YLib ''metav1.Condition''))]"

definition ArkMemory_type :: gtype where
  "ArkMemory_type = YStruct [(''TypeMeta'', YLib ''metav1.TypeMeta''),
   (''ObjectMeta'', YLib ''metav1.ObjectMeta''), (''Spec'', ArkMemorySpec_type),
   (''Status'', ArkMemoryStatus_type)]"

definition ArkMemoryList_type :: gtype where
  "ArkMemoryList_type = YStruct [(''TypeMeta'', YLib ''metav1.TypeMeta''),
   (''ListMeta'', YLib ''metav1.ListMeta''), (''Items'', YSlice ArkMemory_type)]"

definition ArkServicePort_type :: gtype where
  "ArkServicePort_type = YStruct [(''Protocol'', YBasic), (''Port'', YBasic)]"

definition ArkServiceRouting_type :: gtype where
  "ArkServiceRouting_type = YStruct [(''Strategy'', YBasic)]"

definition ArkServiceSelector_type :: gtype where
  "ArkServiceSelector_type = YStruct [(''ArkAgent'', YBasic)]"

definition ArkServiceSpec_type :: gtype where
  "ArkServiceSpec_type = YStruct [(''Selector'', ArkServiceSelector_type),
   (''Routing'', ArkServiceRouting_type), (''Ports'', YSlice ArkServicePort_type)]"

definition ArkServiceStatus_type :: gtype where
  "ArkServiceStatus_type = YStruct [(''ReadyReplicas'', YBasic), (''ObservedGeneration'', YBasic),
   (''Conditions'', YSlice (YLib ''metav1.Condition''))]"

definition ArkService_type :: gtype where
  "ArkService_type = YStruct [(''TypeMeta'', YLib ''metav1.TypeMeta''),
   (''ObjectMeta'', YLib ''metav1.ObjectMeta''), (''Spec'', ArkServiceSpec_type),
   (''Status'', ArkServiceStatus_type)]"

definition ArkServiceList_type :: gtype where
  "ArkServiceList_type = YStruct [(''TypeMeta'', YLib ''metav1.TypeMeta''),
   (''ListMeta'', YLib ''metav1.ListMeta''), (''Items'', YSlice ArkService_type)]"

definition PromptFragments_type :: gtype where
  "PromptFragments_type = YStruct [(''Persona'', YBasic), (''OutputRules'', YBasic)]"

definition ArkSettingsSpec_type :: gtype where
  "ArkSettingsSpec_type = YStruct [(''Temperature'', YBasic), (''OutputFormat'', YBasic),
   (''MemoryBackend'', YBasic), (''PromptFragments'', PromptFragments_type)]"

definition ArkSettingsStatus_type :: gtype where
  "ArkSettingsStatus_type = YStruct [(''ObservedGeneration'', YBasic),
   (''Conditions'', YSlice (YLib ''metav1.Condition''))]"

definition ArkSettings_type :: gtype where
  "ArkSettings_type = YStruct [(''TypeMeta'', YLib ''metav1.TypeMeta''),
   (''ObjectMeta'', YLib ''metav1.ObjectMeta''), (''Spec'', ArkSettingsSpec_type),
   (''Status'', ArkSettingsStatus_type)]"

definition ArkSettingsList_type :: gtype where
  "ArkSettingsList_type = YStruct [(''TypeMeta'', YLib ''metav1.TypeMeta''),
   (''ListMeta'', YLib ''metav1.ListMeta''), (''Items'', YSlice ArkSettings_type)]"

section \<open>DeepCopyInto\<close>

definition ArkonisLimits_DeepCopyInto :: "lib \<Rightarrow> copier" where
  "ArkonisLimits_DeepCopyInto P = assign"

definition ArkonisProbe_DeepCopyInto :: "lib \<Rightarrow> copier" where
  "ArkonisProbe_DeepCopyInto P = assign"

definition LocalObjectReference_DeepCopyInto :: "lib \<Rightarrow> copier" where
  "LocalObjectReference_DeepCopyInto P = assign"

definition MCPServerSpec_DeepCopyInto :: "lib \<Rightarrow> copier" where
  "MCPServerSpec_DeepCopyInto P = assign"

definition SystemPromptSource_DeepCopyInto :: "lib \<Rightarrow> copier" where
  "SystemPromptSource_DeepCopyInto P = into [
   (''ConfigMapKeyRef'', new_of (lbInto P ''v1.ConfigMapKeySelector'')),
   (''SecretKeyRef'', new_of (lbInto P ''v1.SecretKeySelector''))]"

definition WebhookToolSpec_DeepCopyInto :: "lib \<Rightarrow> copier" where
  "WebhookToolSpec_DeepCopyInto P = assign"

definition ArkAgentSpec_DeepCopyInto :: "lib \<Rightarrow> copier" where
  "ArkAgentSpec_DeepCopyInto P = into [(''Replicas'', new_of assign),
   (''SystemPromptRef'', new_of (SystemPromptSource_DeepCopyInto P)), (''MCPServers'', slice_of assign),
   (''Limits'', new_of assign), (''LivenessProbe'', new_of assign), (''ConfigRef'', new_of assign),
   (''MemoryRef'', new_of assign), (''Tools'', slice_of assign)]"

definition TokenUsage_DeepCopyInto :: "lib \<Rightarrow> copier" where
  "TokenUsage_DeepCopyInto P = assign"

definition ArkAgentStatus_DeepCopyInto :: "lib \<Rightarrow> copier" where
  "ArkAgentStatus_DeepCopyInto P = into [(''DailyTokenUsage'', new_of assign),
   (''Conditions'', slice_of (lbInto P ''metav1.Condition''))]"

definition ArkAgent_DeepCopyInto :: "lib \<Rightarrow> copier" where
  "ArkAgent_DeepCopyInto P = into [(''TypeMeta'', assign), (''ObjectMeta'', lbInto P ''metav1.ObjectMeta''),
   (''Spec'', ArkAgentSpec_DeepCopyInto P), (''Status'', ArkAgentStatus_DeepCopyInto P)]"

definition ArkAgentList_DeepCopyInto :: "lib \<Rightarrow> copier" where
  "ArkAgentList_DeepCopyInto P = into [(''TypeMeta'', assign), (''ListMeta'', lbInto P ''metav1.ListMeta''),
   (''Items'', slice_of (ArkAgent_DeepCopyInto P))]"

definition PipelineOutputSource_DeepCopyInto :: "lib \<Rightarrow> copier" where
  "PipelineOutputSource_DeepCopyInto P = assign"

definition ArkEventSource_DeepCopyInto :: "lib \<Rightarrow> copier" where
  "ArkEventSource_DeepCopyInto P = into [(''PipelineOutput'', new_of assign)]"

definition ArkEventTarget_DeepCopyInto :: "lib \<Rightarrow> copier" where
  "ArkEventTarget_DeepCopyInto P = into [(''Input'', map_copy (lbRange P))]"

definition ArkEventSpec_DeepCopyInto :: "lib \<Rightarrow> copier" where
  "ArkEventSpec_DeepCopyInto P = into [(''Source'', ArkEventSource_DeepCopyInto P),
   (''Targets'', slice_of (ArkEventTarget_DeepCopyInto P))]"

definition ArkEventStatus_DeepCopyInto :: "lib \<Rightarrow> copier" where
  "ArkEventStatus_DeepCopyInto P = into [(''LastFiredAt'', lbDeepCopy P ''metav1.Time''),
   (''NextFireAt'', lbDeepCopy P ''metav1.Time''), (''Conditions'', slice_of (lbInto P ''metav1.Condition''))]"

definition ArkEvent_DeepCopyInto :: "lib \<Rightarrow> copier" where
  "ArkEvent_DeepCopyInto P = into [(''TypeMeta'', assign), (''ObjectMeta'', lbInto P ''metav1.ObjectMeta''),
   (''Spec'', ArkEventSpec_DeepCopyInto P), (''Status'', ArkEventStatus_DeepCopyInto P)]"

definition ArkEventList_DeepCopyInto :: "lib \<Rightarrow> copier" where
  "ArkEventList_DeepCopyInto P = into [(''TypeMeta'', assign), (''ListMeta'', lbInto P ''metav1.ListMeta''),
   (''Items'', slice_of (ArkEvent_DeepCopyInto P))]"

definition LoopSpec_DeepCopyInto :: "lib \<Rightarrow> copier" where
  "LoopSpec_DeepCopyInto P = assign"

definition ArkFlowStep_DeepCopyInto :: "lib \<Rightarrow> copier" where
  "ArkFlowStep_DeepCopyInto P = into [(''Inputs'', map_copy (lbRange P)), (''DependsOn'', slice_of assign),
   (''Loop'', new_of assign)]"

definition ArkFlowSpec_DeepCopyInto :: "lib \<Rightarrow> copier" where
  "ArkFlowSpec_DeepCopyInto P = into [(''Steps'', slice_of (ArkFlowStep_DeepCopyInto P)),
   (''Input'', map_copy (lbRange P))]"

definition ArkFlowStepStatus_DeepCopyInto :: "lib \<Rightarrow> copier" where
  "ArkFlowStepStatus_DeepCopyInto P = into [(''StartTime'', lbDeepCopy P ''metav1.Time''),
   (''CompletionTime'', lbDeepCopy P ''metav1.Time''), (''TokenUsage'', new_of assign)]"

definition ArkFlowStatus_DeepCopyInto :: "lib \<Rightarrow> copier" where
  "ArkFlowStatus_DeepCopyInto P = into [(''Steps'', slice_of (ArkFlowStepStatus_DeepCopyInto P)),
   (''StartTime'', lbDeepCopy P ''metav1.Time''), (''CompletionTime'', lbDeepCopy P ''metav1.Time''),
   (''TotalTokenUsage'', new_of assign), (''Conditions'', slice_of (lbInto P ''metav1.Condition''))]"

definition ArkFlow_DeepCopyInto :: "lib \<Rightarrow> copier" where
  "ArkFlow_DeepCopyInto P = into [(''TypeMeta'', assign), (''ObjectMeta'', lbInto P ''metav1.ObjectMeta''),
   (''Spec'', ArkFlowSpec_DeepCopyInto P), (''Status'', ArkFlowStatus_DeepCopyInto P)]"

definition ArkFlowList_DeepCopyInto :: "lib \<Rightarrow> copier" where
  "ArkFlowList_DeepCopyInto P = into [(''TypeMeta'', assign), (''ListMeta'', lbInto P ''metav1.ListMeta''),
   (''Items'', slice_of (ArkFlow_DeepCopyInto P))]"

definition RedisMemoryConfig_DeepCopyInto :: "lib \<Rightarrow> copier" where
  "RedisMemoryConfig_DeepCopyInto P = into [(''SecretRef'', assign)]"

definition VectorStoreMemoryConfig_DeepCopyInto :: "lib \<Rightarrow> copier" where
  "VectorStoreMemoryConfig_DeepCopyInto P = into [(''SecretRef'', new_of assign)]"

definition ArkMemorySpec_DeepCopyInto :: "lib \<Rightarrow> copier" where
  "ArkMemorySpec_DeepCopyInto P = into [(''Redis'', new_of assign),
   (''VectorStore'', new_of (VectorStoreMemoryConfig_DeepCopyInto P))]"

definition ArkMemoryStatus_DeepCopyInto :: "lib \<Rightarrow> copier" where
  "ArkMemoryStatus_DeepCopyInto P = into [(''Conditions'', slice_of (lbInto P ''metav1.Condition''))]"

definition ArkMemory_DeepCopyInto :: "lib \<Rightarrow> copier" where
  "ArkMemory_DeepCopyInto P = into [(''TypeMeta'', assign), (''ObjectMeta'', lbInto P ''metav1.ObjectMeta''),
   (''Spec'', ArkMemorySpec_DeepCopyInto P), (''Status'', ArkMemoryStatus_DeepCopyInto P)]"

definition ArkMemoryList_DeepCopyInto :: "lib \<Rightarrow> copier" where
  "ArkMemoryList_DeepCopyInto P = into [(''TypeMeta'', assign), (''ListMeta'', lbInto P ''metav1.ListMeta''),
   (''Items'', slice_of (ArkMemory_DeepCopyInto P))]"

definition ArkServicePort_DeepCopyInto :: "lib \<Rightarrow> copier" where
  "ArkServicePort_DeepCopyInto P = assign"

definition ArkServiceRouting_DeepCopyInto :: "lib \<Rightarrow> copier" where
  "ArkServiceRouting_DeepCopyInto P = assign"

definition ArkServiceSelector_DeepCopyInto :: "lib \<Rightarrow> copier" where
  "ArkServiceSelector_DeepCopyInto P = assign"

definition ArkServiceSpec_DeepCopyInto :: "lib \<Rightarrow> copier" where
  "ArkServiceSpec_DeepCopyInto P = into [(''Selector'', assign), (''Routing'', assign),
   (''Ports'', slice_of assign)]"

definition ArkServiceStatus_DeepCopyInto :: "lib \<Rightarrow> copier" where
  "ArkServiceStatus_DeepCopyInto P = into [(''Conditions'', slice_of (lbInto P ''metav1.Condition''))]"

definition ArkService_DeepCopyInto :: "lib \<Rightarrow> copier" where
  "ArkService_DeepCopyInto P = into [(''TypeMeta'', assign), (''ObjectMeta'', lbInto P ''metav1.ObjectMeta''),
   (''Spec'', ArkServiceSpec_DeepCopyInto P), (''Status'', ArkServiceStatus_DeepCopyInto P)]"

definition ArkServiceList_DeepCopyInto :: "lib \<Rightarrow> copier" where
  "ArkServiceList_DeepCopyInto P = into [(''TypeMeta'', assign), (''ListMeta'', lbInto P ''metav1.ListMeta''),
   (''Items'', slice_of (ArkService_DeepCopyInto P))]"

definition PromptFragments_DeepCopyInto :: "lib \<Rightarrow> copier" where
  "PromptFragments_DeepCopyInto P = assign"

definition ArkSettingsSpec_DeepCopyInto :: "lib \<Rightarrow> copier" where
  "ArkSettingsSpec_DeepCopyInto P = into [(''PromptFragments'', assign)]"

definition ArkSettingsStatus_DeepCopyInto :: "lib \<Rightarrow> copier" where
  "ArkSettingsStatus_DeepCopyInto P = into [(''Conditions'', slice_of (lbInto P ''metav1.Condition''))]"

definition ArkSettings_DeepCopyInto :: "lib \<Rightarrow> copier" where
  "ArkSettings_DeepCopyInto P = into [(''TypeMeta'', assign), (''ObjectMeta'', lbInto P ''metav1.ObjectMeta''),
   (''Spec'', assign), (''Status'', ArkSettingsStatus_DeepCopyInto P)]"

definition ArkSettingsList_DeepCopyInto :: "lib \<Rightarrow> copier" where
  "ArkSettingsList_DeepCopyInto P = into [(''TypeMeta'', assign), (''ListMeta'', lbInto P ''metav1.ListMeta''),
   (''Items'', slice_of (ArkSettings_DeepCopyInto P))]"

section \<open>DeepCopy\<close>

definition ArkonisLimits_DeepCopy :: "lib \<Rightarrow> copier" where
  "ArkonisLimits_DeepCopy P = new_of (ArkonisLimits_DeepCopyInto P)"

definition ArkonisProbe_DeepCopy :: "lib \<Rightarrow> copier" where
  "ArkonisProbe_DeepCopy P = new_of (ArkonisProbe_DeepCopyInto P)"

definition LocalObjectReference_DeepCopy :: "lib \<Rightarrow> copier" where
  "LocalObjectReference_DeepCopy P = new_of (LocalObjectReference_DeepCopyInto P)"

definition MCPServerSpec_DeepCopy :: "lib \<Rightarrow> copier" where
  "MCPServerSpec_DeepCopy P = new_of (MCPServerSpec_DeepCopyInto P)"

definition SystemPromptSource_DeepCopy :: "lib \<Rightarrow> copier" where
  "SystemPromptSource_DeepCopy P = new_of (SystemPromptSource_DeepCopyInto P)"

definition WebhookToolSpec_DeepCopy :: "lib \<Rightarrow> copier" where
  "WebhookToolSpec_DeepCopy P = new_of (WebhookToolSpec_DeepCopyInto P)"

definition ArkAgentSpec_DeepCopy :: "lib \<Rightarrow> copier" where
  "ArkAgentSpec_DeepCopy P = new_of (ArkAgentSpec_DeepCopyInto P)"

definition TokenUsage_DeepCopy :: "lib \<Rightarrow> copier" where
  "TokenUsage_DeepCopy P = new_of (TokenUsage_DeepCopyInto P)"

definition ArkAgentStatus_DeepCopy :: "lib \<Rightarrow> copier" where
  "ArkAgentStatus_DeepCopy P = new_of (ArkAgentStatus_DeepCopyInto P)"

definition ArkAgent_DeepCopy :: "lib \<Rightarrow> copier" where
  "ArkAgent_DeepCopy P = new_of (ArkAgent_DeepCopyInto P)"

definition ArkAgentList_DeepCopy :: "lib \<Rightarrow> copier" where
  "ArkAgentList_DeepCopy P = new_of (ArkAgentList_DeepCopyInto P)"

definition PipelineOutputSource_DeepCopy :: "lib \<Rightarrow> copier" where
  "PipelineOutputSource_DeepCopy P = new_of (PipelineOutputSource_DeepCopyInto P)"

definition ArkEventSource_DeepCopy :: "lib \<Rightarrow> copier" where
  "ArkEventSource_DeepCopy P = new_of (ArkEventSource_DeepCopyInto P)"

definition ArkEventTarget_DeepCopy :: "lib \<Rightarrow> copier" where
  "ArkEventTarget_DeepCopy P = new_of (ArkEventTarget_DeepCopyInto P)"

definition ArkEventSpec_DeepCopy :: "lib \<Rightarrow> copier" where
  "ArkEventSpec_DeepCopy P = new_of (ArkEventSpec_DeepCopyInto P)"

definition ArkEventStatus_DeepCopy :: "lib \<Rightarrow> copier" where
  "ArkEventStatus_DeepCopy P = new_of (ArkEventStatus_DeepCopyInto P)"

definition ArkEvent_DeepCopy :: "lib \<Rightarrow> copier" where
  "ArkEvent_DeepCopy P = new_of (ArkEvent_DeepCopyInto P)"

definition ArkEventList_DeepCopy :: "lib \<Rightarrow> copier" where
  "ArkEventList_DeepCopy P = new_of (ArkEventList_DeepCopyInto P)"

definition LoopSpec_DeepCopy :: "lib \<Rightarrow> copier" where
  "LoopSpec_DeepCopy P = new_of (LoopSpec_DeepCopyInto P)"

definition ArkFlowStep_DeepCopy :: "lib \<Rightarrow> copier" where
  "ArkFlowStep_DeepCopy P = new_of (ArkFlowStep_DeepCopyInto P)"

definition ArkFlowSpec_DeepCopy :: "lib \<Rightarrow> copier" where
  "ArkFlowSpec_DeepCopy P = new_of (ArkFlowSpec_DeepCopyInto P)"

definition ArkFlowStepStatus_DeepCopy :: "lib \<Rightarrow> copier" where
  "ArkFlowStepStatus_DeepCopy P = new_of (ArkFlowStepStatus_DeepCopyInto P)"

definition ArkFlowStatus_DeepCopy :: "lib \<Rightarrow> copier" where
  "ArkFlowStatus_DeepCopy P = new_of (ArkFlowStatus_DeepCopyInto P)"

definition ArkFlow_DeepCopy :: "lib \<Rightarrow> copier" where
  "ArkFlow_DeepCopy P = new_of (ArkFlow_DeepCopyInto P)"

definition ArkFlowList_DeepCopy :: "lib \<Rightarrow> copier" where
  "ArkFlowList_DeepCopy P = new_of (ArkFlowList_DeepCopyInto P)"

definition RedisMemoryConfig_DeepCopy :: "lib \<Rightarrow> copier" where
  "RedisMemoryConfig_DeepCopy P = new_of (RedisMemoryConfig_DeepCopyInto P)"

definition VectorStoreMemoryConfig_DeepCopy :: "lib \<Rightarrow> copier" where
  "VectorStoreMemoryConfig_DeepCopy P = new_of (VectorStoreMemoryConfig_DeepCopyInto P)"

definition ArkMemorySpec_DeepCopy :: "lib \<Rightarrow> copier" where
  "ArkMemorySpec_DeepCopy P = new_of (ArkMemorySpec_DeepCopyInto P)"

definition ArkMemoryStatus_DeepCopy :: "lib \<Rightarrow> copier" where
  "ArkMemoryStatus_DeepCopy P = new_of (ArkMemoryStatus_DeepCopyInto P)"

definition ArkMemory_DeepCopy :: "lib \<Rightarrow> copier" where
  "ArkMemory_DeepCopy P = new_of (ArkMemory_DeepCopyInto P)"

definition ArkMemoryList_DeepCopy :: "lib \<Rightarrow> copier" where
  "ArkMemoryList_DeepCopy P = new_of (ArkMemoryList_DeepCopyInto P)"

definition ArkServicePort_DeepCopy :: "lib \<Rightarrow> copier" where
  "ArkServicePort_DeepCopy P = new_of (ArkServicePort_DeepCopyInto P)"

definition ArkServiceRouting_DeepCopy :: "lib \<Rightarrow> copier" where
  "ArkServiceRouting_DeepCopy P = new_of (ArkServiceRouting_DeepCopyInto P)"

definition ArkServiceSelector_DeepCopy :: "lib \<Rightarrow> copier" where
  "ArkServiceSelector_DeepCopy P = new_of (ArkServiceSelector_DeepCopyInto P)"

definition ArkServiceSpec_DeepCopy :: "lib \<Rightarrow> copier" where
  "ArkServiceSpec_DeepCopy P = new_of (ArkServiceSpec_DeepCopyInto P)"

definition ArkServiceStatus_DeepCopy :: "lib \<Rightarrow> copier" where
  "ArkServiceStatus_DeepCopy P = new_of (ArkServiceStatus_DeepCopyInto P)"

definition ArkService_DeepCopy :: "lib \<Rightarrow> copier" where
  "ArkService_DeepCopy P = new_of (ArkService_DeepCopyInto P)"

definition ArkServiceList_DeepCopy :: "lib \<Rightarrow> copier" where
  "ArkServiceList_DeepCopy P = new_of (ArkServiceList_DeepCopyInto P)"

definition PromptFragments_DeepCopy :: "lib \<Rightarrow> copier" where
  "PromptFragments_DeepCopy P = new_of (PromptFragments_DeepCopyInto P)"

definition ArkSettingsSpec_DeepCopy :: "lib \<Rightarrow> copier" where
  "ArkSettingsSpec_DeepCopy P = new_of (ArkSettingsSpec_DeepCopyInto P)"

definition ArkSettingsStatus_DeepCopy :: "lib \<Rightarrow> copier" where
  "ArkSettingsStatus_DeepCopy P = new_of (ArkSettingsStatus_DeepCopyInto P)"

definition ArkSettings_DeepCopy :: "lib \<Rightarrow> copier" where
  "ArkSettings_DeepCopy P = new_of (ArkSettings_DeepCopyInto P)"

definition ArkSettingsList_DeepCopy :: "lib \<Rightarrow> copier" where
  "ArkSettingsList_DeepCopy P = new_of (ArkSettingsList_DeepCopyInto P)"

section \<open>DeepCopyObject\<close>

definition ArkAgent_DeepCopyObject :: "lib \<Rightarrow> gval \<Rightarrow> heap \<Rightarrow> (string \<times> gval) option \<times> heap" where
  "ArkAgent_DeepCopyObject P = deep_copy_object ''ArkAgent'' (ArkAgent_DeepCopy P)"

definition ArkAgentList_DeepCopyObject :: "lib \<Rightarrow> gval \<Rightarrow> heap \<Rightarrow> (string \<times> gval) option \<times> heap" where
  "ArkAgentList_DeepCopyObject P = deep_copy_object ''ArkAgentList'' (ArkAgentList_DeepCopy P)"

definition ArkEvent_DeepCopyObject :: "lib \<Rightarrow> gval \<Rightarrow> heap \<Rightarrow> (string \<times> gval) option \<times> heap" where
  "ArkEvent_DeepCopyObject P = deep_copy_object ''ArkEvent'' (ArkEvent_DeepCopy P)"

definition ArkEventList_DeepCopyObject :: "lib \<Rightarrow> gval \<Rightarrow> heap \<Rightarrow> (string \<times> gval) option \<times> heap" where
  "ArkEventList_DeepCopyObject P = deep_copy_object ''ArkEventList'' (ArkEventList_DeepCopy P)"

definition ArkFlow_DeepCopyObject :: "lib \<Rightarrow> gval \<Rightarrow> heap \<Rightarrow> (string \<times> gval) option \<times> heap" where
  "ArkFlow_DeepCopyObject P = deep_copy_object ''ArkFlow'' (ArkFlow_DeepCopy P)"

definition ArkFlowList_DeepCopyObject :: "lib \<Rightarrow> gval \<Rightarrow> heap \<Rightarrow> (string \<times> gval) option \<times> heap" where
  "ArkFlowList_DeepCopyObject P = deep_copy_object ''ArkFlowList'' (ArkFlowList_DeepCopy P)"

definition ArkMemory_DeepCopyObject :: "lib \<Rightarrow> gval \<Rightarrow> heap \<Rightarrow> (string \<times> gval) option \<times> heap" where
  "ArkMemory_DeepCopyObject P = deep_copy_object ''ArkMemory'' (ArkMemory_DeepCopy P)"

definition ArkMemoryList_DeepCopyObject :: "lib \<Rightarrow> gval \<Rightarrow> heap \<Rightarrow> (string \<times> gval) option \<times> heap" where
  "ArkMemoryList_DeepCopyObject P = deep_copy_object ''ArkMemoryList'' (ArkMemoryList_DeepCopy P)"

definition ArkService_DeepCopyObject :: "lib \<Rightarrow> gval \<Rightarrow> heap \<Rightarrow> (string \<times> gval) option \<times> heap" where
  "ArkService_DeepCopyObject P = deep_copy_object ''ArkService'' (ArkService_DeepCopy P)"

definition ArkServiceList_DeepCopyObject :: "lib \<Rightarrow> gval \<Rightarrow> heap \<Rightarrow> (string \<times> gval) option \<times> heap" where
  "ArkServiceList_DeepCopyObject P = deep_copy_object ''ArkServiceList'' (ArkServiceList_DeepCopy P)"

definition ArkSettings_DeepCopyObject :: "lib \<Rightarrow> gval \<Rightarrow> heap \<Rightarrow> (string \<times> gval) option \<times> heap" where
  "ArkSettings_DeepCopyObject P = deep_copy_object ''ArkSettings'' (ArkSettings_DeepCopy P)"

definition ArkSettingsList_DeepCopyObject :: "lib \<Rightarrow> gval \<Rightarrow> heap \<Rightarrow> (string \<times> gval) option \<times> heap" where
  "ArkSettingsList_DeepCopyObject P = deep_copy_object ''ArkSettingsList'' (ArkSettingsList_DeepCopy P)"

section \<open>Every copy is deep\<close>

lemma lib_rules [deep_rules]:
  assumes "lib_ok L P"
  shows "n \<in> lib_types \<Longrightarrow> deep L (YLib n) (lbInto P n)" "n \<in> lib_types \<Longrightarrow> deep L (YPtr (YLib n)) (lbDeepCopy P n)"
    "deep L (YLib ''metav1.TypeMeta'') assign" "deep L YMap (map_copy (lbRange P))"
  using assms by (auto simp: lib_ok_def intro: deep_assign deep_map_copy)

lemma plain_types [simp, deep_rules]:
  "plain_type ArkonisLimits_type"
  "plain_type ArkonisProbe_type"
  "plain_type LocalObjectReference_type"
  "plain_type MCPServerSpec_type"
  "plain_type WebhookToolSpec_type"
  "plain_type TokenUsage_type"
  "plain_type PipelineOutputSource_type"
  "plain_type LoopSpec_type"
  "plain_type RedisMemoryConfig_type"
  "plain_type ArkServicePort_type"
  "plain_type ArkServiceRouting_type"
  "plain_type ArkServiceSelector_type"
  "plain_type PromptFragments_type"
  "plain_type ArkSettingsSpec_type"
  by (simp_all add: ArkonisLimits_type_def
     ArkonisProbe_type_def
     LocalObjectReference_type_def
     MCPServerSpec_type_def
     WebhookToolSpec_type_def
     TokenUsage_type_def
     PipelineOutputSource_type_def
     LoopSpec_type_def
     RedisMemoryConfig_type_def
     ArkServicePort_type_def
     ArkServiceRouting_type_def
     ArkServiceSelector_type_def
     PromptFragments_type_def
     ArkSettingsSpec_type_def)

lemma deep_ArkonisLimits [deep_rules]: "lib_ok L P \<Longrightarrow> deep L ArkonisLimits_type (ArkonisLimits_DeepCopyInto P)"
  unfolding ArkonisLimits_type_def ArkonisLimits_DeepCopyInto_def by (auto simp: lib_types_def intro!: deep_rules)

lemma deep_ArkonisProbe [deep_rules]: "lib_ok L P \<Longrightarrow> deep L ArkonisProbe_type (ArkonisProbe_DeepCopyInto P)"
  unfolding ArkonisProbe_type_def ArkonisProbe_DeepCopyInto_def by (auto simp: lib_types_def intro!: deep_rules)

lemma deep_LocalObjectReference [deep_rules]: "lib_ok L P \<Longrightarrow> deep L LocalObjectReference_type (LocalObjectReference_DeepCopyInto P)"
  unfolding LocalObjectReference_type_def LocalObjectReference_DeepCopyInto_def by (auto simp: lib_types_def intro!: deep_rules)

lemma deep_MCPServerSpec [deep_rules]: "lib_ok L P \<Longrightarrow> deep L MCPServerSpec_type (MCPServerSpec_DeepCopyInto P)"
  unfolding MCPServerSpec_type_def MCPServerSpec_DeepCopyInto_def by (auto simp: lib_types_def intro!: deep_rules)

lemma deep_SystemPromptSource [deep_rules]: "lib_ok L P \<Longrightarrow> deep L SystemPromptSource_type (SystemPromptSource_DeepCopyInto P)"
  unfolding SystemPromptSource_type_def SystemPromptSource_DeepCopyInto_def by (auto simp: lib_types_def intro!: deep_rules)

lemma deep_WebhookToolSpec [deep_rules]: "lib_ok L P \<Longrightarrow> deep L WebhookToolSpec_type (WebhookToolSpec_DeepCopyInto P)"
  unfolding WebhookToolSpec_type_def WebhookToolSpec_DeepCopyInto_def by (auto simp: lib_types_def intro!: deep_rules)

lemma deep_ArkAgentSpec [deep_rules]: "lib_ok L P \<Longrightarrow> deep L ArkAgentSpec_type (ArkAgentSpec_DeepCopyInto P)"
  unfolding ArkAgentSpec_type_def ArkAgentSpec_DeepCopyInto_def by (auto simp: lib_types_def intro!: deep_rules)

lemma deep_TokenUsage [deep_rules]: "lib_ok L P \<Longrightarrow> deep L TokenUsage_type (TokenUsage_DeepCopyInto P)"
  unfolding TokenUsage_type_def TokenUsage_DeepCopyInto_def by (auto simp: lib_types_def intro!: deep_rules)

lemma deep_ArkAgentStatus [deep_rules]: "lib_ok L P \<Longrightarrow> deep L ArkAgentStatus_type (ArkAgentStatus_DeepCopyInto P)"
  unfolding ArkAgentStatus_type_def ArkAgentStatus_DeepCopyInto_def by (auto simp: lib_types_def intro!: deep_rules)

lemma deep_ArkAgent [deep_rules]: "lib_ok L P \<Longrightarrow> deep L ArkAgent_type (ArkAgent_DeepCopyInto P)"
  unfolding ArkAgent_type_def ArkAgent_DeepCopyInto_def by (auto simp: lib_types_def intro!: deep_rules)

lemma deep_ArkAgentList [deep_rules]: "lib_ok L P \<Longrightarrow> deep L ArkAgentList_type (ArkAgentList_DeepCopyInto P)"
  unfolding ArkAgentList_type_def ArkAgentList_DeepCopyInto_def by (auto simp: lib_types_def intro!: deep_rules)

lemma deep_PipelineOutputSource [deep_rules]: "lib_ok L P \<Longrightarrow> deep L PipelineOutputSource_type (PipelineOutputSource_DeepCopyInto P)"
  unfolding PipelineOutputSource_type_def PipelineOutputSource_DeepCopyInto_def by (auto simp: lib_types_def intro!: deep_rules)

lemma deep_ArkEventSource [deep_rules]: "lib_ok L P \<Longrightarrow> deep L ArkEventSource_type (ArkEventSource_DeepCopyInto P)"
  unfolding ArkEventSource_type_def ArkEventSource_DeepCopyInto_def by (auto simp: lib_types_def intro!: deep_rules)

lemma deep_ArkEventTarget [deep_rules]: "lib_ok L P \<Longrightarrow> deep L ArkEventTarget_type (ArkEventTarget_DeepCopyInto P)"
  unfolding ArkEventTarget_type_def ArkEventTarget_DeepCopyInto_def by (auto simp: lib_types_def intro!: deep_rules)

lemma deep_ArkEventSpec [deep_rules]: "lib_ok L P \<Longrightarrow> deep L ArkEventSpec_type (ArkEventSpec_DeepCopyInto P)"
  unfolding ArkEventSpec_type_def ArkEventSpec_DeepCopyInto_def by (auto simp: lib_types_def intro!: deep_rules)

lemma deep_ArkEventStatus [deep_rules]: "lib_ok L P \<Longrightarrow> deep L ArkEventStatus_type (ArkEventStatus_DeepCopyInto P)"
  unfolding ArkEventStatus_type_def ArkEventStatus_DeepCopyInto_def by (auto simp: lib_types_def intro!: deep_rules)

lemma deep_ArkEvent [deep_rules]: "lib_ok L P \<Longrightarrow> deep L ArkEvent_type (ArkEvent_DeepCopyInto P)"
  unfolding ArkEvent_type_def ArkEvent_DeepCopyInto_def by (auto simp: lib_types_def intro!: deep_rules)

lemma deep_ArkEventList [deep_rules]: "lib_ok L P \<Longrightarrow> deep L ArkEventList_type (ArkEventList_DeepCopyInto P)"
  unfolding ArkEventList_type_def ArkEventList_DeepCopyInto_def by (auto simp: lib_types_def intro!: deep_rules)

lemma deep_LoopSpec [deep_rules]: "lib_ok L P \<Longrightarrow> deep L LoopSpec_type (LoopSpec_DeepCopyInto P)"
  unfolding LoopSpec_type_def LoopSpec_DeepCopyInto_def by (auto simp: lib_types_def intro!: deep_rules)

lemma deep_ArkFlowStep [deep_rules]: "lib_ok L P \<Longrightarrow> deep L ArkFlowStep_type (ArkFlowStep_DeepCopyInto P)"
  unfolding ArkFlowStep_type_def ArkFlowStep_DeepCopyInto_def by (auto simp: lib_types_def intro!: deep_rules)

lemma deep_ArkFlowSpec [deep_rules]: "lib_ok L P \<Longrightarrow> deep L ArkFlowSpec_type (ArkFlowSpec_DeepCopyInto P)"
  unfolding ArkFlowSpec_type_def ArkFlowSpec_DeepCopyInto_def by (auto simp: lib_types_def intro!: deep_rules)

lemma deep_ArkFlowStepStatus [deep_rules]: "lib_ok L P \<Longrightarrow> deep L ArkFlowStepStatus_type (ArkFlowStepStatus_DeepCopyInto P)"
  unfolding ArkFlowStepStatus_type_def ArkFlowStepStatus_DeepCopyInto_def by (auto simp: lib_types_def intro!: deep_rules)

lemma deep_ArkFlowStatus [deep_rules]: "lib_ok L P \<Longrightarrow> deep L ArkFlowStatus_type (ArkFlowStatus_DeepCopyInto P)"
  unfolding ArkFlowStatus_type_def ArkFlowStatus_DeepCopyInto_def by (auto simp: lib_types_def intro!: deep_rules)

lemma deep_ArkFlow [deep_rules]: "lib_ok L P \<Longrightarrow> deep L ArkFlow_type (ArkFlow_DeepCopyInto P)"
  unfolding ArkFlow_type_def ArkFlow_DeepCopyInto_def by (auto simp: lib_types_def intro!: deep_rules)

lemma deep_ArkFlowList [deep_rules]: "lib_ok L P \<Longrightarrow> deep L ArkFlowList_type (ArkFlowList_DeepCopyInto P)"
  unfolding ArkFlowList_type_def ArkFlowList_DeepCopyInto_def by (auto simp: lib_types_def intro!: deep_rules)

lemma deep_RedisMemoryConfig [deep_rules]: "lib_ok L P \<Longrightarrow> deep L RedisMemoryConfig_type (RedisMemoryConfig_DeepCopyInto P)"
  unfolding RedisMemoryConfig_type_def RedisMemoryConfig_DeepCopyInto_def by (auto simp: lib_types_def intro!: deep_rules)

lemma deep_VectorStoreMemoryConfig [deep_rules]: "lib_ok L P \<Longrightarrow> deep L VectorStoreMemoryConfig_type (VectorStoreMemoryConfig_DeepCopyInto P)"
  unfolding VectorStoreMemoryConfig_type_def VectorStoreMemoryConfig_DeepCopyInto_def by (auto simp: lib_types_def intro!: deep_rules)

lemma deep_ArkMemorySpec [deep_rules]: "lib_ok L P \<Longrightarrow> deep L ArkMemorySpec_type (ArkMemorySpec_DeepCopyInto P)"
  unfolding ArkMemorySpec_type_def ArkMemorySpec_DeepCopyInto_def by (auto simp: lib_types_def intro!: deep_rules)

lemma deep_ArkMemoryStatus [deep_rules]: "lib_ok L P \<Longrightarrow> deep L ArkMemoryStatus_type (ArkMemoryStatus_DeepCopyInto P)"
  unfolding ArkMemoryStatus_type_def ArkMemoryStatus_DeepCopyInto_def by (auto simp: lib_types_def intro!: deep_rules)

lemma deep_ArkMemory [deep_rules]: "lib_ok L P \<Longrightarrow> deep L ArkMemory_type (ArkMemory_DeepCopyInto P)"
  unfolding ArkMemory_type_def ArkMemory_DeepCopyInto_def by (auto simp: lib_types_def intro!: deep_rules)

lemma deep_ArkMemoryList [deep_rules]: "lib_ok L P \<Longrightarrow> deep L ArkMemoryList_type (ArkMemoryList_DeepCopyInto P)"
  unfolding ArkMemoryList_type_def ArkMemoryList_DeepCopyInto_def by (auto simp: lib_types_def intro!: deep_rules)

lemma deep_ArkServicePort [deep_rules]: "lib_ok L P \<Longrightarrow> deep L ArkServicePort_type (ArkServicePort_DeepCopyInto P)"
  unfolding ArkServicePort_type_def ArkServicePort_DeepCopyInto_def by (auto simp: lib_types_def intro!: deep_rules)

lemma deep_ArkServiceRouting [deep_rules]: "lib_ok L P \<Longrightarrow> deep L ArkServiceRouting_type (ArkServiceRouting_DeepCopyInto P)"
  unfolding ArkServiceRouting_type_def ArkServiceRouting_DeepCopyInto_def by (auto simp: lib_types_def intro!: deep_rules)

lemma deep_ArkServiceSelector [deep_rules]: "lib_ok L P \<Longrightarrow> deep L ArkServiceSelector_type (ArkServiceSelector_DeepCopyInto P)"
  unfolding ArkServiceSelector_type_def ArkServiceSelector_DeepCopyInto_def by (auto simp: lib_types_def intro!: deep_rules)

lemma deep_ArkServiceSpec [deep_rules]: "lib_ok L P \<Longrightarrow> deep L ArkServiceSpec_type (ArkServiceSpec_DeepCopyInto P)"
  unfolding ArkServiceSpec_type_def ArkServiceSpec_DeepCopyInto_def by (auto simp: lib_types_def intro!: deep_rules)

lemma deep_ArkServiceStatus [deep_rules]: "lib_ok L P \<Longrightarrow> deep L ArkServiceStatus_type (ArkServiceStatus_DeepCopyInto P)"
  unfolding ArkServiceStatus_type_def ArkServiceStatus_DeepCopyInto_def by (auto simp: lib_types_def intro!: deep_rules)

lemma deep_ArkService [deep_rules]: "lib_ok L P \<Longrightarrow> deep L ArkService_type (ArkService_DeepCopyInto P)"
  unfolding ArkService_type_def ArkService_DeepCopyInto_def by (auto simp: lib_types_def intro!: deep_rules)

lemma deep_ArkServiceList [deep_rules]: "lib_ok L P \<Longrightarrow> deep L ArkServiceList_type (ArkServiceList_DeepCopyInto P)"
  unfolding ArkServiceList_type_def ArkServiceList_DeepCopyInto_def by (auto simp: lib_types_def intro!: deep_rules)

lemma deep_PromptFragments [deep_rules]: "lib_ok L P \<Longrightarrow> deep L PromptFragments_type (PromptFragments_DeepCopyInto P)"
  unfolding PromptFragments_type_def PromptFragments_DeepCopyInto_def by (auto simp: lib_types_def intro!: deep_rules)

lemma deep_ArkSettingsSpec [deep_rules]: "lib_ok L P \<Longrightarrow> deep L ArkSettingsSpec_type (ArkSettingsSpec_DeepCopyInto P)"
  unfolding ArkSettingsSpec_type_def ArkSettingsSpec_DeepCopyInto_def by (auto simp: lib_types_def intro!: deep_rules)

lemma deep_ArkSettingsStatus [deep_rules]: "lib_ok L P \<Longrightarrow> deep L ArkSettingsStatus_type (ArkSettingsStatus_DeepCopyInto P)"
  unfolding ArkSettingsStatus_type_def ArkSettingsStatus_DeepCopyInto_def by (auto simp: lib_types_def intro!: deep_rules)

lemma deep_ArkSettings [deep_rules]: "lib_ok L P \<Longrightarrow> deep L ArkSettings_type (ArkSettings_DeepCopyInto P)"
  unfolding ArkSettings_type_def ArkSettings_DeepCopyInto_def by (auto simp: lib_types_def intro!: deep_rules)

lemma deep_ArkSettingsList [deep_rules]: "lib_ok L P \<Longrightarrow> deep L ArkSettingsList_type (ArkSettingsList_DeepCopyInto P)"
  unfolding ArkSettingsList_type_def ArkSettingsList_DeepCopyInto_def by (auto simp: lib_types_def intro!: deep_rules)

text \<open>All of them, by name: type, \<open>DeepCopyInto\<close> and \<open>DeepCopy\<close>; and the objects with \<open>DeepCopyObject\<close>.\<close>

definition copiers :: "lib \<Rightarrow> (string \<times> gtype \<times> copier \<times> copier) list" where
  "copiers P = [
     (''ArkAgent'', ArkAgent_type, ArkAgent_DeepCopyInto P, ArkAgent_DeepCopy P),
     (''ArkAgentList'', ArkAgentList_type, ArkAgentList_DeepCopyInto P, ArkAgentList_DeepCopy P),
     (''ArkAgentSpec'', ArkAgentSpec_type, ArkAgentSpec_DeepCopyInto P, ArkAgentSpec_DeepCopy P),
     (''ArkAgentStatus'', ArkAgentStatus_type, ArkAgentStatus_DeepCopyInto P, ArkAgentStatus_DeepCopy P),
     (''ArkEvent'', ArkEvent_type, ArkEvent_DeepCopyInto P, ArkEvent_DeepCopy P),
     (''ArkEventList'', ArkEventList_type, ArkEventList_DeepCopyInto P, ArkEventList_DeepCopy P),
     (''ArkEventSource'', ArkEventSource_type, ArkEventSource_DeepCopyInto P, ArkEventSource_DeepCopy P),
     (''ArkEventSpec'', ArkEventSpec_type, ArkEventSpec_DeepCopyInto P, ArkEventSpec_DeepCopy P),
     (''ArkEventStatus'', ArkEventStatus_type, ArkEventStatus_DeepCopyInto P, ArkEventStatus_DeepCopy P),
     (''ArkEventTarget'', ArkEventTarget_type, ArkEventTarget_DeepCopyInto P, ArkEventTarget_DeepCopy P),
     (''ArkFlow'', ArkFlow_type, ArkFlow_DeepCopyInto P, ArkFlow_DeepCopy P),
     (''ArkFlowList'', ArkFlowList_type, ArkFlowList_DeepCopyInto P, ArkFlowList_DeepCopy P),
     (''ArkFlowSpec'', ArkFlowSpec_type, ArkFlowSpec_DeepCopyInto P, ArkFlowSpec_DeepCopy P),
     (''ArkFlowStatus'', ArkFlowStatus_type, ArkFlowStatus_DeepCopyInto P, ArkFlowStatus_DeepCopy P),
     (''ArkFlowStep'', ArkFlowStep_type, ArkFlowStep_DeepCopyInto P, ArkFlowStep_DeepCopy P),
     (''ArkFlowStepStatus'', ArkFlowStepStatus_type, ArkFlowStepStatus_DeepCopyInto P, ArkFlowStepStatus_DeepCopy P),
     (''ArkMemory'', ArkMemory_type, ArkMemory_DeepCopyInto P, ArkMemory_DeepCopy P),
     (''ArkMemoryList'', ArkMemoryList_type, ArkMemoryList_DeepCopyInto P, ArkMemoryList_DeepCopy P),
     (''ArkMemorySpec'', ArkMemorySpec_type, ArkMemorySpec_DeepCopyInto P, ArkMemorySpec_DeepCopy P),
     (''ArkMemoryStatus'', ArkMemoryStatus_type, ArkMemoryStatus_DeepCopyInto P, ArkMemoryStatus_DeepCopy P),
     (''ArkService'', ArkService_type, ArkService_DeepCopyInto P, ArkService_DeepCopy P),
     (''ArkServiceList'', ArkServiceList_type, ArkServiceList_DeepCopyInto P, ArkServiceList_DeepCopy P),
     (''ArkServicePort'', ArkServicePort_type, ArkServicePort_DeepCopyInto P, ArkServicePort_DeepCopy P),
     (''ArkServiceRouting'', ArkServiceRouting_type, ArkServiceRouting_DeepCopyInto P, ArkServiceRouting_DeepCopy P),
     (''ArkServiceSelector'', ArkServiceSelector_type, ArkServiceSelector_DeepCopyInto P, ArkServiceSelector_DeepCopy P),
     (''ArkServiceSpec'', ArkServiceSpec_type, ArkServiceSpec_DeepCopyInto P, ArkServiceSpec_DeepCopy P),
     (''ArkServiceStatus'', ArkServiceStatus_type, ArkServiceStatus_DeepCopyInto P, ArkServiceStatus_DeepCopy P),
     (''ArkSettings'', ArkSettings_type, ArkSettings_DeepCopyInto P, ArkSettings_DeepCopy P),
     (''ArkSettingsList'', ArkSettingsList_type, ArkSettingsList_DeepCopyInto P, ArkSettingsList_DeepCopy P),
     (''ArkSettingsSpec'', ArkSettingsSpec_type, ArkSettingsSpec_DeepCopyInto P, ArkSettingsSpec_DeepCopy P),
     (''ArkSettingsStatus'', ArkSettingsStatus_type, ArkSettingsStatus_DeepCopyInto P, ArkSettingsStatus_DeepCopy P),
     (''ArkonisLimits'', ArkonisLimits_type, ArkonisLimits_DeepCopyInto P, ArkonisLimits_DeepCopy P),
     (''ArkonisProbe'', ArkonisProbe_type, ArkonisProbe_DeepCopyInto P, ArkonisProbe_DeepCopy P),
     (''LocalObjectReference'', LocalObjectReference_type, LocalObjectReference_DeepCopyInto P, LocalObjectReference_DeepCopy P),
     (''LoopSpec'', LoopSpec_type, LoopSpec_DeepCopyInto P, LoopSpec_DeepCopy P),
     (''MCPServerSpec'', MCPServerSpec_type, MCPServerSpec_DeepCopyInto P, MCPServerSpec_DeepCopy P),
     (''PipelineOutputSource'', PipelineOutputSource_type, PipelineOutputSource_DeepCopyInto P, PipelineOutputSource_DeepCopy P),
     (''PromptFragments'', PromptFragments_type, PromptFragments_DeepCopyInto P, PromptFragments_DeepCopy P),
     (''RedisMemoryConfig'', RedisMemoryConfig_type, RedisMemoryConfig_DeepCopyInto P, RedisMemoryConfig_DeepCopy P),
     (''SystemPromptSource'', SystemPromptSource_type, SystemPromptSource_DeepCopyInto P, SystemPromptSource_DeepCopy P),
     (''TokenUsage'', TokenUsage_type, TokenUsage_DeepCopyInto P, TokenUsage_DeepCopy P),
     (''VectorStoreMemoryConfig'', VectorStoreMemoryConfig_type, VectorStoreMemoryConfig_DeepCopyInto P, VectorStoreMemoryConfig_DeepCopy P),
     (''WebhookToolSpec'', WebhookToolSpec_type, WebhookToolSpec_DeepCopyInto P, WebhookToolSpec_DeepCopy P)]"

definition object_copiers :: "lib \<Rightarrow> (string \<times> gtype \<times> (gval \<Rightarrow> heap \<Rightarrow> (string \<times> gval) option \<times> heap)) list" where
  "object_copiers P = [
     (''ArkAgent'', ArkAgent_type, ArkAgent_DeepCopyObject P),
     (''ArkAgentList'', ArkAgentList_type, ArkAgentList_DeepCopyObject P),
     (''ArkEvent'', ArkEvent_type, ArkEvent_DeepCopyObject P),
     (''ArkEventList'', ArkEventList_type, ArkEventList_DeepCopyObject P),
     (''ArkFlow'', ArkFlow_type, ArkFlow_DeepCopyObject P),
     (''ArkFlowList'', ArkFlowList_type, ArkFlowList_DeepCopyObject P),
     (''ArkMemory'', ArkMemory_type, ArkMemory_DeepCopyObject P),
     (''ArkMemoryList'', ArkMemoryList_type, ArkMemoryList_DeepCopyObject P),
     (''ArkService'', ArkService_type, ArkService_DeepCopyObject P),
     (''ArkServiceList'', ArkServiceList_type, ArkServiceList_DeepCopyObject P),
     (''ArkSettings'', ArkSettings_type, ArkSettings_DeepCopyObject P),
     (''ArkSettingsList'', ArkSettingsList_type, ArkSettingsList_DeepCopyObject P)]"

lemmas DeepCopy_defs =
  ArkonisLimits_DeepCopy_def
  ArkonisProbe_DeepCopy_def
  LocalObjectReference_DeepCopy_def
  MCPServerSpec_DeepCopy_def
  SystemPromptSource_DeepCopy_def
  WebhookToolSpec_DeepCopy_def
  ArkAgentSpec_DeepCopy_def
  TokenUsage_DeepCopy_def
  ArkAgentStatus_DeepCopy_def
  ArkAgent_DeepCopy_def
  ArkAgentList_DeepCopy_def
  PipelineOutputSource_DeepCopy_def
  ArkEventSource_DeepCopy_def
  ArkEventTarget_DeepCopy_def
  ArkEventSpec_DeepCopy_def
  ArkEventStatus_DeepCopy_def
  ArkEvent_DeepCopy_def
  ArkEventList_DeepCopy_def
  LoopSpec_DeepCopy_def
  ArkFlowStep_DeepCopy_def
  ArkFlowSpec_DeepCopy_def
  ArkFlowStepStatus_DeepCopy_def
  ArkFlowStatus_DeepCopy_def
  ArkFlow_DeepCopy_def
  ArkFlowList_DeepCopy_def
  RedisMemoryConfig_DeepCopy_def
  VectorStoreMemoryConfig_DeepCopy_def
  ArkMemorySpec_DeepCopy_def
  ArkMemoryStatus_DeepCopy_def
  ArkMemory_DeepCopy_def
  ArkMemoryList_DeepCopy_def
  ArkServicePort_DeepCopy_def
  ArkServiceRouting_DeepCopy_def
  ArkServiceSelector_DeepCopy_def
  ArkServiceSpec_DeepCopy_def
  ArkServiceStatus_DeepCopy_def
  ArkService_DeepCopy_def
  ArkServiceList_DeepCopy_def
  PromptFragments_DeepCopy_def
  ArkSettingsSpec_DeepCopy_def
  ArkSettingsStatus_DeepCopy_def
  ArkSettings_DeepCopy_def
  ArkSettingsList_DeepCopy_def

lemmas DeepCopyObject_defs =
  ArkAgent_DeepCopyObject_def
  ArkAgentList_DeepCopyObject_def
  ArkEvent_DeepCopyObject_def
  ArkEventList_DeepCopyObject_def
  ArkFlow_DeepCopyObject_def
  ArkFlowList_DeepCopyObject_def
  ArkMemory_DeepCopyObject_def
  ArkMemoryList_DeepCopyObject_def
  ArkService_DeepCopyObject_def
  ArkServiceList_DeepCopyObject_def
  ArkSettings_DeepCopyObject_def
  ArkSettingsList_DeepCopyObject_def

lemmas deep_into_facts =
  deep_ArkonisLimits
  deep_ArkonisProbe
  deep_LocalObjectReference
  deep_MCPServerSpec
  deep_SystemPromptSource
  deep_WebhookToolSpec
  deep_ArkAgentSpec
  deep_TokenUsage
  deep_ArkAgentStatus
  deep_ArkAgent
  deep_ArkAgentList
  deep_PipelineOutputSource
  deep_ArkEventSource
  deep_ArkEventTarget
  deep_ArkEventSpec
  deep_ArkEventStatus
  deep_ArkEvent
  deep_ArkEventList
  deep_LoopSpec
  deep_ArkFlowStep
  deep_ArkFlowSpec
  deep_ArkFlowStepStatus
  deep_ArkFlowStatus
  deep_ArkFlow
  deep_ArkFlowList
  deep_RedisMemoryConfig
  deep_VectorStoreMemoryConfig
  deep_ArkMemorySpec
  deep_ArkMemoryStatus
  deep_ArkMemory
  deep_ArkMemoryList
  deep_ArkServicePort
  deep_ArkServiceRouting
  deep_ArkServiceSelector
  deep_ArkServiceSpec
  deep_ArkServiceStatus
  deep_ArkService
  deep_ArkServiceList
  deep_PromptFragments
  deep_ArkSettingsSpec
  deep_ArkSettingsStatus
  deep_ArkSettings
  deep_ArkSettingsList

lemma copiers_deep:
  assumes "lib_ok L P" and "(n, y, f, copy) \<in> set (copiers P)"
  shows "deep L y f \<and> copy = new_of f"
proof -
  have "list_all (\<lambda>(n, y, f, copy). deep L y f \<and> copy = new_of f) (copiers P)"
    by (simp add: copiers_def DeepCopy_defs deep_into_facts assms(1))
  with assms(2) show ?thesis by (auto simp: list_all_iff)
qed

lemma object_copiers_copiers:
  "set (object_copiers P) \<subseteq> (\<lambda>(n, y, f, copy). (n, y, deep_copy_object n copy)) ` set (copiers P)"
  by (simp add: object_copiers_def copiers_def DeepCopyObject_defs)

end
