(* ===== verification/CopyProps.thy ===== *)
theory CopyProps
  imports DeepCopy
begin

text \<open>
  The properties of the deep copies of \<^verbatim>\<open>api/v1alpha1/zz_generated.deepcopy.go\<close>, for every type at once.
\<close>

section \<open>Isolation\<close>

text \<open>
  Two values stand for the same data and share no memory: whatever is written to what the one reads, the other
  still stands for that data.
\<close>

definition isolated :: "heap \<Rightarrow> gval \<Rightarrow> gval \<Rightarrow> tree \<Rightarrow> bool" where
  "isolated h v w t \<longleftrightarrow> (\<exists>A B. reads h v t A \<and> reads h w t B \<and> A \<inter> B = {} \<and>
     (\<forall>h2. (\<forall>p. p \<notin> B \<longrightarrow> hpCells h2 p = hpCells h p) \<longrightarrow> reads h2 v t A) \<and>
     (\<forall>h2. (\<forall>p. p \<notin> A \<longrightarrow> hpCells h2 p = hpCells h p) \<longrightarrow> reads h2 w t B))"

lemma deep_isolated:
  assumes "deep L y c" and "heap_ok h" and "reads h v t A" and "typed L y t" and "c v h = (w, h')"
  shows "isolated h' v w t"
  using deep_isolates [OF assms] unfolding isolated_def by (metis Int_commute)

text \<open>A copier of pointers keeps every cell that the heap had.\<close>

lemma deep_keeps:
  assumes "deep L y c" and "heap_ok h" and "reads h v t A" and "typed L y t" and "c v h = (w, h')"
    and "hpCells h p = Some x"
  shows "hpCells h' p = Some x"
  using deepD [OF assms(1-5)] assms(2,6) by (metis extends_def heap_ok_def option.distinct(1))

lemma new_of_nil: "new_of c v h = (w, h') \<Longrightarrow> w = VPtr None \<longleftrightarrow> v = VPtr None"
  by (cases "(c, v, h)" rule: new_of.cases) (auto simp: Let_def split: prod.splits)

section \<open>Properties\<close>

text \<open>
  C20: for each of the 43 API types, \<open>DeepCopy\<close> of a pointer to well-typed data changes no memory the program had,
  returns nil exactly for nil, and otherwise a pointer to equal data that shares no memory with the original:
  a reconciler that writes to the copy, however deep, does not change the object its client caches, and the
  other way round. The copies of other modules' types are assumed to do so for theirs.
\<close>
theorem deep_copy_isolates:
  assumes "lib_ok L P" and "(n, y, DeepCopyInto, DeepCopy) \<in> set (copiers P)"
    and "heap_ok h" and "reads h v t A" and "typed L (YPtr y) t" and "DeepCopy v h = (w, h')"
  shows "isolated h' v w t \<and> (w = VPtr None \<longleftrightarrow> v = VPtr None) \<and>
     (\<forall>p x. hpCells h p = Some x \<longrightarrow> hpCells h' p = Some x)"
proof -
  have copy: "DeepCopy = new_of DeepCopyInto" "deep L (YPtr y) DeepCopy"
    using copiers_deep [OF assms(1,2)] deep_new_of by auto
  show ?thesis
    using deep_isolated [OF copy(2) assms(3-6)] deep_keeps [OF copy(2) assms(3-6)] new_of_nil assms(6) copy(1) by blast
qed

text \<open>
  For each of the 12 objects and lists the manager's scheme registers, \<open>DeepCopyObject\<close> returns the nil
  interface for a nil pointer, never an interface that holds a nil pointer, and otherwise an object of the same
  type that is isolated from the original.
\<close>
theorem deep_copy_object_isolates:
  assumes "lib_ok L P" and "(n, y, DeepCopyObject) \<in> set (object_copiers P)"
    and "heap_ok h" and "reads h v t A" and "typed L (YPtr y) t" and "DeepCopyObject v h = (r, h')"
  shows "case r of None \<Rightarrow> v = VPtr None | Some (k, w) \<Rightarrow> k = n \<and> w \<noteq> VPtr None \<and> isolated h' v w t"
proof -
  obtain f c where c: "(n, y, f, c) \<in> set (copiers P)" "DeepCopyObject = deep_copy_object n c"
    using object_copiers_copiers [of P] assms(2) by fastforce
  obtain w h1 where w: "c v h = (w, h1)" by fastforce
  have d: "c = new_of f" "deep L (YPtr y) c" using copiers_deep [OF assms(1) c(1)] deep_new_of by auto
  have "isolated h1 v w t" "w = VPtr None \<longleftrightarrow> v = VPtr None"
    using deep_isolated [OF d(2) assms(3-5) w] new_of_nil w d(1) by blast+
  with assms(6) w c(2) show ?thesis by (auto simp: deep_copy_object_def Let_def)
qed

section \<open>Witnesses\<close>

inductive_simps reads_simps [simp]:
  "reads h (VBasic b) t A" "reads h (VStruct fs) t A" "reads h (VPtr None) t A" "reads h (VPtr (Some p)) t A"
  "reads h (VSlice None) t A" "reads_list h [] ts A" "reads_list h (v # vs) ts A"

text \<open>A memory resource with a Redis section, behind a pointer.\<close>

definition sample_lib :: lib where
  "sample_lib = \<lparr>lbInto = \<lambda>_. assign, lbDeepCopy = \<lambda>_. new_of assign, lbRange = \<lambda>m. m\<rparr>"

lemma sample_lib_ok: "lib_ok (\<lambda>n. plain) sample_lib"
  by (auto simp: lib_ok_def sample_lib_def intro!: deep_assign deep_new_of)

definition sample_redis :: gval where
  "sample_redis = VStruct [(''SecretRef'', VStruct [(''Name'', VBasic (BStr ''redis''))]),
     (''TTLSeconds'', VBasic (BNum 60)), (''MaxEntries'', VBasic (BNum 5))]"

definition sample_memory :: gval where
  "sample_memory = VStruct [(''TypeMeta'', VStruct []), (''ObjectMeta'', VStruct [(''Name'', VBasic (BStr ''m''))]),
     (''Spec'', VStruct [(''Backend'', VBasic (BStr ''redis'')), (''Redis'', VPtr (Some 0)), (''VectorStore'', VPtr None)]),
     (''Status'', VStruct [(''ObservedGeneration'', VBasic (BNum 1)), (''Conditions'', VSlice None)])]"

definition sample_tree :: tree where
  "sample_tree = TRef (TStruct [(''TypeMeta'', TStruct []), (''ObjectMeta'', TStruct [(''Name'', TBasic (BStr ''m''))]),
     (''Spec'', TStruct [(''Backend'', TBasic (BStr ''redis'')),
        (''Redis'', TRef (TStruct [(''SecretRef'', TStruct [(''Name'', TBasic (BStr ''redis''))]),
           (''TTLSeconds'', TBasic (BNum 60)), (''MaxEntries'', TBasic (BNum 5))])), (''VectorStore'', TNil)]),
     (''Status'', TStruct [(''ObservedGeneration'', TBasic (BNum 1)), (''Conditions'', TNil)])])"

definition sample_heap :: heap where
  "sample_heap = \<lparr>hpNext = 2, hpCells = [0 \<mapsto> CVal sample_redis, 1 \<mapsto> CVal sample_memory]\<rparr>"

lemma sample_ok: "heap_ok sample_heap" "typed (\<lambda>n. plain) (YPtr ArkMemory_type) sample_tree"
  by (auto simp: heap_ok_def sample_heap_def sample_tree_def ArkMemory_type_def ArkMemorySpec_type_def
      ArkMemoryStatus_type_def RedisMemoryConfig_type_def LocalObjectReference_type_def)

lemma sample_reads: "reads sample_heap (VPtr (Some 1)) sample_tree {0, 1}"
  unfolding sample_tree_def by (auto simp: sample_heap_def sample_memory_def sample_redis_def)

lemma sample_copy:
  "fst (ArkMemory_DeepCopy sample_lib (VPtr (Some 1)) sample_heap) = VPtr (Some 2)"
  "hpCells (snd (ArkMemory_DeepCopy sample_lib (VPtr (Some 1)) sample_heap)) 3 = Some (CVal sample_redis)"
  by (simp_all add: ArkMemory_DeepCopy_def ArkMemory_DeepCopyInto_def ArkMemorySpec_DeepCopyInto_def
      ArkMemoryStatus_DeepCopyInto_def sample_lib_def sample_heap_def sample_memory_def alloc_def store_def deref_def
      assign_def Let_def)

lemma deep_copy_isolates_witness:
  "\<exists>h'. hpCells h' 3 = Some (CVal sample_redis) \<and> isolated h' (VPtr (Some 1)) (VPtr (Some 2)) sample_tree"
proof -
  obtain w h' where r: "ArkMemory_DeepCopy sample_lib (VPtr (Some 1)) sample_heap = (w, h')" by fastforce
  have "(''ArkMemory'', ArkMemory_type, ArkMemory_DeepCopyInto sample_lib, ArkMemory_DeepCopy sample_lib) \<in>
     set (copiers sample_lib)"
    by (simp add: copiers_def)
  from deep_copy_isolates [OF sample_lib_ok this sample_ok(1) sample_reads sample_ok(2) r]
  show ?thesis using sample_copy r by (metis fst_conv snd_conv)
qed

lemma deep_copy_object_isolates_witness:
  "\<exists>h'. isolated h' (VPtr (Some 1)) (VPtr (Some 2)) sample_tree"
proof -
  obtain r h' where r: "ArkMemory_DeepCopyObject sample_lib (VPtr (Some 1)) sample_heap = (r, h')" by fastforce
  have "(''ArkMemory'', ArkMemory_type, ArkMemory_DeepCopyObject sample_lib) \<in> set (object_copiers sample_lib)"
    by (simp add: object_copiers_def)
  from deep_copy_object_isolates [OF sample_lib_ok this sample_ok(1) sample_reads sample_ok(2) r]
  show ?thesis using r sample_copy(1)
    by (auto simp: ArkMemory_DeepCopyObject_def deep_copy_object_def Let_def split: prod.splits if_splits)
qed

end
