(* ===== verification/AgentController.thy ===== *)
theory AgentController
  imports AgentConfig
begin

text \<open>
  \<^verbatim>\<open>internal/controller/arkagent_controller.go\<close>: an ArkAgent becomes a Deployment whose environment
  configures the runtime, and its token use over the last day decides whether it runs at all. The API
  server is \<open>agent_api\<close>; hashing and JSON encoding are parameters of it.
\<close>

section \<open>Kubernetes objects\<close>

datatype env_source =
    EnvValue string
  | EnvSecretKey string string \<comment> \<open>secret and key\<close>
  | EnvFieldPath string

record EnvVar =
  evName :: string
  evSource :: env_source

record Probe =
  pbPath :: string
  pbPort :: int
  pbInitialDelay :: int
  pbPeriod :: int
  pbTimeout :: int

record Container =
  coName :: string
  coImage :: string
  coImagePullPolicy :: string
  coPorts :: "(string \<times> int \<times> string) list"
  coEnv :: "EnvVar list"
  coEnvFrom :: "(string \<times> bool) list" \<comment> \<open>secret, and whether it is optional\<close>
  coLivenessProbe :: Probe
  coReadinessProbe :: Probe

record DeploymentObj =
  dpName :: string
  dpNamespace :: string
  dpLabels :: "string \<rightharpoonup> string"
  dpOwner :: "string option"
  dpReplicas :: "i32 option"
  dpSelector :: "string \<rightharpoonup> string"
  dpTemplateLabels :: "string \<rightharpoonup> string"
  dpTemplateAnnotations :: "string \<rightharpoonup> string"
  dpContainers :: "Container list"
  dpStatusReplicas :: i32
  dpStatusReadyReplicas :: i32

record 'w agent_api =
  aaGetAgent :: "'w \<Rightarrow> NamespacedName \<Rightarrow> api_error + ArkAgent"
  aaGetSettings :: "'w \<Rightarrow> NamespacedName \<Rightarrow> api_error + ArkSettings"
  aaGetMemory :: "'w \<Rightarrow> NamespacedName \<Rightarrow> api_error + ArkMemory"
  aaGetDeployment :: "'w \<Rightarrow> NamespacedName \<Rightarrow> api_error + DeploymentObj"
  aaGetConfigMap :: "'w \<Rightarrow> NamespacedName \<Rightarrow> api_error + (string \<rightharpoonup> string)"
  aaGetSecret :: "'w \<Rightarrow> NamespacedName \<Rightarrow> api_error + (string \<rightharpoonup> string)"
  aaListFlows :: "'w \<Rightarrow> string \<Rightarrow> api_error + ArkFlow list"
  aaListAgents :: "'w \<Rightarrow> string \<Rightarrow> api_error + ArkAgent list"
  aaSetControllerReference :: "ArkAgent \<Rightarrow> DeploymentObj \<Rightarrow> gotext + DeploymentObj"
  aaCreate :: "DeploymentObj \<Rightarrow> 'w \<Rightarrow> api_error option \<times> 'w"
  aaPatch :: "DeploymentObj \<Rightarrow> DeploymentObj \<Rightarrow> 'w \<Rightarrow> api_error option \<times> 'w"
  aaUpdateStatus :: "ArkAgent \<Rightarrow> 'w \<Rightarrow> api_error option \<times> 'w"
  aaNow :: "'w \<Rightarrow> time \<times> 'w"
  aaSha256Hex :: "string \<Rightarrow> string"
  aaMarshalServers :: "MCPServerSpec list \<Rightarrow> string"
  aaMarshalTools :: "WebhookToolSpec list \<Rightarrow> string"

definition agentAPIKeysSecret :: string where "agentAPIKeysSecret = ''arkonis-api-keys''"

definition agent_setCondition ::
  "ext \<Rightarrow> ArkAgent \<Rightarrow> string \<Rightarrow> ConditionStatus \<Rightarrow> string \<Rightarrow> gotext \<Rightarrow> ArkAgent" where
  "agent_setCondition E a condType status reason message =
     a\<lparr>agStatus := (agStatus a)\<lparr>aConditions := xSetStatusCondition E (aConditions (agStatus a))
         \<lparr>cType = condType, cStatus = status, cObservedGeneration = mGeneration (agMeta a),
          cReason = reason, cMessage = message, cLastTransitionTime = zero_time\<rparr>\<rparr>\<rparr>"

section \<open>The environment\<close>

definition nl2 :: string where "nl2 = [CHR 0x0A, CHR 0x0A]"

definition mergeSystemPrompt :: "string \<Rightarrow> ArkSettings option \<Rightarrow> string" where
  "mergeSystemPrompt base settings =
     (case settings of
        None \<Rightarrow> base
      | Some s \<Rightarrow>
          (let pf = ssPromptFragments (seSpec s);
               base = (if pfPersona pf \<noteq> [] then pfPersona pf @ nl2 @ base else base);
               base = (if pfOutputRules pf \<noteq> [] then base @ nl2 @ pfOutputRules pf else base)
           in base))"

fun backend_string :: "MemoryBackend \<Rightarrow> string" where
  "backend_string MemoryBackendEmpty = ''''"
| "backend_string MemoryBackendInContext = ''in-context''"
| "backend_string MemoryBackendVectorStore = ''vector-store''"
| "backend_string MemoryBackendRedis = ''redis''"

fun provider_string :: "VectorStoreProvider \<Rightarrow> string" where
  "provider_string Qdrant = ''qdrant''"
| "provider_string Pinecone = ''pinecone''"
| "provider_string Weaviate = ''weaviate''"

definition env_value :: "string \<Rightarrow> string \<Rightarrow> EnvVar" where
  "env_value n v = \<lparr>evName = n, evSource = EnvValue v\<rparr>"

definition buildSettingsEnvVars :: "ArkSettings option \<Rightarrow> EnvVar list" where
  "buildSettingsEnvVars settings =
     (case settings of
        None \<Rightarrow> []
      | Some s \<Rightarrow>
          (let sp = seSpec s in
           (if ssTemperature sp \<noteq> [] then [env_value ''AGENT_TEMPERATURE'' (ssTemperature sp)] else []) @
           (if ssOutputFormat sp \<noteq> [] then [env_value ''AGENT_OUTPUT_FORMAT'' (ssOutputFormat sp)] else []) @
           (if ssMemoryBackend sp \<noteq> MemoryBackendEmpty
            then [env_value ''AGENT_MEMORY_BACKEND'' (backend_string (ssMemoryBackend sp))] else [])))"

definition buildRedisMemoryEnvVars :: "RedisMemoryConfig option \<Rightarrow> EnvVar list" where
  "buildRedisMemoryEnvVars mem =
     (case mem of
        None \<Rightarrow> []
      | Some m \<Rightarrow>
          [\<lparr>evName = ''AGENT_MEMORY_REDIS_URL'', evSource = EnvSecretKey (lorName (rmcSecretRef m)) ''REDIS_URL''\<rparr>] @
          (if 0 < sint (rmcTTLSeconds m)
           then [env_value ''AGENT_MEMORY_REDIS_TTL'' (Itoa (sint (rmcTTLSeconds m)))] else []) @
          (if 0 < sint (rmcMaxEntries m)
           then [env_value ''AGENT_MEMORY_REDIS_MAX_ENTRIES'' (Itoa (sint (rmcMaxEntries m)))] else []))"

definition buildVectorStoreMemoryEnvVars :: "VectorStoreMemoryConfig option \<Rightarrow> EnvVar list" where
  "buildVectorStoreMemoryEnvVars vs =
     (case vs of
        None \<Rightarrow> []
      | Some v \<Rightarrow>
          [env_value ''AGENT_MEMORY_VECTOR_STORE_PROVIDER'' (provider_string (vmcProvider v)),
           env_value ''AGENT_MEMORY_VECTOR_STORE_ENDPOINT'' (vmcEndpoint v),
           env_value ''AGENT_MEMORY_VECTOR_STORE_COLLECTION'' (vmcCollection v)] @
          (case vmcSecretRef v of
             None \<Rightarrow> []
           | Some ref \<Rightarrow> [\<lparr>evName = ''AGENT_MEMORY_VECTOR_STORE_API_KEY'',
                            evSource = EnvSecretKey (lorName ref) ''VECTOR_STORE_API_KEY''\<rparr>]) @
          (if 0 < sint (vmcTTLSeconds v)
           then [env_value ''AGENT_MEMORY_VECTOR_STORE_TTL'' (Itoa (sint (vmcTTLSeconds v)))] else []))"

definition buildMemoryEnvVars :: "ArkMemory option \<Rightarrow> EnvVar list" where
  "buildMemoryEnvVars arkMemory =
     (case arkMemory of
        None \<Rightarrow> []
      | Some m \<Rightarrow>
          env_value ''AGENT_MEMORY_BACKEND'' (backend_string (msBackend (meSpec m))) #
          (case msBackend (meSpec m) of
             MemoryBackendRedis \<Rightarrow> buildRedisMemoryEnvVars (msRedis (meSpec m))
           | MemoryBackendVectorStore \<Rightarrow> buildVectorStoreMemoryEnvVars (msVectorStore (meSpec m))
           | _ \<Rightarrow> []))"

definition limit_or :: "i64 \<Rightarrow> (ArkonisLimits \<Rightarrow> i64) \<Rightarrow> ArkAgent \<Rightarrow> i64" where
  "limit_or dflt field a =
     (case asLimits (agSpec a) of
        None \<Rightarrow> dflt
      | Some l \<Rightarrow> if 0 < sint (field l) then field l else dflt)"

definition validatorEnvVars :: "ArkAgent \<Rightarrow> EnvVar list" where
  "validatorEnvVars a =
     (case asLivenessProbe (agSpec a) of
        None \<Rightarrow> []
      | Some p \<Rightarrow>
          if prType p = ProbeTypeSemantic \<and> prValidatorPrompt p \<noteq> []
          then [env_value ''AGENT_VALIDATOR_PROMPT'' (prValidatorPrompt p)] else [])"

definition buildEnvVars ::
  "'w agent_api \<Rightarrow> ArkAgent \<Rightarrow> ArkSettings option \<Rightarrow> ArkMemory option \<Rightarrow> string \<Rightarrow> EnvVar list" where
  "buildEnvVars A a arkSettings arkMemory resolvedPrompt =
     [env_value ''AGENT_MODEL'' (asModel (agSpec a)),
      env_value ''AGENT_SYSTEM_PROMPT'' (mergeSystemPrompt resolvedPrompt arkSettings),
      env_value ''AGENT_MCP_SERVERS'' (aaMarshalServers A (asMCPServers (agSpec a))),
      env_value ''AGENT_MAX_TOKENS'' (Itoa (sint (limit_or 8000 limMaxTokensPerCall a))),
      env_value ''AGENT_TIMEOUT_SECONDS'' (Itoa (sint (limit_or 120 limTimeoutSeconds a))),
      \<lparr>evName = ''POD_NAME'', evSource = EnvFieldPath ''metadata.name''\<rparr>] @
     validatorEnvVars a @ buildSettingsEnvVars arkSettings @ buildMemoryEnvVars arkMemory @
     (if 0 < length (asTools (agSpec a))
      then [env_value ''AGENT_WEBHOOK_TOOLS'' (aaMarshalTools A (asTools (agSpec a)))] else [])"

section \<open>The Deployment\<close>

definition agent_labels :: "ArkAgent \<Rightarrow> (string \<rightharpoonup> string)" where
  "agent_labels a =
     [''app.kubernetes.io/name'' \<mapsto> ''agent'', ''app.kubernetes.io/instance'' \<mapsto> mName (agMeta a),
      ''app.kubernetes.io/managed-by'' \<mapsto> ''ark-operator'', ''arkonis.dev/deployment'' \<mapsto> mName (agMeta a)]"

definition desired_replicas :: "ext \<Rightarrow> ArkAgent \<Rightarrow> i32" where
  "desired_replicas E a =
     (let replicas = (case asReplicas (agSpec a) of None \<Rightarrow> 1 | Some n \<Rightarrow> n) in
      if xIsStatusConditionTrue E (aConditions (agStatus a)) ''BudgetExceeded'' then 0 else replicas)"

definition buildDeployment ::
  "ext \<Rightarrow> 'w agent_api \<Rightarrow> string \<Rightarrow> ArkAgent \<Rightarrow> ArkSettings option \<Rightarrow> ArkMemory option \<Rightarrow> string \<Rightarrow> DeploymentObj" where
  "buildDeployment E A agentImage a arkSettings arkMemory resolvedPrompt =
     \<lparr>dpName = mName (agMeta a) @ ''-agent'', dpNamespace = mNamespace (agMeta a), dpLabels = agent_labels a,
      dpOwner = None, dpReplicas = Some (desired_replicas E a), dpSelector = agent_labels a,
      dpTemplateLabels = agent_labels a,
      dpTemplateAnnotations = [''arkonis.dev/system-prompt-hash'' \<mapsto> aaSha256Hex A resolvedPrompt],
      dpContainers =
        [\<lparr>coName = ''agent'', coImage = agentImage, coImagePullPolicy = ''IfNotPresent'',
          coPorts = [(''health'', 8080, ''TCP'')],
          coEnv = buildEnvVars A a arkSettings arkMemory resolvedPrompt,
          coEnvFrom = [(agentAPIKeysSecret, True)],
          coLivenessProbe = \<lparr>pbPath = ''/healthz'', pbPort = 8080, pbInitialDelay = 10, pbPeriod = 30, pbTimeout = 0\<rparr>,
          coReadinessProbe = \<lparr>pbPath = ''/readyz'', pbPort = 8080, pbInitialDelay = 10, pbPeriod = 30, pbTimeout = 20\<rparr>\<rparr>],
      dpStatusReplicas = 0, dpStatusReadyReplicas = 0\<rparr>"

definition reconcileDeployment ::
  "ext \<Rightarrow> 'w agent_api \<Rightarrow> string \<Rightarrow> ArkAgent \<Rightarrow> ArkSettings option \<Rightarrow> ArkMemory option \<Rightarrow> string \<Rightarrow> 'w
     \<Rightarrow> gotext option \<times> 'w" where
  "reconcileDeployment E A agentImage a arkSettings arkMemory resolvedPrompt w =
     (case aaSetControllerReference A a (buildDeployment E A agentImage a arkSettings arkMemory resolvedPrompt) of
        Inl err \<Rightarrow> (Some err, w)
      | Inr desired \<Rightarrow>
          (case aaGetDeployment A w \<lparr>nnName = dpName desired, nnNamespace = dpNamespace desired\<rparr> of
             Inl err \<Rightarrow>
               if IsNotFound err
               then (let (e, w) = aaCreate A desired w in (map_option api_text e, w))
               else (Some (api_text err), w)
           | Inr existing \<Rightarrow>
               (let (e, w) = aaPatch A existing
                      (existing\<lparr>dpReplicas := dpReplicas desired,
                                dpTemplateAnnotations := dpTemplateAnnotations desired,
                                dpContainers := dpContainers desired\<rparr>) w
                in (map_option api_text e, w))))"

definition syncStatus :: "ext \<Rightarrow> 'w agent_api \<Rightarrow> ArkAgent \<Rightarrow> 'w \<Rightarrow> gotext option \<times> ArkAgent \<times> 'w" where
  "syncStatus E A a w =
     (case aaGetDeployment A w \<lparr>nnName = mName (agMeta a) @ ''-agent'', nnNamespace = mNamespace (agMeta a)\<rparr> of
        Inl err \<Rightarrow> (if IsNotFound err then None else Some (api_text err), a, w)
      | Inr dep \<Rightarrow>
          (let a = a\<lparr>agStatus := (agStatus a)\<lparr>aReplicas := dpStatusReplicas dep,
                       aReadyReplicas := dpStatusReadyReplicas dep, aObservedGeneration := mGeneration (agMeta a)\<rparr>\<rparr>;
               ready = dpStatusReadyReplicas dep = dpStatusReplicas dep \<and> 0 < sint (dpStatusReplicas dep);
               a = agent_setCondition E a ConditionReady (if ready then ConditionTrue else ConditionFalse)
                     (if ready then ''AllReplicasReady'' else ''Progressing'')
                     (TFmt ''%d/%d replicas ready'' [GInt (sint (dpStatusReadyReplicas dep)), GInt (sint (dpStatusReplicas dep))]);
               (e, w) = aaUpdateStatus A a w
           in (map_option api_text e, a, w)))"

end
