(* ===== verification/AgentReconcile.thy ===== *)
theory AgentReconcile
  imports AgentController
begin

text \<open>
  \<^verbatim>\<open>internal/controller/arkagent_controller.go\<close>, the rest: the daily budget, the system prompt, the
  watches and \<open>Reconcile\<close>.
\<close>

section \<open>The daily budget\<close>

record budget_sum =
  bsUsage :: TokenUsage
  bsEarliest :: "time option"

definition stepAgent :: "ArkFlowStep list \<Rightarrow> (string \<rightharpoonup> string)" where
  "stepAgent steps = fold (\<lambda>s m. m(sName s \<mapsto> sArkAgent s)) steps Map.empty"

definition step_agent_name :: "(string \<rightharpoonup> string) \<Rightarrow> string \<Rightarrow> string" where
  "step_agent_name m n = (case m n of None \<Rightarrow> [] | Some a \<Rightarrow> a)"

definition budget_step ::
  "string \<Rightarrow> time \<Rightarrow> (string \<rightharpoonup> string) \<Rightarrow> ArkFlowStepStatus \<Rightarrow> budget_sum \<Rightarrow> budget_sum" where
  "budget_step agent windowStart m st acc =
     (if step_agent_name m (stName st) \<noteq> agent then acc
      else case (stTokenUsage st, stCompletionTime st) of
        (Some u, Some t) \<Rightarrow>
          if time_Before t windowStart then acc
          else let total = bsUsage acc in
            \<lparr>bsUsage = \<lparr>tuInputTokens = tuInputTokens total + tuInputTokens u,
                        tuOutputTokens = tuOutputTokens total + tuOutputTokens u,
                        tuTotalTokens = tuTotalTokens total + tuTotalTokens u\<rparr>,
             bsEarliest = (case bsEarliest acc of
                             None \<Rightarrow> Some t
                           | Some e \<Rightarrow> if time_Before t e then Some t else Some e)\<rparr>
      | _ \<Rightarrow> acc)"

definition budget_flow :: "string \<Rightarrow> time \<Rightarrow> ArkFlow \<Rightarrow> budget_sum \<Rightarrow> budget_sum" where
  "budget_flow agent windowStart flow acc =
     fold (budget_step agent windowStart (stepAgent (fsSteps (flSpec flow)))) (fSteps (flStatus flow)) acc"

definition no_tokens :: TokenUsage where
  "no_tokens = \<lparr>tuInputTokens = 0, tuOutputTokens = 0, tuTotalTokens = 0\<rparr>"

definition daily_sum :: "string \<Rightarrow> time \<Rightarrow> ArkFlow list \<Rightarrow> budget_sum" where
  "daily_sum agent windowStart flows =
     fold (budget_flow agent windowStart) flows \<lparr>bsUsage = no_tokens, bsEarliest = None\<rparr>"

definition daily_limit :: "ArkAgent \<Rightarrow> i64" where
  "daily_limit a = (case asLimits (agSpec a) of None \<Rightarrow> 0 | Some l \<Rightarrow> limMaxDailyTokens l)"

definition remove_budget_condition :: "ext \<Rightarrow> ArkAgent \<Rightarrow> ArkAgent" where
  "remove_budget_condition E a =
     a\<lparr>agStatus := (agStatus a)\<lparr>aConditions := xRemoveStatusCondition E (aConditions (agStatus a)) ''BudgetExceeded''\<rparr>\<rparr>"

definition set_daily_usage :: "TokenUsage option \<Rightarrow> ArkAgent \<Rightarrow> ArkAgent" where
  "set_daily_usage u a = a\<lparr>agStatus := (agStatus a)\<lparr>aDailyTokenUsage := u\<rparr>\<rparr>"

definition reconcileDailyBudget ::
  "ext \<Rightarrow> 'w agent_api \<Rightarrow> ArkAgent \<Rightarrow> 'w \<Rightarrow> (gotext + duration \<times> ArkAgent) \<times> 'w" where
  "reconcileDailyBudget E A a w =
     (let limit = daily_limit a in
      if sint limit \<le> 0 then (Inr (0, set_daily_usage None (remove_budget_condition E a)), w)
      else
        let (now, w) = aaNow A w;
            windowStart = time_Add now (- (24 * Hour))
        in case aaListFlows A w (mNamespace (agMeta a)) of
             Inl err \<Rightarrow> (Inl (TFmt ''listing flows for budget: %w'' [GText (api_text err)]), w)
           | Inr flows \<Rightarrow>
               (let acc = daily_sum (mName (agMeta a)) windowStart flows;
                    usage = bsUsage acc;
                    a = set_daily_usage (Some usage) a
                in if sint limit \<le> sint (tuTotalTokens usage)
                   then (let a = agent_setCondition E a ''BudgetExceeded'' ConditionTrue ''DailyLimitReached''
                               (TFmt ''daily token usage %d exceeds limit %d; replicas scaled to 0''
                                  [GInt (sint (tuTotalTokens usage)), GInt (sint limit)])
                         in (Inr (case bsEarliest acc of
                                    Some e \<Rightarrow> time_Sub (time_Add e (24 * Hour)) now + Minute
                                  | None \<Rightarrow> Hour, a), w))
                   else (Inr (0, remove_budget_condition E a), w)))"

section \<open>The system prompt\<close>

definition prompt_from_map ::
  "string \<Rightarrow> KeySelector \<Rightarrow> api_error + (string \<rightharpoonup> string) \<Rightarrow> gotext + string" where
  "prompt_from_map kind ref r =
     (case r of
        Inl err \<Rightarrow> Inl (TFmt (''reading '' @ kind @ '' %q for systemPromptRef: %w'') [GStr (ksName ref), GText (api_text err)])
      | Inr d \<Rightarrow>
          (case d (ksKey ref) of
             None \<Rightarrow> Inl (TFmt (''key %q not found in '' @ kind @ '' %q'') [GStr (ksKey ref), GStr (ksName ref)])
           | Some val \<Rightarrow> Inr val))"

definition resolveSystemPrompt :: "'w agent_api \<Rightarrow> ArkAgent \<Rightarrow> 'w \<Rightarrow> gotext + string" where
  "resolveSystemPrompt A a w =
     (case asSystemPromptRef (agSpec a) of
        None \<Rightarrow> Inr (asSystemPrompt (agSpec a))
      | Some ref \<Rightarrow>
          (case spConfigMapKeyRef ref of
             Some c \<Rightarrow> prompt_from_map ''ConfigMap'' c
               (aaGetConfigMap A w \<lparr>nnName = ksName c, nnNamespace = mNamespace (agMeta a)\<rparr>)
           | None \<Rightarrow>
               (case spSecretKeyRef ref of
                  Some k \<Rightarrow> prompt_from_map ''Secret'' k
                    (aaGetSecret A w \<lparr>nnName = ksName k, nnNamespace = mNamespace (agMeta a)\<rparr>)
                | None \<Rightarrow> Inr (asSystemPrompt (agSpec a)))))"

section \<open>Watches\<close>

definition agent_request :: "ArkAgent \<Rightarrow> NamespacedName" where
  "agent_request a = \<lparr>nnName = mName (agMeta a), nnNamespace = mNamespace (agMeta a)\<rparr>"

fun flow_agents :: "string \<Rightarrow> string set \<Rightarrow> ArkFlowStep list \<Rightarrow> NamespacedName list" where
  "flow_agents ns seen [] = []"
| "flow_agents ns seen (step # steps) =
     (if sArkAgent step = [] then flow_agents ns seen steps
      else if sArkAgent step \<in> seen then flow_agents ns seen steps
      else \<lparr>nnName = sArkAgent step, nnNamespace = ns\<rparr> # flow_agents ns (insert (sArkAgent step) seen) steps)"

definition flowToAgents :: "ArkFlow \<Rightarrow> NamespacedName list" where
  "flowToAgents flow = flow_agents (mNamespace (flMeta flow)) {} (fsSteps (flSpec flow))"

definition refs_config_map :: "string \<Rightarrow> ArkAgent \<Rightarrow> bool" where
  "refs_config_map n a = (case asSystemPromptRef (agSpec a) of None \<Rightarrow> False
     | Some ref \<Rightarrow> (case spConfigMapKeyRef ref of None \<Rightarrow> False | Some c \<Rightarrow> ksName c = n))"

definition refs_secret :: "string \<Rightarrow> ArkAgent \<Rightarrow> bool" where
  "refs_secret n a = (case asSystemPromptRef (agSpec a) of None \<Rightarrow> False
     | Some ref \<Rightarrow> (case spSecretKeyRef ref of None \<Rightarrow> False | Some c \<Rightarrow> ksName c = n))"

definition configMapToAgents :: "'w agent_api \<Rightarrow> NamespacedName \<Rightarrow> 'w \<Rightarrow> NamespacedName list" where
  "configMapToAgents A cm w =
     (case aaListAgents A w (nnNamespace cm) of
        Inl _ \<Rightarrow> []
      | Inr agents \<Rightarrow> map agent_request (filter (refs_config_map (nnName cm)) agents))"

definition secretToAgents :: "'w agent_api \<Rightarrow> NamespacedName \<Rightarrow> 'w \<Rightarrow> NamespacedName list" where
  "secretToAgents A sec w =
     (case aaListAgents A w (nnNamespace sec) of
        Inl _ \<Rightarrow> []
      | Inr agents \<Rightarrow> map agent_request (filter (refs_secret (nnName sec)) agents))"

section \<open>Reconcile\<close>

text \<open>An optional reference: a missing object is no error.\<close>

definition load_optional ::
  "string \<Rightarrow> ('w \<Rightarrow> NamespacedName \<Rightarrow> api_error + 'o) \<Rightarrow> LocalObjectReference option \<Rightarrow> string \<Rightarrow> 'w \<Rightarrow> gotext + 'o option" where
  "load_optional fmt get ref ns w =
     (case ref of
        None \<Rightarrow> Inr None
      | Some r \<Rightarrow>
          (case get w \<lparr>nnName = lorName r, nnNamespace = ns\<rparr> of
             Inl err \<Rightarrow>
               if \<not> IsNotFound err then Inl (TFmt fmt [GStr (lorName r), GText (api_text err)]) else Inr None
           | Inr x \<Rightarrow> Inr (Some x)))"

definition fail_with ::
  "ext \<Rightarrow> 'w agent_api \<Rightarrow> ArkAgent \<Rightarrow> string \<Rightarrow> gotext \<Rightarrow> 'w \<Rightarrow> (gotext + ctrl_result) \<times> 'w" where
  "fail_with E A a reason err w =
     (let (_, w) = aaUpdateStatus A (agent_setCondition E a ConditionReady ConditionFalse reason err) w in (Inl err, w))"

definition agent_Reconcile ::
  "ext \<Rightarrow> 'w agent_api \<Rightarrow> string \<Rightarrow> NamespacedName \<Rightarrow> 'w \<Rightarrow> (gotext + ctrl_result) \<times> 'w" where
  "agent_Reconcile E A agentImage req w =
     (case aaGetAgent A w req of
        Inl err \<Rightarrow> (if IsNotFound err then Inr no_requeue else Inl (api_text err), w)
      | Inr a \<Rightarrow>
          if mDeletionTimestamp (agMeta a) \<noteq> None then (Inr no_requeue, w)
          else case load_optional ''fetching ArkSettings %q: %w'' (aaGetSettings A) (asConfigRef (agSpec a)) (mNamespace (agMeta a)) w of
            Inl err \<Rightarrow> (Inl err, w)
          | Inr arkSettings \<Rightarrow>
          (case load_optional ''fetching ArkMemory %q: %w'' (aaGetMemory A) (asMemoryRef (agSpec a)) (mNamespace (agMeta a)) w of
            Inl err \<Rightarrow> (Inl err, w)
          | Inr arkMemory \<Rightarrow>
          (case resolveSystemPrompt A a w of
            Inl err \<Rightarrow> fail_with E A a ''PromptResolutionError'' err w
          | Inr resolvedPrompt \<Rightarrow>
          (case reconcileDailyBudget E A a w of
            (Inl err, w) \<Rightarrow> (Inl err, w)
          | (Inr (requeueAfter, a), w) \<Rightarrow>
          (case reconcileDeployment E A agentImage a arkSettings arkMemory resolvedPrompt w of
            (Some err, w) \<Rightarrow> fail_with E A a ''ReconcileError'' err w
          | (None, w) \<Rightarrow>
          (case syncStatus E A a w of
            (Some err, _, w) \<Rightarrow> (Inl err, w)
          | (None, _, w) \<Rightarrow> (Inr \<lparr>RequeueAfter = requeueAfter\<rparr>, w)))))))"

section \<open>What the budget counts\<close>

definition counted :: "string \<Rightarrow> time \<Rightarrow> ArkFlow \<Rightarrow> ArkFlowStepStatus \<Rightarrow> bool" where
  "counted agent windowStart flow st \<longleftrightarrow>
     step_agent_name (stepAgent (fsSteps (flSpec flow))) (stName st) = agent \<and> stTokenUsage st \<noteq> None \<and>
     (case stCompletionTime st of None \<Rightarrow> False | Some t \<Rightarrow> windowStart \<le> t)"

definition counted_entries :: "string \<Rightarrow> time \<Rightarrow> ArkFlow list \<Rightarrow> ArkFlowStepStatus list" where
  "counted_entries agent windowStart flows =
     concat (map (\<lambda>f. filter (counted agent windowStart f) (fSteps (flStatus f))) flows)"

definition st_total :: "ArkFlowStepStatus \<Rightarrow> i64" where
  "st_total st = (case stTokenUsage st of None \<Rightarrow> 0 | Some u \<Rightarrow> tuTotalTokens u)"

definition st_done_at :: "ArkFlowStepStatus \<Rightarrow> time" where
  "st_done_at st = (case stCompletionTime st of None \<Rightarrow> 0 | Some t \<Rightarrow> t)"

definition add_entry :: "ArkFlowStepStatus \<Rightarrow> budget_sum \<Rightarrow> budget_sum" where
  "add_entry st acc =
     \<lparr>bsUsage = \<lparr>tuInputTokens = tuInputTokens (bsUsage acc) + st_in st,
                 tuOutputTokens = tuOutputTokens (bsUsage acc) + st_out st,
                 tuTotalTokens = tuTotalTokens (bsUsage acc) + st_total st\<rparr>,
      bsEarliest = (case bsEarliest acc of None \<Rightarrow> Some (st_done_at st) | Some e \<Rightarrow> Some (min (st_done_at st) e))\<rparr>"

lemma budget_step_counted:
  "budget_step agent ws (stepAgent (fsSteps (flSpec f))) st acc = (if counted agent ws f st then add_entry st acc else acc)"
  by (auto simp: budget_step_def counted_def add_entry_def st_in_def st_out_def st_total_def st_done_at_def
      time_Before_def Let_def min_def split: option.splits)

lemma fold_filter: "fold (\<lambda>x. if P x then g x else (\<lambda>a. a)) xs acc = fold g (filter P xs) acc"
  by (induction xs arbitrary: acc) auto

lemma budget_flow_counted:
  "budget_flow agent ws f acc = fold add_entry (filter (counted agent ws f) (fSteps (flStatus f))) acc"
proof -
  have "budget_step agent ws (stepAgent (fsSteps (flSpec f))) =
      (\<lambda>st. if counted agent ws f st then add_entry st else (\<lambda>a. a))"
    by (auto simp: budget_step_counted fun_eq_iff)
  then show ?thesis by (simp add: budget_flow_def fold_filter)
qed

lemma daily_sum_counted:
  "daily_sum agent ws flows = fold add_entry (counted_entries agent ws flows) \<lparr>bsUsage = no_tokens, bsEarliest = None\<rparr>"
proof -
  have "fold (budget_flow agent ws) flows acc = fold add_entry (counted_entries agent ws flows) acc" for acc
    by (induction flows arbitrary: acc) (auto simp: counted_entries_def budget_flow_counted)
  then show ?thesis by (simp add: daily_sum_def)
qed

lemma add_entry_earliest:
  "bsEarliest (add_entry st acc) =
     Some (case bsEarliest acc of None \<Rightarrow> st_done_at st | Some e \<Rightarrow> min (st_done_at st) e)"
  by (simp add: add_entry_def split: option.split)

lemma earliest_le:
  "bsEarliest (fold add_entry sts acc) = Some e \<Longrightarrow> bsEarliest acc = Some e0 \<Longrightarrow> e \<le> e0"
proof (induction sts arbitrary: acc e0)
  case Nil
  then show ?case by simp
next
  case (Cons st sts)
  from Cons.prems have "e \<le> min (st_done_at st) e0"
    by (intro Cons.IH [of "add_entry st acc"]) (simp_all add: add_entry_earliest)
  then show ?case by simp
qed

lemma fold_add_entry:
  "tuTotalTokens (bsUsage (fold add_entry sts acc)) = tuTotalTokens (bsUsage acc) + sum_list (map st_total sts) \<and>
   (bsEarliest (fold add_entry sts acc) = None \<longleftrightarrow> bsEarliest acc = None \<and> sts = []) \<and>
   (\<forall>e. bsEarliest (fold add_entry sts acc) = Some e \<longrightarrow>
      (e \<in> st_done_at ` set sts \<or> bsEarliest acc = Some e) \<and> (\<forall>st \<in> set sts. e \<le> st_done_at st))"
proof (induction sts arbitrary: acc)
  case Nil
  show ?case by simp
next
  case (Cons st sts)
  have total: "tuTotalTokens (bsUsage (add_entry st acc)) = tuTotalTokens (bsUsage acc) + st_total st"
    by (simp add: add_entry_def)
  have le: "e \<le> st_done_at st" if "bsEarliest (fold add_entry sts (add_entry st acc)) = Some e" for e
    using earliest_le [OF that add_entry_earliest] by (auto split: option.splits)
  from Cons.IH [of "add_entry st acc"] total le show ?case
    by (auto simp: add_entry_earliest min_def split: option.splits if_splits)
qed

section \<open>What the budget decides\<close>

definition over_daily_limit :: "ArkAgent \<Rightarrow> time \<Rightarrow> ArkFlow list \<Rightarrow> bool" where
  "over_daily_limit a now flows \<longleftrightarrow> 0 < sint (daily_limit a) \<and>
     sint (daily_limit a) \<le> sint (sum_list (map st_total
       (counted_entries (mName (agMeta a)) (now - 86400000000000) flows)))"

lemma day: "sint (24 * Hour) = 86400000000000"
  by (simp add: Hour_def Minute_def Second_def)

lemma window_start: "time_Add now (- (24 * Hour)) = now - 86400000000000"
  by (simp add: time_Add_def Hour_def Minute_def Second_def sint_word_ariths)

lemma daily_sum_total:
  "tuTotalTokens (bsUsage (daily_sum agent ws flows)) = sum_list (map st_total (counted_entries agent ws flows))"
  using fold_add_entry [of "counted_entries agent ws flows" "\<lparr>bsUsage = no_tokens, bsEarliest = None\<rparr>"]
  by (simp add: daily_sum_counted no_tokens_def)

lemma agent_frames [simp]:
  "agSpec (agent_setCondition E a t s r m) = agSpec a" "agMeta (agent_setCondition E a t s r m) = agMeta a"
  "agSpec (remove_budget_condition E a) = agSpec a" "agMeta (remove_budget_condition E a) = agMeta a"
  "agSpec (set_daily_usage u a) = agSpec a" "agMeta (set_daily_usage u a) = agMeta a"
  by (simp_all add: agent_setCondition_def remove_budget_condition_def set_daily_usage_def)

lemma removed_replicas:
  "condition_laws E \<Longrightarrow> desired_replicas E (remove_budget_condition E a) = (case asReplicas (agSpec a) of None \<Rightarrow> 1 | Some n \<Rightarrow> n)"
  by (simp add: desired_replicas_def remove_budget_condition_def condition_laws_def)

lemma set_replicas:
  assumes "condition_laws E"
  shows "desired_replicas E (agent_setCondition E a ''BudgetExceeded'' ConditionTrue r m) = 0"
proof -
  have "\<forall>cs c. cStatus c = ConditionTrue \<longrightarrow> xIsStatusConditionTrue E (xSetStatusCondition E cs c) (cType c)"
    using assms by (simp add: condition_laws_def)
  from this [rule_format, of "\<lparr>cType = ''BudgetExceeded'', cStatus = ConditionTrue, cObservedGeneration = mGeneration (agMeta a),
      cReason = r, cMessage = m, cLastTransitionTime = zero_time\<rparr>" "aConditions (agStatus a)"]
  show ?thesis by (simp add: desired_replicas_def agent_setCondition_def)
qed

lemma replicas_usage [simp]: "desired_replicas E (set_daily_usage u a) = desired_replicas E a"
  by (simp add: desired_replicas_def set_daily_usage_def)

lemma usage_commutes:
  "remove_budget_condition E (set_daily_usage u a) = set_daily_usage u (remove_budget_condition E a)"
  by (simp add: remove_budget_condition_def set_daily_usage_def)

lemma budget_replicas:
  assumes "condition_laws E" and "reconcileDailyBudget E A a w = (Inr (d, a'), w')"
    and "aaNow A w = (now, w1)" and "aaListFlows A w1 (mNamespace (agMeta a)) = Inr flows"
  shows "agSpec a' = agSpec a \<and> agMeta a' = agMeta a \<and>
     desired_replicas E a' =
       (if over_daily_limit a now flows then 0 else (case asReplicas (agSpec a) of None \<Rightarrow> 1 | Some n \<Rightarrow> n))"
proof (cases "sint (daily_limit a) \<le> 0")
  case True
  with assms(1,2) show ?thesis
    by (auto simp: reconcileDailyBudget_def Let_def over_daily_limit_def removed_replicas)
next
  case False
  with assms show ?thesis
    by (auto simp: reconcileDailyBudget_def Let_def over_daily_limit_def window_start daily_sum_total
        removed_replicas set_replicas split: if_splits)
qed

text \<open>An agent over its limit is looked at again when the oldest entry leaves the window.\<close>

lemma time_Sub_exact:
  "- (2 ^ 63) \<le> t - u \<Longrightarrow> t - u < 2 ^ 63 \<Longrightarrow> sint (time_Sub t u) = t - u"
  by (simp add: time_Sub_def min_def max_def sint_word_of_int_i64)

lemma minute: "sint Minute = 60000000000"
  by (simp add: Minute_def Second_def)

lemma budget_requeue:
  assumes "reconcileDailyBudget E A a w = (Inr (d, a'), w')" and "aaNow A w = (now, w1)"
    and "aaListFlows A w1 (mNamespace (agMeta a)) = Inr flows" and "over_daily_limit a now flows"
    and past: "\<forall>f \<in> set flows. \<forall>st \<in> set (fSteps (flStatus f)). \<forall>t. stCompletionTime st = Some t \<longrightarrow> t \<le> now"
  shows "\<exists>st \<in> set (counted_entries (mName (agMeta a)) (now - 86400000000000) flows).
     sint d = st_done_at st + 86400000000000 - now + 60000000000 \<and>
     60000000000 \<le> sint d \<and> sint d \<le> 86460000000000"
proof -
  let ?ws = "now - 86400000000000" and ?agent = "mName (agMeta a)"
  let ?es = "counted_entries ?agent ?ws flows"
  let ?acc = "daily_sum ?agent ?ws flows"
  note earliest = fold_add_entry [of ?es "\<lparr>bsUsage = no_tokens, bsEarliest = None\<rparr>", folded daily_sum_counted]
  from assms(4) have "sum_list (map st_total ?es) \<noteq> 0" by (auto simp: over_daily_limit_def)
  then have "?es \<noteq> []" by auto
  with earliest obtain e where e: "bsEarliest ?acc = Some e" by fastforce
  with earliest obtain st where st: "st \<in> set ?es" "e = st_done_at st" by auto
  then obtain f where f: "f \<in> set flows" "st \<in> set (fSteps (flStatus f))" and c: "counted ?agent ?ws f st"
    by (auto simp: counted_entries_def)
  from c obtain t where t: "stCompletionTime st = Some t" "?ws \<le> t" by (auto simp: counted_def split: option.splits)
  with past f have "t \<le> now" by blast
  have et: "e = t" using st t by (simp add: st_done_at_def)
  have d: "d = time_Sub (time_Add e (24 * Hour)) now + Minute"
    using assms(1-4) e by (auto simp: reconcileDailyBudget_def Let_def over_daily_limit_def window_start daily_sum_total split: if_splits)
  have "sint (time_Sub (time_Add e (24 * Hour)) now) = e + 86400000000000 - now"
    using et t \<open>t \<le> now\<close> by (simp add: time_Add_def day time_Sub_exact)
  with et t \<open>t \<le> now\<close> have "sint d = e + 86400000000000 - now + 60000000000"
    unfolding d by (subst sint_add_i64) (simp_all add: minute)
  with st et t \<open>t \<le> now\<close> show ?thesis by (intro bexI [of _ st]) auto
qed

end
