(* ===== verification/AgentEnvVars.thy ===== *)
theory AgentEnvVars
  imports AgentReconcile
begin

text \<open>
  The environment of an agent pod, from the operator that writes it to the runtime that reads it:
  \<open>buildEnvVars\<close> against \<open>config.Load\<close>.
\<close>

section \<open>The last entry of a name\<close>

definition last_env :: "EnvVar list \<Rightarrow> string \<Rightarrow> env_source option" where
  "last_env envs k = map_of (rev (map (\<lambda>e. (evName e, evSource e)) envs)) k"

lemma last_env_Nil [simp]: "last_env [] k = None"
  by (simp add: last_env_def)

lemma last_env_append [simp]:
  "last_env (xs @ ys) k = (case last_env ys k of None \<Rightarrow> last_env xs k | Some v \<Rightarrow> Some v)"
  by (simp add: last_env_def map_add_def split: option.split)

lemma last_env_Cons [simp]:
  "last_env (e # es) k = (case last_env es k of None \<Rightarrow> if evName e = k then Some (evSource e) else None | Some v \<Rightarrow> Some v)"
  by (simp add: last_env_def map_add_def split: option.split)

lemma last_env_absent: "k \<notin> evName ` set envs \<Longrightarrow> last_env envs k = None"
  by (auto simp: last_env_def map_of_eq_None_iff)

text \<open>
  A container's environment: the value of a name that occurs in the list with a literal is the last
  such literal. (Names that do not occur may come from the shared secret.)
\<close>

definition pod_env_ok :: "(string \<Rightarrow> string) \<Rightarrow> EnvVar list \<Rightarrow> bool" where
  "pod_env_ok getenv envs \<longleftrightarrow> (\<forall>k v. last_env envs k = Some (EnvValue v) \<longrightarrow> getenv k = v)"

section \<open>Names\<close>

lemma settings_names:
  "evName ` set (buildSettingsEnvVars s) \<subseteq> {''AGENT_TEMPERATURE'', ''AGENT_OUTPUT_FORMAT'', ''AGENT_MEMORY_BACKEND''}"
  by (auto simp: buildSettingsEnvVars_def env_value_def Let_def split: option.splits if_splits)

lemma memory_names:
  "evName ` set (buildMemoryEnvVars m) \<subseteq> {''AGENT_MEMORY_BACKEND'', ''AGENT_MEMORY_REDIS_URL'', ''AGENT_MEMORY_REDIS_TTL'',
     ''AGENT_MEMORY_REDIS_MAX_ENTRIES'', ''AGENT_MEMORY_VECTOR_STORE_PROVIDER'', ''AGENT_MEMORY_VECTOR_STORE_ENDPOINT'',
     ''AGENT_MEMORY_VECTOR_STORE_COLLECTION'', ''AGENT_MEMORY_VECTOR_STORE_API_KEY'', ''AGENT_MEMORY_VECTOR_STORE_TTL''}"
proof (cases m)
  case None
  then show ?thesis by (simp add: buildMemoryEnvVars_def)
next
  case (Some mem)
  then show ?thesis
    by (cases "msBackend (meSpec mem)")
       (auto simp: buildMemoryEnvVars_def buildRedisMemoryEnvVars_def buildVectorStoreMemoryEnvVars_def env_value_def
         split: option.splits if_splits)
qed

lemma validator_names: "evName ` set (validatorEnvVars a) \<subseteq> {''AGENT_VALIDATOR_PROMPT''}"
  by (auto simp: validatorEnvVars_def env_value_def split: option.splits)

lemma settings_absent:
  "k \<notin> {''AGENT_TEMPERATURE'', ''AGENT_OUTPUT_FORMAT'', ''AGENT_MEMORY_BACKEND''} \<Longrightarrow> last_env (buildSettingsEnvVars s) k = None"
  using settings_names by (intro last_env_absent) blast

lemma memory_absent:
  "take 12 k \<noteq> ''AGENT_MEMORY'' \<Longrightarrow> last_env (buildMemoryEnvVars m) k = None"
  using memory_names [of m] by (intro last_env_absent) auto

lemma validator_absent: "k \<noteq> ''AGENT_VALIDATOR_PROMPT'' \<Longrightarrow> last_env (validatorEnvVars a) k = None"
  using validator_names by (intro last_env_absent) blast

lemmas env_absent = settings_absent memory_absent validator_absent

section \<open>Lookups\<close>

lemma buildEnvVars_lookups:
  "last_env (buildEnvVars A a s m p) ''AGENT_MODEL'' = Some (EnvValue (asModel (agSpec a)))"
  "last_env (buildEnvVars A a s m p) ''AGENT_SYSTEM_PROMPT'' = Some (EnvValue (mergeSystemPrompt p s))"
  "last_env (buildEnvVars A a s m p) ''AGENT_MCP_SERVERS'' = Some (EnvValue (aaMarshalServers A (asMCPServers (agSpec a))))"
  "last_env (buildEnvVars A a s m p) ''AGENT_MAX_TOKENS'' = Some (EnvValue (Itoa (sint (limit_or 8000 limMaxTokensPerCall a))))"
  "last_env (buildEnvVars A a s m p) ''AGENT_TIMEOUT_SECONDS'' = Some (EnvValue (Itoa (sint (limit_or 120 limTimeoutSeconds a))))"
  by (simp_all add: buildEnvVars_def env_absent env_value_def split: option.splits)

lemma buildEnvVars_tools:
  "last_env (buildEnvVars A a s m p) ''AGENT_WEBHOOK_TOOLS'' =
     (if asTools (agSpec a) = [] then None else Some (EnvValue (aaMarshalTools A (asTools (agSpec a)))))"
  by (simp add: buildEnvVars_def env_absent env_value_def)

lemma buildEnvVars_validator:
  "last_env (buildEnvVars A a s m p) ''AGENT_VALIDATOR_PROMPT'' = last_env (validatorEnvVars a) ''AGENT_VALIDATOR_PROMPT''"
  by (simp add: buildEnvVars_def env_absent env_value_def split: option.splits)

text \<open>The backend of an ArkMemory overrides that of an ArkSettings.\<close>

lemma memory_backend:
  "last_env (buildMemoryEnvVars (Some mem)) ''AGENT_MEMORY_BACKEND'' = Some (EnvValue (backend_string (msBackend (meSpec mem))))"
  by (auto simp: buildMemoryEnvVars_def buildRedisMemoryEnvVars_def buildVectorStoreMemoryEnvVars_def env_value_def
      split: option.split MemoryBackend.split)

lemma buildEnvVars_backend:
  "last_env (buildEnvVars A a s m p) ''AGENT_MEMORY_BACKEND'' =
     (case m of
        Some mem \<Rightarrow> Some (EnvValue (backend_string (msBackend (meSpec mem))))
      | None \<Rightarrow> last_env (buildSettingsEnvVars s) ''AGENT_MEMORY_BACKEND'')"
proof -
  have none: "last_env (buildMemoryEnvVars None) k = None" for k by (simp add: buildMemoryEnvVars_def)
  show ?thesis
    by (cases m) (simp_all add: buildEnvVars_def env_value_def memory_backend none validator_absent split: option.split)
qed

section \<open>Reading the environment\<close>

definition runtime_server :: "MCPServerSpec \<Rightarrow> MCPServerConfig" where
  "runtime_server s = \<lparr>mcName = mcpName s, mcURL = mcpURL s\<rparr>"

definition runtime_tool :: "WebhookToolSpec \<Rightarrow> WebhookToolConfig" where
  "runtime_tool t = \<lparr>wcName = wtName t, wcDescription = wtDescription t, wcURL = wtURL t, wcMethod = wtMethod t,
     wcInputSchema = wtInputSchema t\<rparr>"

text \<open>Both sides use the same JSON field names, so decoding what was encoded gives the same fields.\<close>

definition json_agrees :: "'w agent_api \<Rightarrow> config_json \<Rightarrow> ArkAgent \<Rightarrow> bool" where
  "json_agrees A J a \<longleftrightarrow>
     aaMarshalServers A (asMCPServers (agSpec a)) \<noteq> [] \<and>
     cjServers J (aaMarshalServers A (asMCPServers (agSpec a))) = Inr (map runtime_server (asMCPServers (agSpec a))) \<and>
     aaMarshalTools A (asTools (agSpec a)) \<noteq> [] \<and>
     cjWebhookTools J (aaMarshalTools A (asTools (agSpec a))) = Inr (map runtime_tool (asTools (agSpec a)))"

lemma Load_buildEnvVars:
  assumes env: "pod_env_ok getenv (buildEnvVars A a s m p)" and json: "json_agrees A J a"
    and req: "asModel (agSpec a) \<noteq> []" "mergeSystemPrompt p s \<noteq> []" "getenv ''TASK_QUEUE_URL'' \<noteq> []"
    and unset: "getenv ''AGENT_MAX_RETRIES'' = []" "asTools (agSpec a) = [] \<Longrightarrow> getenv ''AGENT_WEBHOOK_TOOLS'' = []"
  shows "Load J getenv = Inr \<lparr>cfgProvider = getenv ''AGENT_PROVIDER'', cfgModel = asModel (agSpec a),
     cfgSystemPrompt = mergeSystemPrompt p s, cfgMCPServers = map runtime_server (asMCPServers (agSpec a)),
     cfgMaxTokensPerCall = limit_or 8000 limMaxTokensPerCall a, cfgTimeoutSeconds = limit_or 120 limTimeoutSeconds a,
     cfgTaskQueueURL = getenv ''TASK_QUEUE_URL'', cfgValidatorPrompt = getenv ''AGENT_VALIDATOR_PROMPT'',
     cfgMaxRetries = 3, cfgWebhookTools = map runtime_tool (asTools (agSpec a))\<rparr>"
proof -
  note get = env [unfolded pod_env_ok_def, rule_format]
  note vals = buildEnvVars_lookups [of A a s m p, THEN get]
  have servers: "optional_json getenv (cjServers J) ''AGENT_MCP_SERVERS'' fmt = Inr (map runtime_server (asMCPServers (agSpec a)))" for fmt
    using json by (simp add: optional_json_def vals json_agrees_def Let_def)
  have tools: "optional_json getenv (cjWebhookTools J) ''AGENT_WEBHOOK_TOOLS'' fmt = Inr (map runtime_tool (asTools (agSpec a)))" for fmt
  proof (cases "asTools (agSpec a) = []")
    case True
    with unset(2) show ?thesis by (simp add: optional_json_def)
  next
    case False
    then have "getenv ''AGENT_WEBHOOK_TOOLS'' = aaMarshalTools A (asTools (agSpec a))"
      by (intro get) (simp add: buildEnvVars_tools)
    with json show ?thesis by (simp add: optional_json_def json_agrees_def Let_def)
  qed
  have ints: "optional_int getenv ''AGENT_MAX_TOKENS'' fmt d = Inr (limit_or 8000 limMaxTokensPerCall a)"
    "optional_int getenv ''AGENT_TIMEOUT_SECONDS'' fmt d = Inr (limit_or 120 limTimeoutSeconds a)" for fmt d
    using vals(4,5) by (simp_all add: optional_int_Itoa)
  have retries: "optional_int getenv ''AGENT_MAX_RETRIES'' fmt d = Inr d" for fmt d
    using unset(1) by (simp add: optional_int_def)
  show ?thesis
    by (simp add: Load_def vals req servers tools ints retries)
qed

end
