(* ===== verification/AgentWrites.thy ===== *)
theory AgentWrites
  imports AgentEnvVars
begin

text \<open>
  What one reconcile of an agent writes: the API server's writes are logged, and the log shows at most
  one write of the Deployment, with the replicas and the environment the agent asks for.
\<close>

datatype agent_write =
    CreateDeployment DeploymentObj
  | PatchDeployment DeploymentObj DeploymentObj
  | UpdateAgentStatus ArkAgent

definition logged_agents :: "'w agent_api \<Rightarrow> ('w \<times> agent_write list) agent_api" where
  "logged_agents A =
     \<lparr>aaGetAgent = (\<lambda>(w, l). aaGetAgent A w), aaGetSettings = (\<lambda>(w, l). aaGetSettings A w),
      aaGetMemory = (\<lambda>(w, l). aaGetMemory A w), aaGetDeployment = (\<lambda>(w, l). aaGetDeployment A w),
      aaGetConfigMap = (\<lambda>(w, l). aaGetConfigMap A w), aaGetSecret = (\<lambda>(w, l). aaGetSecret A w),
      aaListFlows = (\<lambda>(w, l). aaListFlows A w), aaListAgents = (\<lambda>(w, l). aaListAgents A w),
      aaSetControllerReference = aaSetControllerReference A,
      aaCreate = (\<lambda>d (w, l). (fst (aaCreate A d w), snd (aaCreate A d w), l @ [CreateDeployment d])),
      aaPatch = (\<lambda>d d' (w, l). (fst (aaPatch A d d' w), snd (aaPatch A d d' w), l @ [PatchDeployment d d'])),
      aaUpdateStatus = (\<lambda>a (w, l). (fst (aaUpdateStatus A a w), snd (aaUpdateStatus A a w), l @ [UpdateAgentStatus a])),
      aaNow = (\<lambda>(w, l). (fst (aaNow A w), snd (aaNow A w), l)),
      aaSha256Hex = aaSha256Hex A, aaMarshalServers = aaMarshalServers A, aaMarshalTools = aaMarshalTools A\<rparr>"

text \<open>\<open>SetControllerReference\<close> changes the owner of the object and nothing else.\<close>

definition owner_law :: "'w agent_api \<Rightarrow> bool" where
  "owner_law A \<longleftrightarrow> (\<forall>a d d'. aaSetControllerReference A a d = Inr d' \<longrightarrow> d' = d\<lparr>dpOwner := dpOwner d'\<rparr>)"

fun is_status_write :: "agent_write \<Rightarrow> bool" where
  "is_status_write (UpdateAgentStatus a) = True"
| "is_status_write _ = False"

text \<open>The Deployment write of a log is one that makes the Deployment what the agent asks for.\<close>

definition deploys :: "DeploymentObj \<Rightarrow> agent_write \<Rightarrow> bool" where
  "deploys desired wr \<longleftrightarrow>
     (case wr of
        CreateDeployment d \<Rightarrow> d = desired\<lparr>dpOwner := dpOwner d\<rparr>
      | PatchDeployment old new \<Rightarrow>
          new = old\<lparr>dpReplicas := dpReplicas desired, dpTemplateAnnotations := dpTemplateAnnotations desired,
                    dpContainers := dpContainers desired\<rparr>
      | UpdateAgentStatus a \<Rightarrow> False)"

lemma logged_agents_reads [simp]:
  "aaGetAgent (logged_agents A) (w, l) = aaGetAgent A w" "aaGetSettings (logged_agents A) (w, l) = aaGetSettings A w"
  "aaGetMemory (logged_agents A) (w, l) = aaGetMemory A w" "aaGetDeployment (logged_agents A) (w, l) = aaGetDeployment A w"
  "aaGetConfigMap (logged_agents A) (w, l) = aaGetConfigMap A w" "aaGetSecret (logged_agents A) (w, l) = aaGetSecret A w"
  "aaListFlows (logged_agents A) (w, l) = aaListFlows A w" "aaListAgents (logged_agents A) (w, l) = aaListAgents A w"
  "aaSetControllerReference (logged_agents A) = aaSetControllerReference A"
  "aaSha256Hex (logged_agents A) = aaSha256Hex A" "aaMarshalServers (logged_agents A) = aaMarshalServers A"
  "aaMarshalTools (logged_agents A) = aaMarshalTools A"
  by (simp_all add: logged_agents_def)

lemma logged_agents_writes [simp]:
  "aaCreate (logged_agents A) d (w, l) = (fst (aaCreate A d w), snd (aaCreate A d w), l @ [CreateDeployment d])"
  "aaPatch (logged_agents A) d d' (w, l) = (fst (aaPatch A d d' w), snd (aaPatch A d d' w), l @ [PatchDeployment d d'])"
  "aaUpdateStatus (logged_agents A) a (w, l) = (fst (aaUpdateStatus A a w), snd (aaUpdateStatus A a w), l @ [UpdateAgentStatus a])"
  "aaNow (logged_agents A) (w, l) = (fst (aaNow A w), snd (aaNow A w), l)"
  by (simp_all add: logged_agents_def)

lemma logged_buildEnvVars [simp]: "buildEnvVars (logged_agents A) = buildEnvVars A"
  by (simp add: buildEnvVars_def fun_eq_iff)

lemma logged_buildDeployment [simp]: "buildDeployment E (logged_agents A) = buildDeployment E A"
  by (simp add: buildDeployment_def fun_eq_iff)

lemma logged_budget:
  "reconcileDailyBudget E (logged_agents A) a (w, l) =
     (fst (reconcileDailyBudget E A a w), snd (reconcileDailyBudget E A a w), l)"
  by (cases "aaNow A w") (simp add: reconcileDailyBudget_def Let_def split: prod.split sum.split)

lemma logged_prompt: "resolveSystemPrompt (logged_agents A) a (w, l) = resolveSystemPrompt A a w"
  by (simp add: resolveSystemPrompt_def split: option.split)

lemma logged_optional:
  "load_optional fmt (aaGetSettings (logged_agents A)) ref ns (w, l) = load_optional fmt (aaGetSettings A) ref ns w"
  "load_optional fmt (aaGetMemory (logged_agents A)) ref ns (w, l) = load_optional fmt (aaGetMemory A) ref ns w"
  by (simp_all add: load_optional_def split: option.split)

lemma buildDeployment_fields [simp]:
  "dpName (buildDeployment E A img a s m p) = mName (agMeta a) @ ''-agent''"
  "dpNamespace (buildDeployment E A img a s m p) = mNamespace (agMeta a)"
  "dpReplicas (buildDeployment E A img a s m p) = Some (desired_replicas E a)"
  "map coEnv (dpContainers (buildDeployment E A img a s m p)) = [buildEnvVars A a s m p]"
  "map coImage (dpContainers (buildDeployment E A img a s m p)) = [img]"
  by (simp_all add: buildDeployment_def)

lemma reconcileDeployment_log:
  assumes "owner_law A" and "reconcileDeployment E (logged_agents A) img a s m p (w, l) = (e, w', l')"
  shows "(l' = l \<and> e \<noteq> None) \<or> (\<exists>wr. l' = l @ [wr] \<and> deploys (buildDeployment E A img a s m p) wr)"
proof -
  let ?d = "buildDeployment E A img a s m p"
  show ?thesis
  proof (cases "aaSetControllerReference A a ?d")
    case (Inl err)
    with assms(2) show ?thesis by (auto simp: reconcileDeployment_def)
  next
    case (Inr d)
    with assms(1) have "d = ?d\<lparr>dpOwner := dpOwner d\<rparr>" by (simp add: owner_law_def)
    then obtain o1 where d: "d = ?d\<lparr>dpOwner := o1\<rparr>" by blast
    have fields: "dpReplicas d = dpReplicas ?d"
      "dpTemplateAnnotations d = dpTemplateAnnotations ?d" "dpContainers d = dpContainers ?d"
      by (simp_all add: d)
    have created: "deploys ?d (CreateDeployment d)" by (simp add: deploys_def d)
    have patched: "deploys ?d (PatchDeployment x (x\<lparr>dpReplicas := dpReplicas d,
        dpTemplateAnnotations := dpTemplateAnnotations d, dpContainers := dpContainers d\<rparr>))" for x
      by (simp add: deploys_def fields)
    show ?thesis
      using assms(2) Inr created patched
      by (auto simp: reconcileDeployment_def Let_def split: sum.splits if_splits)
  qed
qed

lemma deploysE:
  assumes "deploys d wr"
  obtains dep where "wr = CreateDeployment dep \<or> (\<exists>old. wr = PatchDeployment old dep)"
    and "dpReplicas dep = dpReplicas d" and "dpContainers dep = dpContainers d"
proof (cases wr)
  case (CreateDeployment dep)
  with assms obtain o1 where "dep = d\<lparr>dpOwner := o1\<rparr>" by (auto simp: deploys_def)
  with CreateDeployment show ?thesis by (intro that [of dep]) auto
qed (use assms that in \<open>auto simp: deploys_def\<close>)

lemma syncStatus_log:
  assumes "syncStatus E (logged_agents A) a (w, l) = (e, a', w', l')"
  shows "\<exists>us. l' = l @ us \<and> list_all is_status_write us"
  using assms by (auto simp: syncStatus_def Let_def split: sum.splits)

lemma fail_with_log:
  assumes "fail_with E (logged_agents A) a reason err (w, l) = (r, w', l')"
  shows "r = Inl err \<and> (\<exists>us. l' = l @ us \<and> list_all is_status_write us)"
  using assms by (auto simp: fail_with_def)

lemma buildEnvVars_spec:
  "agSpec a = agSpec b \<Longrightarrow> buildEnvVars A a = buildEnvVars A b"
  by (simp add: buildEnvVars_def limit_or_def validatorEnvVars_def fun_eq_iff)

lemma budget_frame:
  "reconcileDailyBudget E A a w = (Inr (d, a'), w') \<Longrightarrow> agSpec a' = agSpec a \<and> agMeta a' = agMeta a"
  by (auto simp: reconcileDailyBudget_def Let_def split: if_splits prod.splits sum.splits)

text \<open>
  Everything a reconcile logs: nothing but status updates, or one write of the Deployment that is built
  from what was read, followed by status updates. Success means the latter.
\<close>

lemma agent_Reconcile_log:
  assumes owner: "owner_law A" and run: "agent_Reconcile E (logged_agents A) img req (w, []) = (r, w', log)"
    and agent: "aaGetAgent A w req = Inr a" "mDeletionTimestamp (agMeta a) = None"
  shows "(isl r \<and> list_all is_status_write log) \<or>
     (\<exists>s m p d a' w1 wr us.
        load_optional ''fetching ArkSettings %q: %w'' (aaGetSettings A) (asConfigRef (agSpec a)) (mNamespace (agMeta a)) w = Inr s \<and>
        load_optional ''fetching ArkMemory %q: %w'' (aaGetMemory A) (asMemoryRef (agSpec a)) (mNamespace (agMeta a)) w = Inr m \<and>
        resolveSystemPrompt A a w = Inr p \<and> reconcileDailyBudget E A a w = (Inr (d, a'), w1) \<and>
        log = wr # us \<and> deploys (buildDeployment E A img a' s m p) wr \<and> list_all is_status_write us \<and>
        (\<forall>x. r = Inr x \<longrightarrow> x = \<lparr>RequeueAfter = d\<rparr>))"
proof -
  let ?s = "load_optional ''fetching ArkSettings %q: %w'' (aaGetSettings A) (asConfigRef (agSpec a)) (mNamespace (agMeta a)) w"
  let ?m = "load_optional ''fetching ArkMemory %q: %w'' (aaGetMemory A) (asMemoryRef (agSpec a)) (mNamespace (agMeta a)) w"
  show ?thesis
  proof (cases "isl ?s \<or> isl ?m \<or> isl (resolveSystemPrompt A a w) \<or> isl (fst (reconcileDailyBudget E A a w))")
    case True
    with run agent show ?thesis
      by (auto simp: agent_Reconcile_def logged_optional logged_prompt logged_budget split: sum.splits prod.splits
          dest!: fail_with_log)
  next
    case False
    then obtain s m p d a' w1 where ok: "?s = Inr s" "?m = Inr m" "resolveSystemPrompt A a w = Inr p"
      "reconcileDailyBudget E A a w = (Inr (d, a'), w1)"
      by (metis isl_def prod.collapse sum.collapse(2) surj_pair)
    obtain e w2 l2 where dep: "reconcileDeployment E (logged_agents A) img a' s m p (w1, []) = (e, w2, l2)"
      by (metis prod_cases3)
    from reconcileDeployment_log [OF owner dep]
    consider (failed) "l2 = []" "e \<noteq> None" | (written) wr where "l2 = [wr]" "deploys (buildDeployment E A img a' s m p) wr"
      by auto
    then show ?thesis
    proof cases
      case failed
      then obtain err where "e = Some err" by auto
      with failed run agent ok dep show ?thesis
        by (auto simp: agent_Reconcile_def logged_optional logged_prompt logged_budget dest!: fail_with_log)
    next
      case written
      have "\<exists>us. log = wr # us \<and> list_all is_status_write us \<and> (\<forall>x. r = Inr x \<longrightarrow> x = \<lparr>RequeueAfter = d\<rparr>)"
      proof (cases e)
        case (Some err)
        with written run agent ok dep show ?thesis
          by (auto simp: agent_Reconcile_def logged_optional logged_prompt logged_budget dest!: fail_with_log)
      next
        case None
        obtain e3 a3 w3 l3 where "syncStatus E (logged_agents A) a' (w2, l2) = (e3, a3, w3, l3)"
          by (metis prod_cases4)
        with syncStatus_log [OF this] None written run agent ok dep show ?thesis
          by (cases e3) (auto simp: agent_Reconcile_def logged_optional logged_prompt logged_budget)
      qed
      with written ok show ?thesis by blast
    qed
  qed
qed

end
