(* ===== verification/ResourceControllers.thy ===== *)
theory ResourceControllers
  imports AgentController
begin

text \<open>
  The controllers of the configuration resources and of services:
  \<^verbatim>\<open>arkmemory_controller.go\<close>, \<^verbatim>\<open>arksettings_controller.go\<close> and \<^verbatim>\<open>arkservice_controller.go\<close> of
  \<^verbatim>\<open>internal/controller/\<close>. Their API server is a world of any type with the operations below.
\<close>

section \<open>Memory\<close>

record 'w memory_api =
  maGet :: "'w \<Rightarrow> NamespacedName \<Rightarrow> api_error + ArkMemory"
  maUpdateStatus :: "ArkMemory \<Rightarrow> 'w \<Rightarrow> api_error option \<times> 'w"

definition memory_validate :: "ArkMemory \<Rightarrow> gotext option" where
  "memory_validate m =
     (case msBackend (meSpec m) of
        MemoryBackendRedis \<Rightarrow>
          (case msRedis (meSpec m) of
             None \<Rightarrow> Some (TFmt ''spec.redis is required when backend is %q'' [GStr ''redis''])
           | Some r \<Rightarrow>
               if lorName (rmcSecretRef r) = [] then Some (TLit ''spec.redis.secretRef.name is required'') else None)
      | MemoryBackendVectorStore \<Rightarrow>
          (case msVectorStore (meSpec m) of
             None \<Rightarrow> Some (TFmt ''spec.vectorStore is required when backend is %q'' [GStr ''vector-store''])
           | Some v \<Rightarrow> if vmcEndpoint v = [] then Some (TLit ''spec.vectorStore.endpoint is required'') else None)
      | _ \<Rightarrow> None)"

text \<open>The status update both branches of \<open>Reconcile\<close> make.\<close>

definition memory_status :: "ext \<Rightarrow> ConditionStatus \<Rightarrow> string \<Rightarrow> gotext \<Rightarrow> ArkMemory \<Rightarrow> ArkMemory" where
  "memory_status E status reason message m =
     m\<lparr>meStatus := (meStatus m)\<lparr>memObservedGeneration := mGeneration (meMeta m),
         memConditions := xSetStatusCondition E (memConditions (meStatus m))
           \<lparr>cType = ConditionReady, cStatus = status, cObservedGeneration = mGeneration (meMeta m),
            cReason = reason, cMessage = message, cLastTransitionTime = zero_time\<rparr>\<rparr>\<rparr>"

definition memory_Reconcile ::
  "ext \<Rightarrow> 'w memory_api \<Rightarrow> NamespacedName \<Rightarrow> 'w \<Rightarrow> (gotext + ctrl_result) \<times> 'w" where
  "memory_Reconcile E M req w =
     (case maGet M w req of
        Inl err \<Rightarrow> (if IsNotFound err then Inr no_requeue else Inl (api_text err), w)
      | Inr m \<Rightarrow>
          if mDeletionTimestamp (meMeta m) \<noteq> None then (Inr no_requeue, w)
          else
            let m' = (case memory_validate m of
                        Some err \<Rightarrow> memory_status E ConditionFalse ''InvalidSpec'' err m
                      | None \<Rightarrow> memory_status E ConditionTrue ''Accepted'' (TLit ''ArkMemory is valid and available'') m);
                (e, w) = maUpdateStatus M m' w
            in (case e of None \<Rightarrow> Inr no_requeue | Some err \<Rightarrow> Inl (api_text err), w))"

section \<open>Settings\<close>

record 'w settings_api =
  saGet :: "'w \<Rightarrow> NamespacedName \<Rightarrow> api_error + ArkSettings"
  saUpdateStatus :: "ArkSettings \<Rightarrow> 'w \<Rightarrow> api_error option \<times> 'w"

definition settings_accept :: "ext \<Rightarrow> ArkSettings \<Rightarrow> ArkSettings" where
  "settings_accept E s =
     s\<lparr>seStatus := (seStatus s)\<lparr>setObservedGeneration := mGeneration (seMeta s),
         setConditions := xSetStatusCondition E (setConditions (seStatus s))
           \<lparr>cType = ConditionReady, cStatus = ConditionTrue, cObservedGeneration = mGeneration (seMeta s),
            cReason = ''Accepted'', cMessage = TLit ''ArkSettings is valid and available'',
            cLastTransitionTime = zero_time\<rparr>\<rparr>\<rparr>"

definition settings_Reconcile ::
  "ext \<Rightarrow> 'w settings_api \<Rightarrow> NamespacedName \<Rightarrow> 'w \<Rightarrow> (gotext + ctrl_result) \<times> 'w" where
  "settings_Reconcile E S req w =
     (case saGet S w req of
        Inl err \<Rightarrow> (if IsNotFound err then Inr no_requeue else Inl (api_text err), w)
      | Inr s \<Rightarrow>
          if mDeletionTimestamp (seMeta s) \<noteq> None then (Inr no_requeue, w)
          else
            let (e, w) = saUpdateStatus S (settings_accept E s) w
            in (case e of None \<Rightarrow> Inr no_requeue | Some err \<Rightarrow> Inl (api_text err), w))"

section \<open>Services\<close>

record ServicePort =
  spName :: string
  spPort :: i32
  spTargetPort :: i32
  spProtocol :: string

record ServiceObj =
  soName :: string
  soNamespace :: string
  soLabels :: "string \<rightharpoonup> string"
  soOwner :: "string option"
  soSelector :: "string \<rightharpoonup> string"
  soPorts :: "ServicePort list"
  soType :: string

record 'w service_api =
  vaGet :: "'w \<Rightarrow> NamespacedName \<Rightarrow> api_error + ArkService"
  vaGetAgent :: "'w \<Rightarrow> NamespacedName \<Rightarrow> api_error + ArkAgent"
  vaGetService :: "'w \<Rightarrow> NamespacedName \<Rightarrow> api_error + ServiceObj"
  vaList :: "'w \<Rightarrow> string \<Rightarrow> api_error + ArkService list"
  vaSetControllerReference :: "ArkService \<Rightarrow> ServiceObj \<Rightarrow> gotext + ServiceObj"
  vaCreate :: "ServiceObj \<Rightarrow> 'w \<Rightarrow> api_error option \<times> 'w"
  vaPatch :: "ServiceObj \<Rightarrow> ServiceObj \<Rightarrow> 'w \<Rightarrow> api_error option \<times> 'w"
  vaUpdateStatus :: "ArkService \<Rightarrow> 'w \<Rightarrow> api_error option \<times> 'w"

definition service_setCondition ::
  "ext \<Rightarrow> ArkService \<Rightarrow> ConditionStatus \<Rightarrow> string \<Rightarrow> gotext \<Rightarrow> ArkService" where
  "service_setCondition E s status reason message =
     s\<lparr>svStatus := (svStatus s)\<lparr>vConditions := xSetStatusCondition E (vConditions (svStatus s))
         \<lparr>cType = ConditionReady, cStatus = status, cObservedGeneration = mGeneration (svMeta s),
          cReason = reason, cMessage = message, cLastTransitionTime = zero_time\<rparr>\<rparr>\<rparr>"

fun protocol_string :: "AgentProtocol \<Rightarrow> string" where
  "protocol_string ProtocolA2A = ''A2A''"
| "protocol_string ProtocolHTTP = ''HTTP''"

definition service_port :: "ArkServicePort \<Rightarrow> ServicePort" where
  "service_port p = \<lparr>spName = ToLower (protocol_string (vpProtocol p)), spPort = vpPort p, spTargetPort = vpPort p,
     spProtocol = ''TCP''\<rparr>"

definition default_port :: ServicePort where
  "default_port = \<lparr>spName = ''http'', spPort = 8081, spTargetPort = 8080, spProtocol = ''TCP''\<rparr>"

definition buildService :: "ArkService \<Rightarrow> ArkAgent \<Rightarrow> ServiceObj" where
  "buildService s a =
     (let ports = map service_port (vsPorts (svSpec s));
          ports = (if length ports = 0 then [default_port] else ports)
      in \<lparr>soName = mName (svMeta s), soNamespace = mNamespace (svMeta s),
          soLabels = [''app.kubernetes.io/managed-by'' \<mapsto> ''ark-operator'', ''arkonis.dev/service'' \<mapsto> mName (svMeta s)],
          soOwner = None, soSelector = [''arkonis.dev/deployment'' \<mapsto> mName (agMeta a)], soPorts = ports,
          soType = ''ClusterIP''\<rparr>)"

definition reconcileService :: "'w service_api \<Rightarrow> ArkService \<Rightarrow> ArkAgent \<Rightarrow> 'w \<Rightarrow> gotext option \<times> 'w" where
  "reconcileService V s a w =
     (case vaSetControllerReference V s (buildService s a) of
        Inl err \<Rightarrow> (Some err, w)
      | Inr desired \<Rightarrow>
          (case vaGetService V w \<lparr>nnName = soName desired, nnNamespace = soNamespace desired\<rparr> of
             Inl err \<Rightarrow>
               if IsNotFound err then (let (e, w) = vaCreate V desired w in (map_option api_text e, w))
               else (Some (api_text err), w)
           | Inr existing \<Rightarrow>
               (let (e, w) = vaPatch V existing
                      (existing\<lparr>soPorts := soPorts desired, soSelector := soSelector desired\<rparr>) w
                in (map_option api_text e, w))))"

definition service_Reconcile ::
  "ext \<Rightarrow> 'w service_api \<Rightarrow> NamespacedName \<Rightarrow> 'w \<Rightarrow> (gotext + ctrl_result) \<times> 'w" where
  "service_Reconcile E V req w =
     (case vaGet V w req of
        Inl err \<Rightarrow> (if IsNotFound err then Inr no_requeue else Inl (api_text err), w)
      | Inr s \<Rightarrow>
          if mDeletionTimestamp (svMeta s) \<noteq> None then (Inr no_requeue, w)
          else if vsSelectorAgent (svSpec s) = [] then
            (let (_, w) = vaUpdateStatus V
                   (service_setCondition E s ConditionFalse ''NoSelector'' (TLit ''spec.selector.arkAgent is required'')) w
             in (Inr no_requeue, w))
          else (case vaGetAgent V w \<lparr>nnName = vsSelectorAgent (svSpec s), nnNamespace = mNamespace (svMeta s)\<rparr> of
            Inl err \<Rightarrow>
              if IsNotFound err then
                (let (_, w) = vaUpdateStatus V
                       (service_setCondition E s ConditionFalse ''DeploymentNotFound''
                          (TLit ''referenced ArkAgent does not exist'')) w
                 in (Inr no_requeue, w))
              else (Inl (api_text err), w)
          | Inr a \<Rightarrow>
              (case reconcileService V s a w of
                 (Some err, w) \<Rightarrow>
                   (let (_, w) = vaUpdateStatus V (service_setCondition E s ConditionFalse ''ReconcileError'' err) w
                    in (Inl err, w))
               | (None, w) \<Rightarrow>
                   (let s = s\<lparr>svStatus := (svStatus s)\<lparr>vReadyReplicas := aReadyReplicas (agStatus a),
                                vObservedGeneration := mGeneration (svMeta s)\<rparr>\<rparr>;
                        (e, w) = vaUpdateStatus V
                          (service_setCondition E s ConditionTrue ''Reconciled'' (TLit ''ArkService reconciled'')) w
                    in (case e of None \<Rightarrow> Inr no_requeue | Some err \<Rightarrow> Inl (api_text err), w)))))"

definition findServicesForAgent :: "'w service_api \<Rightarrow> ArkAgent \<Rightarrow> 'w \<Rightarrow> NamespacedName list" where
  "findServicesForAgent V a w =
     (case vaList V w (mNamespace (agMeta a)) of
        Inl _ \<Rightarrow> []
      | Inr svcs \<Rightarrow>
          map (\<lambda>s. \<lparr>nnName = mName (svMeta s), nnNamespace = mNamespace (svMeta s)\<rparr>)
              (filter (\<lambda>s. vsSelectorAgent (svSpec s) = mName (agMeta a)) svcs))"

section \<open>A resource that is only accepted\<close>

text \<open>
  Memories and settings hold configuration: their controllers compute a status and store it. The
  interface is that one status update; what follows from it holds for both.
\<close>

locale config_resource =
  fixes get :: "'w \<Rightarrow> NamespacedName \<Rightarrow> api_error + 'o" and meta :: "'o \<Rightarrow> ObjectMeta"
    and update :: "'o \<Rightarrow> 'w \<Rightarrow> api_error option \<times> 'w" and judge :: "'o \<Rightarrow> 'o"
    and observed :: "'o \<Rightarrow> i64"
    and reconcile :: "NamespacedName \<Rightarrow> 'w \<Rightarrow> (gotext + ctrl_result) \<times> 'w"
  assumes missing: "get w req = Inl err \<Longrightarrow> snd (reconcile req w) = w"
    and deleting: "get w req = Inr x \<Longrightarrow> mDeletionTimestamp (meta x) \<noteq> None \<Longrightarrow> reconcile req w = (Inr no_requeue, w)"
    and live: "get w req = Inr x \<Longrightarrow> mDeletionTimestamp (meta x) = None \<Longrightarrow>
      snd (reconcile req w) = snd (update (judge x) w) \<and> (isl (fst (reconcile req w)) \<longleftrightarrow> fst (update (judge x) w) \<noteq> None)"
    and meta_judge: "meta (judge x) = meta x"
    and observed_judge: "observed (judge x) = mGeneration (meta x)"
begin

lemma writes_only_live:
  assumes "snd (reconcile req w) \<noteq> w"
  obtains x where "get w req = Inr x" and "mDeletionTimestamp (meta x) = None"
    and "snd (reconcile req w) = snd (update (judge x) w)"
proof (cases "get w req")
  case (Inl err)
  with missing assms show ?thesis by blast
next
  case (Inr x)
  then show ?thesis
    using deleting [OF Inr] live [OF Inr] assms that by (cases "mDeletionTimestamp (meta x)") auto
qed

text \<open>When the store keeps what it is given, the next reconcile finds its generation observed.\<close>

lemma settles:
  assumes "get w req = Inr x" and "mDeletionTimestamp (meta x) = None"
    and stored: "get (snd (update (judge x) w)) req = Inr (judge x)"
  shows "get (snd (reconcile req w)) req = Inr (judge x)" and "observed (judge x) = mGeneration (meta (judge x))"
  using live [OF assms(1,2)] stored by (simp_all add: observed_judge meta_judge)

end

definition memory_judge :: "ext \<Rightarrow> ArkMemory \<Rightarrow> ArkMemory" where
  "memory_judge E m =
     (case memory_validate m of
        Some err \<Rightarrow> memory_status E ConditionFalse ''InvalidSpec'' err m
      | None \<Rightarrow> memory_status E ConditionTrue ''Accepted'' (TLit ''ArkMemory is valid and available'') m)"

interpretation memory: config_resource "maGet M" meMeta "maUpdateStatus M" "memory_judge E"
  "\<lambda>m. memObservedGeneration (meStatus m)" "memory_Reconcile E M" for M E
  by unfold_locales
     (auto simp: memory_Reconcile_def memory_judge_def memory_status_def Let_def split: prod.splits option.splits)

interpretation settings: config_resource "saGet S" seMeta "saUpdateStatus S" "settings_accept E"
  "\<lambda>s. setObservedGeneration (seStatus s)" "settings_Reconcile E S" for S E
  by unfold_locales
     (auto simp: settings_Reconcile_def settings_accept_def Let_def split: prod.splits option.splits)

section \<open>What an accepted memory gives a pod\<close>

definition env_sources :: "EnvVar list \<Rightarrow> (string \<times> env_source) set" where
  "env_sources envs = set (map (\<lambda>e. (evName e, evSource e)) envs)"

lemma accepted_redis:
  assumes "memory_validate m = None" and "msBackend (meSpec m) = MemoryBackendRedis"
  shows "\<exists>s. s \<noteq> [] \<and> (''AGENT_MEMORY_REDIS_URL'', EnvSecretKey s ''REDIS_URL'') \<in> env_sources (buildMemoryEnvVars (Some m))"
proof -
  from assms obtain r where r: "msRedis (meSpec m) = Some r" "lorName (rmcSecretRef r) \<noteq> []"
    by (auto simp: memory_validate_def split: option.splits if_splits)
  with assms(2) show ?thesis
    by (intro exI [of _ "lorName (rmcSecretRef r)"]) (simp add: buildMemoryEnvVars_def buildRedisMemoryEnvVars_def env_sources_def)
qed

lemma accepted_vector_store:
  assumes "memory_validate m = None" and "msBackend (meSpec m) = MemoryBackendVectorStore"
  shows "\<exists>u. u \<noteq> [] \<and> (''AGENT_MEMORY_VECTOR_STORE_ENDPOINT'', EnvValue u) \<in> env_sources (buildMemoryEnvVars (Some m))"
proof -
  from assms obtain v where v: "msVectorStore (meSpec m) = Some v" "vmcEndpoint v \<noteq> []"
    by (auto simp: memory_validate_def split: option.splits if_splits)
  with assms(2) show ?thesis
    by (intro exI [of _ "vmcEndpoint v"])
       (simp add: buildMemoryEnvVars_def buildVectorStoreMemoryEnvVars_def env_sources_def env_value_def)
qed

section \<open>What a reconcile of a service writes\<close>

datatype service_write =
    CreateService ServiceObj
  | PatchService ServiceObj ServiceObj
  | UpdateServiceStatus ArkService

definition logged_services :: "'w service_api \<Rightarrow> ('w \<times> service_write list) service_api" where
  "logged_services V =
     \<lparr>vaGet = (\<lambda>(w, l). vaGet V w), vaGetAgent = (\<lambda>(w, l). vaGetAgent V w), vaGetService = (\<lambda>(w, l). vaGetService V w),
      vaList = (\<lambda>(w, l). vaList V w), vaSetControllerReference = vaSetControllerReference V,
      vaCreate = (\<lambda>d (w, l). (fst (vaCreate V d w), snd (vaCreate V d w), l @ [CreateService d])),
      vaPatch = (\<lambda>d d' (w, l). (fst (vaPatch V d d' w), snd (vaPatch V d d' w), l @ [PatchService d d'])),
      vaUpdateStatus = (\<lambda>s (w, l). (fst (vaUpdateStatus V s w), snd (vaUpdateStatus V s w), l @ [UpdateServiceStatus s]))\<rparr>"

definition service_owner_law :: "'w service_api \<Rightarrow> bool" where
  "service_owner_law V \<longleftrightarrow> (\<forall>s d d'. vaSetControllerReference V s d = Inr d' \<longrightarrow> d' = d\<lparr>soOwner := soOwner d'\<rparr>)"

lemma logged_services_ops [simp]:
  "vaGet (logged_services V) (w, l) = vaGet V w" "vaGetAgent (logged_services V) (w, l) = vaGetAgent V w"
  "vaGetService (logged_services V) (w, l) = vaGetService V w"
  "vaSetControllerReference (logged_services V) = vaSetControllerReference V"
  "vaCreate (logged_services V) d (w, l) = (fst (vaCreate V d w), snd (vaCreate V d w), l @ [CreateService d])"
  "vaPatch (logged_services V) d d' (w, l) = (fst (vaPatch V d d' w), snd (vaPatch V d d' w), l @ [PatchService d d'])"
  "vaUpdateStatus (logged_services V) s (w, l) = (fst (vaUpdateStatus V s w), snd (vaUpdateStatus V s w), l @ [UpdateServiceStatus s])"
  by (simp_all add: logged_services_def)

lemma reconcileService_log:
  assumes "service_owner_law V" and "reconcileService (logged_services V) s a (w, l) = (err, w', l')" and "err = None"
  shows "\<exists>new. (l' = l @ [CreateService new] \<or> (\<exists>old. l' = l @ [PatchService old new])) \<and>
     soSelector new = soSelector (buildService s a) \<and> soPorts new = soPorts (buildService s a)"
proof -
  let ?d = "buildService s a"
  from assms(2,3) obtain d where d: "vaSetControllerReference V s ?d = Inr d"
    by (cases "vaSetControllerReference V s ?d") (auto simp: reconcileService_def)
  with assms(1) obtain o1 where "d = ?d\<lparr>soOwner := o1\<rparr>" unfolding service_owner_law_def by metis
  then have "soSelector d = soSelector ?d" "soPorts d = soPorts ?d" by simp_all
  with d assms(2,3) show ?thesis
    by (fastforce simp: reconcileService_def Let_def split: sum.splits if_splits)
qed

end
