(* ===== verification/OperatorProps.thy ===== *)
theory OperatorProps
  imports AgentWrites ResourceControllers Samples
begin

text \<open>
  The properties of the controllers that turn agents, memories and services into what runs in the
  cluster, and of the configuration a pod reads back.
\<close>

section \<open>Samples\<close>

text \<open>An agent with a daily limit of 100 tokens, and a flow whose step of that agent has used 120.\<close>

definition limited_agent :: ArkAgent where
  "limited_agent = sample_agent\<lparr>agSpec := (agSpec sample_agent)\<lparr>asLimits := Some
     \<lparr>limMaxTokensPerCall = 4000, limMaxConcurrentTasks = 0, limTimeoutSeconds = 0, limMaxDailyTokens = 100\<rparr>,
     asReplicas := Some 3\<rparr>\<rparr>"

definition spent_flow :: ArkFlow where
  "spent_flow = sample_flow\<lparr>flStatus := sample_status\<lparr>fSteps :=
     [(pending_status (sample_step ''a'' []))\<lparr>stPhase := StepSucceeded, stStartTime := Some 0, stCompletionTime := Some 5,
        stTokenUsage := Some \<lparr>tuInputTokens = 100, tuOutputTokens = 20, tuTotalTokens = 120\<rparr>\<rparr>,
      pending_status (sample_step ''b'' [''a''])]\<rparr>\<rparr>"

text \<open>An API server that holds this agent and this flow, and no Deployment; the world is its clock.\<close>

definition sample_agent_api :: "int agent_api" where
  "sample_agent_api =
     \<lparr>aaGetAgent = (\<lambda>w req. Inr limited_agent), aaGetSettings = (\<lambda>w req. Inl (ApiNotFound (TLit ''no''))),
      aaGetMemory = (\<lambda>w req. Inl (ApiNotFound (TLit ''no''))), aaGetDeployment = (\<lambda>w req. Inl (ApiNotFound (TLit ''no''))),
      aaGetConfigMap = (\<lambda>w req. Inl (ApiNotFound (TLit ''no''))), aaGetSecret = (\<lambda>w req. Inl (ApiNotFound (TLit ''no''))),
      aaListFlows = (\<lambda>w ns. Inr [spent_flow]), aaListAgents = (\<lambda>w ns. Inr [limited_agent]),
      aaSetControllerReference = (\<lambda>a d. Inr (d\<lparr>dpOwner := Some (mName (agMeta a))\<rparr>)),
      aaCreate = (\<lambda>d w. (None, w)), aaPatch = (\<lambda>d d' w. (None, w)), aaUpdateStatus = (\<lambda>a w. (None, w)),
      aaNow = (\<lambda>w. (w, w + 1)), aaSha256Hex = (\<lambda>s. ''hash''), aaMarshalServers = (\<lambda>s. ''[]''),
      aaMarshalTools = (\<lambda>t. ''[]'')\<rparr>"


section \<open>Agents\<close>





text \<open>
  C29: The environment the operator builds is the configuration the runtime loads: model, merged prompt,
  servers, limits and tools come back as they were in the spec, when the pod sees the variables of its
  container and JSON decodes what it encoded.
\<close>

theorem pod_configuration_roundtrip:
  assumes "pod_env_ok getenv (buildEnvVars A a s m p)" and "json_agrees A J a"
    and "asModel (agSpec a) \<noteq> []" "mergeSystemPrompt p s \<noteq> []" "getenv ''TASK_QUEUE_URL'' \<noteq> []"
    and "getenv ''AGENT_MAX_RETRIES'' = []" "asTools (agSpec a) = [] \<Longrightarrow> getenv ''AGENT_WEBHOOK_TOOLS'' = []"
  shows "Load J getenv = Inr \<lparr>cfgProvider = getenv ''AGENT_PROVIDER'', cfgModel = asModel (agSpec a),
     cfgSystemPrompt = mergeSystemPrompt p s, cfgMCPServers = map runtime_server (asMCPServers (agSpec a)),
     cfgMaxTokensPerCall = limit_or 8000 limMaxTokensPerCall a, cfgTimeoutSeconds = limit_or 120 limTimeoutSeconds a,
     cfgTaskQueueURL = getenv ''TASK_QUEUE_URL'', cfgValidatorPrompt = getenv ''AGENT_VALIDATOR_PROMPT'',
     cfgMaxRetries = 3, cfgWebhookTools = map runtime_tool (asTools (agSpec a))\<rparr>"
  using assms by (rule Load_buildEnvVars)

definition pod_getenv :: "string \<Rightarrow> string" where
  "pod_getenv k =
     (if k = ''TASK_QUEUE_URL'' then ''redis:6379''
      else case last_env (buildEnvVars sample_agent_api limited_agent None None ''p'') k of Some (EnvValue v) \<Rightarrow> v | _ \<Rightarrow> [])"

definition empty_json :: config_json where
  "empty_json = \<lparr>cjServers = (\<lambda>_. Inr []), cjWebhookTools = (\<lambda>_. Inr [])\<rparr>"

lemma pod_getenv_ok: "pod_env_ok pod_getenv (buildEnvVars sample_agent_api limited_agent None None ''p'')"
proof -
  have "last_env (buildEnvVars sample_agent_api limited_agent None None ''p'') ''TASK_QUEUE_URL'' = None"
    by (simp add: buildEnvVars_def env_absent env_value_def)
  then show ?thesis by (auto simp: pod_env_ok_def pod_getenv_def)
qed

lemma empty_json_agrees: "json_agrees sample_agent_api empty_json limited_agent"
  by (simp add: json_agrees_def sample_agent_api_def empty_json_def limited_agent_def sample_agent_def)

theorem pod_configuration_roundtrip_witness:
  "\<exists>cfg. Load empty_json pod_getenv = Inr cfg \<and> cfgMaxTokensPerCall cfg = 4000 \<and> cfgTimeoutSeconds cfg = 120"
proof -
  have rest: "asModel (agSpec limited_agent) \<noteq> []" "mergeSystemPrompt ''p'' None \<noteq> []" "pod_getenv ''TASK_QUEUE_URL'' \<noteq> []"
    "pod_getenv ''AGENT_MAX_RETRIES'' = []" "pod_getenv ''AGENT_WEBHOOK_TOOLS'' = []"
    by (code_simp+)
  from pod_configuration_roundtrip [OF pod_getenv_ok empty_json_agrees rest] show ?thesis
    by (simp add: limit_or_def limited_agent_def)
qed

lemma valid_memory_env:
  assumes "memory_validate mem = None"
  shows "last_env (buildEnvVars A a s (Some mem) p) ''AGENT_MEMORY_BACKEND''
       = Some (EnvValue (backend_string (msBackend (meSpec mem))))"
    and "msBackend (meSpec mem) = MemoryBackendRedis \<Longrightarrow>
       \<exists>secret. secret \<noteq> [] \<and> (''AGENT_MEMORY_REDIS_URL'', EnvSecretKey secret ''REDIS_URL'')
          \<in> env_sources (buildEnvVars A a s (Some mem) p)"
    and "msBackend (meSpec mem) = MemoryBackendVectorStore \<Longrightarrow>
       \<exists>url. url \<noteq> [] \<and> (''AGENT_MEMORY_VECTOR_STORE_ENDPOINT'', EnvValue url)
          \<in> env_sources (buildEnvVars A a s (Some mem) p)"
proof -
  have sub: "env_sources (buildMemoryEnvVars (Some mem)) \<subseteq> env_sources (buildEnvVars A a s (Some mem) p)"
    by (auto simp: env_sources_def buildEnvVars_def)
  show "last_env (buildEnvVars A a s (Some mem) p) ''AGENT_MEMORY_BACKEND''
       = Some (EnvValue (backend_string (msBackend (meSpec mem))))"
    using buildEnvVars_backend [of A a s "Some mem" p] by simp
  show "msBackend (meSpec mem) = MemoryBackendRedis \<Longrightarrow>
       \<exists>secret. secret \<noteq> [] \<and> (''AGENT_MEMORY_REDIS_URL'', EnvSecretKey secret ''REDIS_URL'')
          \<in> env_sources (buildEnvVars A a s (Some mem) p)"
    using accepted_redis [OF assms] sub by blast
  show "msBackend (meSpec mem) = MemoryBackendVectorStore \<Longrightarrow>
       \<exists>url. url \<noteq> [] \<and> (''AGENT_MEMORY_VECTOR_STORE_ENDPOINT'', EnvValue url)
          \<in> env_sources (buildEnvVars A a s (Some mem) p)"
    using accepted_vector_store [OF assms] sub by blast
qed

lemma judge_spec [simp]: "meSpec (memory_judge E mem) = meSpec mem"
  by (simp add: memory_judge_def memory_status_def split: option.split)

lemma judge_ready:
  assumes "condition_laws E" and "memory_validate mem = None"
  shows "xIsStatusConditionTrue E (memConditions (meStatus (memory_judge E mem))) ConditionReady"
proof -
  let ?c = "\<lparr>cType = ConditionReady, cStatus = ConditionTrue, cObservedGeneration = mGeneration (meMeta mem), cReason = ''Accepted'',
      cMessage = TLit ''ArkMemory is valid and available'', cLastTransitionTime = zero_time\<rparr>"
  have law: "cStatus c = ConditionTrue \<Longrightarrow> xIsStatusConditionTrue E (xSetStatusCondition E cs c) (cType c)" for cs c
    using assms(1) unfolding condition_laws_def by blast
  have "xIsStatusConditionTrue E (xSetStatusCondition E cs ?c) ConditionReady" for cs
    using law [of ?c cs] by simp
  then show ?thesis by (simp add: memory_judge_def memory_status_def assms(2))
qed

text \<open>
  A memory that its controller accepts gives the pods a usable backend. When the API server stores the
  status, the reconciled memory shows its generation as observed; if its spec is valid it is Ready, the
  variable that names the backend is that of the memory, whatever the settings say, and the Redis URL
  comes from a named secret, or the endpoint of the vector store is set.
\<close>

theorem accepted_memory_env:
  assumes "condition_laws E" and live: "maGet M w req = Inr mem" "mDeletionTimestamp (meMeta mem) = None"
    and stored: "maGet M (snd (maUpdateStatus M (memory_judge E mem) w)) req = Inr (memory_judge E mem)"
  shows "\<exists>y. maGet M (snd (memory_Reconcile E M req w)) req = Inr y \<and> memObservedGeneration (meStatus y) = mGeneration (meMeta y) \<and>
     (memory_validate mem = None \<longrightarrow>
        xIsStatusConditionTrue E (memConditions (meStatus y)) ConditionReady \<and>
        last_env (buildEnvVars A a s (Some y) p) ''AGENT_MEMORY_BACKEND'' = Some (EnvValue (backend_string (msBackend (meSpec mem)))) \<and>
        (msBackend (meSpec mem) = MemoryBackendRedis \<longrightarrow>
           (\<exists>secret. secret \<noteq> [] \<and> (''AGENT_MEMORY_REDIS_URL'', EnvSecretKey secret ''REDIS_URL'')
              \<in> env_sources (buildEnvVars A a s (Some y) p))) \<and>
        (msBackend (meSpec mem) = MemoryBackendVectorStore \<longrightarrow>
           (\<exists>url. url \<noteq> [] \<and> (''AGENT_MEMORY_VECTOR_STORE_ENDPOINT'', EnvValue url)
              \<in> env_sources (buildEnvVars A a s (Some y) p))))"
proof (intro exI [of _ "memory_judge E mem"] conjI impI)
  let ?y = "memory_judge E mem"
  note settled = memory.settles [OF live stored]
  show "maGet M (snd (memory_Reconcile E M req w)) req = Inr ?y" by (rule settled(1))
  show "memObservedGeneration (meStatus ?y) = mGeneration (meMeta ?y)" by (rule settled(2))
  assume valid: "memory_validate mem = None"
  then have y: "memory_validate ?y = None" unfolding memory_validate_def judge_spec .
  show "xIsStatusConditionTrue E (memConditions (meStatus ?y)) ConditionReady" by (rule judge_ready [OF assms(1) valid])
  show "last_env (buildEnvVars A a s (Some ?y) p) ''AGENT_MEMORY_BACKEND'' = Some (EnvValue (backend_string (msBackend (meSpec mem))))"
    using valid_memory_env(1) [OF y] by simp
  show "msBackend (meSpec mem) = MemoryBackendRedis \<Longrightarrow> \<exists>secret. secret \<noteq> [] \<and>
      (''AGENT_MEMORY_REDIS_URL'', EnvSecretKey secret ''REDIS_URL'') \<in> env_sources (buildEnvVars A a s (Some ?y) p)"
    using valid_memory_env(2) [OF y] by simp
  show "msBackend (meSpec mem) = MemoryBackendVectorStore \<Longrightarrow> \<exists>url. url \<noteq> [] \<and>
      (''AGENT_MEMORY_VECTOR_STORE_ENDPOINT'', EnvValue url) \<in> env_sources (buildEnvVars A a s (Some ?y) p)"
    using valid_memory_env(3) [OF y] by simp
qed

definition redis_memory :: ArkMemory where
  "redis_memory = \<lparr>meMeta = sample_meta ''mem'', meSpec = \<lparr>msBackend = MemoryBackendRedis,
     msRedis = Some \<lparr>rmcSecretRef = \<lparr>lorName = ''redis-secret''\<rparr>, rmcTTLSeconds = 60, rmcMaxEntries = 0\<rparr>, msVectorStore = None\<rparr>,
     meStatus = \<lparr>memObservedGeneration = 0, memConditions = []\<rparr>\<rparr>"

text \<open>The world of this server is the memory it holds.\<close>

definition sample_memory_api :: "ArkMemory memory_api" where
  "sample_memory_api = \<lparr>maGet = (\<lambda>w req. Inr w), maUpdateStatus = (\<lambda>m w. (None, m))\<rparr>"

theorem accepted_memory_env_witness:
  "\<exists>y. maGet sample_memory_api (snd (memory_Reconcile sample_ext sample_memory_api sample_request redis_memory)) sample_request = Inr y \<and>
     last_env (buildEnvVars sample_agent_api limited_agent None (Some y) ''p'') ''AGENT_MEMORY_BACKEND'' = Some (EnvValue ''redis'')"
proof -
  have m: "maGet sample_memory_api redis_memory sample_request = Inr redis_memory" "mDeletionTimestamp (meMeta redis_memory) = None"
    "maGet sample_memory_api (snd (maUpdateStatus sample_memory_api (memory_judge sample_ext redis_memory) redis_memory)) sample_request
       = Inr (memory_judge sample_ext redis_memory)"
    by (simp_all add: sample_memory_api_def redis_memory_def sample_meta_def)
  have "memory_validate redis_memory = None" by code_simp
  moreover have "backend_string (msBackend (meSpec redis_memory)) = ''redis''" by (simp add: redis_memory_def)
  ultimately show ?thesis
    using accepted_memory_env [OF sample_condition_laws m, of sample_agent_api limited_agent None "''p''"] by auto
qed

section \<open>Services\<close>

text \<open>
  C33: A reconcile of a service whose agent exists makes the Service and stores the status, in this order and
  nothing else. The Service selects the pods of the Deployment of that agent and of no agent of another
  name, has at least one port, and the status shows the ready replicas of the agent.
\<close>

theorem service_routes_to_agent:
  assumes "service_owner_law V" and svc: "vaGet V w req = Inr s" "mDeletionTimestamp (svMeta s) = None" "vsSelectorAgent (svSpec s) \<noteq> []"
    and agent: "vaGetAgent V w \<lparr>nnName = vsSelectorAgent (svSpec s), nnNamespace = mNamespace (svMeta s)\<rparr> = Inr a"
    and run: "service_Reconcile E (logged_services V) req (w, []) = (Inr x, w', log)"
  shows "\<exists>new s'. (log = [CreateService new, UpdateServiceStatus s'] \<or> (\<exists>old. log = [PatchService old new, UpdateServiceStatus s'])) \<and>
     (soSelector new \<subseteq>\<^sub>m dpTemplateLabels (buildDeployment F A img b st m p) \<longleftrightarrow> mName (agMeta b) = mName (agMeta a)) \<and>
     soPorts new \<noteq> [] \<and> vReadyReplicas (svStatus s') = aReadyReplicas (agStatus a)"
proof -
  obtain err w1 l1 where rec: "reconcileService (logged_services V) s a (w, []) = (err, w1, l1)" by (metis prod_cases3)
  with run svc agent obtain s' where ok: "err = None" and log: "log = l1 @ [UpdateServiceStatus s']"
    and ready: "vReadyReplicas (svStatus s') = aReadyReplicas (agStatus a)"
    by (cases err) (auto simp: service_Reconcile_def service_setCondition_def Let_def split: option.splits prod.splits)
  from reconcileService_log [OF assms(1) rec ok] obtain new where
      new: "l1 = [CreateService new] \<or> (\<exists>old. l1 = [PatchService old new])"
      "soSelector new = soSelector (buildService s a)" "soPorts new = soPorts (buildService s a)" by blast
  have "soSelector new \<subseteq>\<^sub>m dpTemplateLabels (buildDeployment F A img b st m p) \<longleftrightarrow> mName (agMeta b) = mName (agMeta a)"
    by (auto simp: new buildService_def Let_def buildDeployment_def agent_labels_def map_le_def)
  moreover have "soPorts new \<noteq> []" by (simp add: new buildService_def Let_def)
  ultimately show ?thesis using new log ready by (intro exI [of _ new] exI [of _ s']) auto
qed

definition sample_service :: ArkService where
  "sample_service = \<lparr>svMeta = sample_meta ''svc'', svSpec = \<lparr>vsSelectorAgent = ''agent'', vsRoutingStrategy = RoundRobin, vsPorts = []\<rparr>,
     svStatus = \<lparr>vReadyReplicas = 0, vObservedGeneration = 0, vConditions = []\<rparr>\<rparr>"

definition sample_service_api :: "unit service_api" where
  "sample_service_api =
     \<lparr>vaGet = (\<lambda>w req. Inr sample_service), vaGetAgent = (\<lambda>w req. Inr limited_agent),
      vaGetService = (\<lambda>w req. Inl (ApiNotFound (TLit ''no''))), vaList = (\<lambda>w ns. Inr []),
      vaSetControllerReference = (\<lambda>s d. Inr (d\<lparr>soOwner := Some (mName (svMeta s))\<rparr>)),
      vaCreate = (\<lambda>d w. (None, w)), vaPatch = (\<lambda>o1 d w. (None, w)), vaUpdateStatus = (\<lambda>s w. (None, w))\<rparr>"

theorem service_routes_to_agent_witness:
  "\<exists>(new :: ServiceObj) s' log. snd (service_Reconcile sample_ext (logged_services sample_service_api) sample_request ((), [])) = ((), log) \<and>
     last log = UpdateServiceStatus s' \<and> length log = 2 \<and> soPorts new \<noteq> [] \<and>
     soSelector new \<subseteq>\<^sub>m dpTemplateLabels (buildDeployment sample_ext sample_agent_api ''img'' limited_agent None None ''p'')"
proof -
  let ?r = "service_Reconcile sample_ext (logged_services sample_service_api) sample_request ((), [])"
  have "\<not> isl (fst ?r)" by code_simp
  then obtain x log where r: "?r = (Inr x, (), log)" by (metis prod.collapse sum.collapse(2) old.unit.exhaust)
  have law: "service_owner_law sample_service_api" by (auto simp: service_owner_law_def sample_service_api_def)
  have v: "vaGet sample_service_api () sample_request = Inr sample_service" "mDeletionTimestamp (svMeta sample_service) = None"
    "vsSelectorAgent (svSpec sample_service) \<noteq> []"
    "vaGetAgent sample_service_api () \<lparr>nnName = vsSelectorAgent (svSpec sample_service), nnNamespace = mNamespace (svMeta sample_service)\<rparr>
       = Inr limited_agent"
    by (simp_all add: sample_service_api_def sample_service_def sample_meta_def)
  from service_routes_to_agent [OF law v r, where F = sample_ext and A = sample_agent_api and img = "''img''"
      and b = limited_agent and st = None and m = None and p = "''p''"] obtain new s' where
      "log = [CreateService new, UpdateServiceStatus s'] \<or> (\<exists>old. log = [PatchService old new, UpdateServiceStatus s'])"
      "soPorts new \<noteq> []"
      "soSelector new \<subseteq>\<^sub>m dpTemplateLabels (buildDeployment sample_ext sample_agent_api ''img'' limited_agent None None ''p'')"
    by blast
  with r show ?thesis by (intro exI [of _ new] exI [of _ s'] exI [of _ log]) auto
qed

end
