(* ===== verification/EventController.thy ===== *)
theory EventController
  imports FlowController
begin

text \<open>
  \<^verbatim>\<open>internal/controller/arkevent_controller.go\<close>: triggers and the flows they dispatch. The cron library
  is a parser that gives the function \<open>Next\<close> of a schedule; the API server, the clock and the random
  source are the operations of \<open>event_api\<close> on a world of any type.
\<close>

record SecretObj =
  scName :: string
  scNamespace :: string
  scData :: "string \<rightharpoonup> string"
  scOwner :: "string option"

record 'w event_api =
  eaGetEvent :: "'w \<Rightarrow> NamespacedName \<Rightarrow> api_error + ArkEvent"
  eaGetFlow :: "'w \<Rightarrow> NamespacedName \<Rightarrow> api_error + ArkFlow"
  eaGetSecret :: "'w \<Rightarrow> NamespacedName \<Rightarrow> api_error + SecretObj"
  eaListFlows :: "'w \<Rightarrow> string \<Rightarrow> string \<times> string \<Rightarrow> api_error + ArkFlow list"
  eaListEvents :: "'w \<Rightarrow> string \<Rightarrow> api_error + ArkEvent list"
  eaSetFlowOwner :: "ArkEvent \<Rightarrow> ArkFlow \<Rightarrow> gotext + ArkFlow"
  eaSetSecretOwner :: "ArkEvent \<Rightarrow> SecretObj \<Rightarrow> gotext + SecretObj"
  eaCreateFlow :: "ArkFlow \<Rightarrow> 'w \<Rightarrow> api_error option \<times> 'w"
  eaCreateSecret :: "SecretObj \<Rightarrow> 'w \<Rightarrow> api_error option \<times> 'w"
  eaUpdateStatus :: "ArkEvent \<Rightarrow> 'w \<Rightarrow> api_error option \<times> 'w"
  eaNow :: "'w \<Rightarrow> time \<times> 'w"
  eaRandom :: "nat \<Rightarrow> 'w \<Rightarrow> (gotext + string) \<times> 'w"
  eaParseStandard :: "string \<Rightarrow> gotext + (time \<Rightarrow> time)"
  eaRFC3339 :: "time \<Rightarrow> string"
  eaStamp :: "time \<Rightarrow> string" \<comment> \<open>\<open>20060102-150405\<close>\<close>

record FireContext =
  fcName :: string
  fcFiredAt :: string
  fcOutput :: string
  fcBody :: "string \<rightharpoonup> any"
  fcStreamKey :: string

section \<open>The Ready condition\<close>

fun set_ready :: "Condition \<Rightarrow> Condition list \<Rightarrow> Condition list" where
  "set_ready c [] = [c]"
| "set_ready c (d # ds) =
     (if cType d = cType c
      then d\<lparr>cStatus := cStatus c, cReason := cReason c, cMessage := cMessage c,
             cLastTransitionTime := cLastTransitionTime c\<rparr> # ds
      else d # set_ready c ds)"

definition event_setCondition ::
  "'w event_api \<Rightarrow> ArkEvent \<Rightarrow> ConditionStatus \<Rightarrow> string \<Rightarrow> gotext \<Rightarrow> 'w \<Rightarrow> ArkEvent \<times> 'w" where
  "event_setCondition A t status reason message w =
     (let (now, w) = eaNow A w;
          c = \<lparr>cType = ConditionReady, cStatus = status, cObservedGeneration = 0, cReason = reason,
               cMessage = message, cLastTransitionTime = now\<rparr>
      in (t\<lparr>evStatus := (evStatus t)\<lparr>eConditions := set_ready c (eConditions (evStatus t))\<rparr>\<rparr>, w))"

section \<open>Dispatching flows\<close>

definition trigger_data :: "FireContext \<Rightarrow> any" where
  "trigger_data fc =
     AMap [''trigger'' \<mapsto> AMap [''name'' \<mapsto> AStr (fcName fc), ''firedAt'' \<mapsto> AStr (fcFiredAt fc),
                                 ''output'' \<mapsto> AStr (fcOutput fc), ''body'' \<mapsto> AMap (fcBody fc)]]"

definition resolveTriggerTemplate :: "ext \<Rightarrow> string \<Rightarrow> FireContext \<Rightarrow> gotext + string" where
  "resolveTriggerTemplate E expr fc =
     (case xParse E expr of
        Inl _ \<Rightarrow> Inr expr
      | Inr tmpl \<Rightarrow> (case tmpl (trigger_data fc) of Inl err \<Rightarrow> Inl err | Inr buf \<Rightarrow> Inr buf))"

fun resolve_inputs ::
  "ext \<Rightarrow> FireContext \<Rightarrow> (string \<times> string) list \<Rightarrow> (string \<rightharpoonup> string) \<Rightarrow> gotext + (string \<rightharpoonup> string)" where
  "resolve_inputs E fc [] m = Inr m"
| "resolve_inputs E fc ((k, expr) # rest) m =
     (case resolveTriggerTemplate E expr fc of
        Inl err \<Rightarrow> Inl (TFmt ''resolving input %q: %w'' [GStr k, GText err])
      | Inr resolved \<Rightarrow> resolve_inputs E fc rest (m(k \<mapsto> resolved)))"

definition empty_flow_status :: ArkFlowStatus where
  "empty_flow_status = \<lparr>fPhase = FlowEmpty, fSteps = [], fStartTime = None, fCompletionTime = None, fOutput = [],
     fObservedGeneration = 0, fTotalTokenUsage = None, fConditions = []\<rparr>"

definition dispatched_flow ::
  "ArkEvent \<Rightarrow> ArkEventTarget \<Rightarrow> FireContext \<Rightarrow> ArkFlow \<Rightarrow> (string \<rightharpoonup> string) \<Rightarrow> string \<Rightarrow> ArkFlow" where
  "dispatched_flow t target fc tmpl input suffix =
     \<lparr>flMeta = \<lparr>mName = mName (evMeta t) @ ''-'' @ tgPipeline target @ ''-'' @ suffix,
        mNamespace = mNamespace (evMeta t), mGeneration = 0, mDeletionTimestamp = None,
        mAnnotations = (if fcStreamKey fc \<noteq> [] then [''arkonis.dev/stream-key'' \<mapsto> fcStreamKey fc] else Map.empty),
        mLabels = [''arkonis.dev/trigger'' \<mapsto> mName (evMeta t), ''arkonis.dev/trigger-template'' \<mapsto> tgPipeline target],
        mController = None\<rparr>,
      flSpec = \<lparr>fsSteps = fsSteps (flSpec tmpl), fsInput = input, fsOutput = fsOutput (flSpec tmpl),
        fsTimeoutSeconds = fsTimeoutSeconds (flSpec tmpl), fsMaxTokens = fsMaxTokens (flSpec tmpl)\<rparr>,
      flStatus = empty_flow_status\<rparr>"

definition buildFlow ::
  "ext \<Rightarrow> 'w event_api \<Rightarrow> ArkEvent \<Rightarrow> ArkEventTarget \<Rightarrow> FireContext \<Rightarrow> 'w \<Rightarrow> (gotext + ArkFlow) \<times> 'w" where
  "buildFlow E A t target fc w =
     (case eaGetFlow A w \<lparr>nnName = tgPipeline target, nnNamespace = mNamespace (evMeta t)\<rparr> of
        Inl err \<Rightarrow> (Inl (TFmt ''flow template %q not found: %w'' [GStr (tgPipeline target), GText (api_text err)]), w)
      | Inr tmpl \<Rightarrow>
          (case resolve_inputs E fc (xRangeInputs E (tgInput target)) (fsInput (flSpec tmpl)) of
             Inl err \<Rightarrow> (Inl err, w)
           | Inr input \<Rightarrow>
               (let (now, w) = eaNow A w
                in (eaSetFlowOwner A t (dispatched_flow t target fc tmpl input (eaStamp A now)), w))))"

definition hasRunningFlow :: "'w event_api \<Rightarrow> ArkEvent \<Rightarrow> 'w \<Rightarrow> api_error + bool" where
  "hasRunningFlow A t w =
     (case eaListFlows A w (mNamespace (evMeta t)) (''arkonis.dev/trigger'', mName (evMeta t)) of
        Inl err \<Rightarrow> Inl err
      | Inr flows \<Rightarrow> Inr (list_ex (\<lambda>p. fPhase (flStatus p) = FlowRunning) flows))"

fun dispatch ::
  "ext \<Rightarrow> 'w event_api \<Rightarrow> ArkEvent \<Rightarrow> FireContext \<Rightarrow> ArkEventTarget list \<Rightarrow> ArkFlow list \<Rightarrow> 'w
     \<Rightarrow> (gotext + ArkFlow list) \<times> 'w" where
  "dispatch E A t fc [] flows w = (Inr flows, w)"
| "dispatch E A t fc (target # targets) flows w =
     (case buildFlow E A t target fc w of
        (Inl err, w) \<Rightarrow> (Inl (TFmt ''building flow for target %q: %w'' [GStr (tgPipeline target), GText err]), w)
      | (Inr flow, w) \<Rightarrow>
          (case eaCreateFlow A flow w of
             (Some err, w) \<Rightarrow>
               (Inl (TFmt ''creating flow for target %q: %w'' [GStr (tgPipeline target), GText (api_text err)]), w)
           | (None, w) \<Rightarrow> dispatch E A t fc targets (flows @ [flow]) w))"

definition fire ::
  "ext \<Rightarrow> 'w event_api \<Rightarrow> ArkEvent \<Rightarrow> FireContext \<Rightarrow> 'w \<Rightarrow> (gotext + ArkFlow list) \<times> 'w" where
  "fire E A t fc w =
     (if esConcurrencyPolicy (evSpec t) = ConcurrencyForbid
      then (case hasRunningFlow A t w of
              Inl err \<Rightarrow> (Inl (api_text err), w)
            | Inr True \<Rightarrow> (Inr [], w)
            | Inr False \<Rightarrow> dispatch E A t fc (esTargets (evSpec t)) [] w)
      else dispatch E A t fc (esTargets (evSpec t)) [] w)"

section \<open>Cron\<close>

text \<open>The search for the last due time; it may not end, so it is partial.\<close>

partial_function (option) schedule_loop :: "(time \<Rightarrow> time) \<Rightarrow> time \<Rightarrow> time \<Rightarrow> time option \<Rightarrow> time option option" where
  "schedule_loop step now t recent =
     (if time_After (step t) now then Some recent else schedule_loop step now (step t) (Some (step t)))"

definition lookback :: "time \<Rightarrow> time option \<Rightarrow> time" where
  "lookback now lastFired =
     (let lb = time_Add now (- (24 * Hour)) in
      case lastFired of None \<Rightarrow> lb | Some l \<Rightarrow> if time_After l lb then l else lb)"

definition mostRecentSchedule :: "(time \<Rightarrow> time) \<Rightarrow> time \<Rightarrow> time option \<Rightarrow> time option option" where
  "mostRecentSchedule step now lastFired = schedule_loop step now (lookback now lastFired) None"

definition should_fire :: "time option \<Rightarrow> time option \<Rightarrow> bool" where
  "should_fire lastScheduled lastFired \<longleftrightarrow>
     (case lastScheduled of None \<Rightarrow> False
      | Some s \<Rightarrow> (case lastFired of None \<Rightarrow> True | Some l \<Rightarrow> time_After s l))"

definition record_fired :: "time \<Rightarrow> ArkEvent \<Rightarrow> ArkEvent" where
  "record_fired now t =
     t\<lparr>evStatus := (evStatus t)\<lparr>eLastFiredAt := Some now, eFiredCount := eFiredCount (evStatus t) + 1\<rparr>\<rparr>"

text \<open>A reconcile of one source: an error, or the result and the trigger with its new status.\<close>

definition cron_finish :: "'w event_api \<Rightarrow> (time \<Rightarrow> time) \<Rightarrow> time \<Rightarrow> ArkEvent \<Rightarrow> 'w \<Rightarrow> (gotext + ctrl_result \<times> ArkEvent) \<times> 'w" where
  "cron_finish A step now t w =
     (let next = step now;
          t = t\<lparr>evStatus := (evStatus t)\<lparr>eNextFireAt := Some next\<rparr>\<rparr>;
          (t, w) = event_setCondition A t ConditionTrue ''Active'' (TFmt ''next fire at %s'' [GStr (eaRFC3339 A next)]) w;
          (now2, w) = eaNow A w
      in (Inr (\<lparr>RequeueAfter = time_Sub next now2 + Second\<rparr>, t), w))"

definition reconcileCron ::
  "ext \<Rightarrow> 'w event_api \<Rightarrow> ArkEvent \<Rightarrow> 'w \<Rightarrow> ((gotext + ctrl_result \<times> ArkEvent) \<times> 'w) option" where
  "reconcileCron E A t w =
     (let expr = srcCron (esSource (evSpec t)) in
      if expr = [] then
        (let (t, w) = event_setCondition A t ConditionFalse ''InvalidCron''
               (TLit ''spec.source.cron is required for cron type'') w
         in Some (Inr (no_requeue, t), w))
      else case eaParseStandard A expr of
        Inl err \<Rightarrow>
          (let (t, w) = event_setCondition A t ConditionFalse ''InvalidCron''
                 (TFmt ''invalid cron expression %q: %v'' [GStr expr, GText err]) w
           in Some (Inr (no_requeue, t), w))
      | Inr step \<Rightarrow>
          (let (now, w) = eaNow A w in
           case mostRecentSchedule step now (eLastFiredAt (evStatus t)) of
             None \<Rightarrow> None
           | Some lastScheduled \<Rightarrow>
               Some (if should_fire lastScheduled (eLastFiredAt (evStatus t))
                     then (case fire E A t \<lparr>fcName = mName (evMeta t), fcFiredAt = eaRFC3339 A now, fcOutput = [],
                                             fcBody = Map.empty, fcStreamKey = []\<rparr> w of
                             (Inl err, w) \<Rightarrow> (Inl err, w)
                           | (Inr _, w) \<Rightarrow> cron_finish A step now (record_fired now t) w)
                     else cron_finish A step now t w)))"

section \<open>Webhooks\<close>

definition hex_digit :: "nat \<Rightarrow> char" where
  "hex_digit n = (if n < 10 then char_of (48 + n) else char_of (87 + n))"

definition EncodeToString :: "string \<Rightarrow> string" where
  "EncodeToString raw = concat (map (\<lambda>b. [hex_digit (of_char b div 16), hex_digit (of_char b mod 16)]) raw)"

definition ensureWebhookToken :: "'w event_api \<Rightarrow> ArkEvent \<Rightarrow> 'w \<Rightarrow> gotext option \<times> 'w" where
  "ensureWebhookToken A t w =
     (let secretName = mName (evMeta t) @ ''-webhook-token'' in
      case eaGetSecret A w \<lparr>nnName = secretName, nnNamespace = mNamespace (evMeta t)\<rparr> of
        Inr _ \<Rightarrow> (None, w)
      | Inl err \<Rightarrow>
          if \<not> IsNotFound err then (Some (api_text err), w)
          else (case eaRandom A 32 w of
                  (Inl err, w) \<Rightarrow> (Some (TFmt ''generating webhook token: %w'' [GText err]), w)
                | (Inr raw, w) \<Rightarrow>
                    (case eaSetSecretOwner A t \<lparr>scName = secretName, scNamespace = mNamespace (evMeta t),
                            scData = [''token'' \<mapsto> EncodeToString raw], scOwner = None\<rparr> of
                       Inl err \<Rightarrow> (Some err, w)
                     | Inr secret \<Rightarrow> (let (e, w) = eaCreateSecret A secret w in (map_option api_text e, w)))))"

definition reconcileWebhook ::
  "string \<Rightarrow> 'w event_api \<Rightarrow> ArkEvent \<Rightarrow> 'w \<Rightarrow> (gotext + ctrl_result \<times> ArkEvent) \<times> 'w" where
  "reconcileWebhook baseURL A t w =
     (case ensureWebhookToken A t w of
        (Some err, w) \<Rightarrow> (Inl err, w)
      | (None, w) \<Rightarrow>
          (let t = (if baseURL \<noteq> []
                    then t\<lparr>evStatus := (evStatus t)\<lparr>eWebhookURL := baseURL @ ''/triggers/'' @ mNamespace (evMeta t) @
                             ''/'' @ mName (evMeta t) @ ''/fire''\<rparr>\<rparr>
                    else t);
               (t, w) = event_setCondition A t ConditionTrue ConditionReady (TLit ''waiting for webhook POST'') w
           in (Inr (no_requeue, t), w)))"

section \<open>Pipeline outputs\<close>

fun flow_phase_string :: "FlowPhase \<Rightarrow> string" where
  "flow_phase_string FlowEmpty = []"
| "flow_phase_string FlowPending = ''Pending''"
| "flow_phase_string FlowRunning = ''Running''"
| "flow_phase_string FlowSucceeded = ''Succeeded''"
| "flow_phase_string FlowFailed = ''Failed''"

definition desired_phase :: "PipelineOutputSource \<Rightarrow> FlowPhase" where
  "desired_phase src = (if poOnPhase src = FlowEmpty then FlowSucceeded else poOnPhase src)"

definition already_fired :: "ArkFlow \<Rightarrow> ArkEvent \<Rightarrow> bool" where
  "already_fired flow t \<longleftrightarrow>
     (case (fCompletionTime (flStatus flow), eLastFiredAt (evStatus t)) of
        (Some c, Some l) \<Rightarrow> \<not> time_After c l
      | _ \<Rightarrow> False)"

definition reconcilePipelineOutput ::
  "ext \<Rightarrow> 'w event_api \<Rightarrow> ArkEvent \<Rightarrow> 'w \<Rightarrow> (gotext + ctrl_result \<times> ArkEvent) \<times> 'w" where
  "reconcilePipelineOutput E A t w =
     (let finish = (\<lambda>t status reason message w.
            let (t, w) = event_setCondition A t status reason message w in (Inr (no_requeue, t), w))
      in case srcPipelineOutput (esSource (evSpec t)) of
           None \<Rightarrow> finish t ConditionFalse ''InvalidSource''
                     (TLit ''spec.source.pipelineOutput.name is required for pipeline-output type'') w
         | Some src \<Rightarrow>
             if poName src = []
             then finish t ConditionFalse ''InvalidSource''
                    (TLit ''spec.source.pipelineOutput.name is required for pipeline-output type'') w
             else case eaGetFlow A w \<lparr>nnName = poName src, nnNamespace = mNamespace (evMeta t)\<rparr> of
               Inl err \<Rightarrow>
                 (let (t, w) = event_setCondition A t ConditionFalse ''PipelineNotFound''
                        (TFmt ''flow %q not found: %v'' [GStr (poName src), GText (api_text err)]) w
                  in (if IsNotFound err then Inr (no_requeue, t) else Inl (api_text err), w))
             | Inr flow \<Rightarrow>
                 if fPhase (flStatus flow) \<noteq> desired_phase src
                 then finish t ConditionTrue ''Watching''
                        (TFmt ''waiting for flow %q to reach phase %s (current: %s)''
                           [GStr (poName src), GStr (flow_phase_string (desired_phase src)),
                            GStr (flow_phase_string (fPhase (flStatus flow)))]) w
                 else if already_fired flow t
                 then finish t ConditionTrue ''Active'' (TLit ''already fired for this flow completion'') w
                 else
                   (let (now, w) = eaNow A w in
                    case fire E A t \<lparr>fcName = mName (evMeta t), fcFiredAt = eaRFC3339 A now,
                                     fcOutput = fOutput (flStatus flow), fcBody = Map.empty, fcStreamKey = []\<rparr> w of
                      (Inl err, w) \<Rightarrow> (Inl err, w)
                    | (Inr _, w) \<Rightarrow>
                        finish (record_fired now t) ConditionTrue ''Active'' (TLit ''fired on flow completion'') w))"

section \<open>Reconcile\<close>

definition source_string :: "TriggerSourceType \<Rightarrow> string" where
  "source_string s = (case s of TriggerSourceCron \<Rightarrow> ''cron'' | TriggerSourceWebhook \<Rightarrow> ''webhook''
     | TriggerSourcePipelineOutput \<Rightarrow> ''pipeline-output'' | TriggerSourceOther o1 \<Rightarrow> o1)"

definition event_observe :: "ArkEvent \<Rightarrow> ArkEvent" where
  "event_observe t = t\<lparr>evStatus := (evStatus t)\<lparr>eObservedGeneration := mGeneration (evMeta t)\<rparr>\<rparr>"

definition event_update :: "'w event_api \<Rightarrow> ArkEvent \<Rightarrow> ctrl_result \<Rightarrow> 'w \<Rightarrow> (gotext + ctrl_result) \<times> 'w" where
  "event_update A t res w =
     (let (e, w) = eaUpdateStatus A t w in (case e of None \<Rightarrow> Inr res | Some err \<Rightarrow> Inl (api_text err), w))"

text \<open>The status of the trigger that was reconciled is stored on the trigger as it is now.\<close>

definition store_status ::
  "'w event_api \<Rightarrow> NamespacedName \<Rightarrow> (gotext + ctrl_result \<times> ArkEvent) \<times> 'w \<Rightarrow> (gotext + ctrl_result) \<times> 'w" where
  "store_status A req r =
     (case r of
        (Inl err, w) \<Rightarrow> (Inl err, w)
      | (Inr (res, t), w) \<Rightarrow>
          (case eaGetEvent A w req of
             Inl err \<Rightarrow> (if IsNotFound err then Inr no_requeue else Inl (api_text err), w)
           | Inr latest \<Rightarrow> event_update A (event_observe (latest\<lparr>evStatus := evStatus t\<rparr>)) res w))"

definition event_Reconcile ::
  "ext \<Rightarrow> string \<Rightarrow> 'w event_api \<Rightarrow> NamespacedName \<Rightarrow> 'w \<Rightarrow> ((gotext + ctrl_result) \<times> 'w) option" where
  "event_Reconcile E baseURL A req w =
     (case eaGetEvent A w req of
        Inl err \<Rightarrow> Some (if IsNotFound err then Inr no_requeue else Inl (api_text err), w)
      | Inr t \<Rightarrow>
          if esSuspended (evSpec t) then
            (let (t, w) = event_setCondition A t ConditionFalse ''Suspended'' (TLit ''trigger is suspended'') w
             in Some (event_update A (event_observe t) no_requeue w))
          else (case srcType (esSource (evSpec t)) of
            TriggerSourceCron \<Rightarrow> map_option (store_status A req) (reconcileCron E A t w)
          | TriggerSourceWebhook \<Rightarrow> Some (store_status A req (reconcileWebhook baseURL A t w))
          | TriggerSourcePipelineOutput \<Rightarrow> Some (store_status A req (reconcilePipelineOutput E A t w))
          | TriggerSourceOther s \<Rightarrow>
              (let (t, w) = event_setCondition A t ConditionFalse ''InvalidSource''
                     (TFmt ''unknown source type %q'' [GStr s]) w
               in Some (event_update A (event_observe t) no_requeue w))))"

definition watches_flow :: "string \<Rightarrow> ArkEvent \<Rightarrow> bool" where
  "watches_flow n t \<longleftrightarrow> srcType (esSource (evSpec t)) = TriggerSourcePipelineOutput \<and>
     (case srcPipelineOutput (esSource (evSpec t)) of None \<Rightarrow> False | Some p \<Rightarrow> poName p = n)"

definition flowToTriggers :: "'w event_api \<Rightarrow> ArkFlow \<Rightarrow> 'w \<Rightarrow> NamespacedName list" where
  "flowToTriggers A flow w =
     (if fPhase (flStatus flow) \<noteq> FlowSucceeded \<and> fPhase (flStatus flow) \<noteq> FlowFailed then []
      else case eaListEvents A w (mNamespace (flMeta flow)) of
        Inl _ \<Rightarrow> []
      | Inr events \<Rightarrow>
          map (\<lambda>t. \<lparr>nnName = mName (evMeta t), nnNamespace = mNamespace (evMeta t)\<rparr>)
              (filter (watches_flow (mName (flMeta flow))) events))"

end
