(* ===== verification/EventCron.thy ===== *)
theory EventCron
  imports EventController
begin

text \<open>
  The cron schedule of a trigger: when the search for the last due time ends, what it finds, and which
  due times lead to a fire.
\<close>

section \<open>Termination\<close>

lemma schedule_loop_returns:
  "now < (step ^^ Suc k) t \<Longrightarrow> \<exists>r. schedule_loop step now t recent = Some r"
proof (induction k arbitrary: t recent)
  case 0
  then show ?case by (subst schedule_loop.simps) (simp add: time_After_def)
next
  case (Suc k)
  have "now < (step ^^ Suc k) (step t)" using Suc.prems by (simp add: funpow_swap1)
  with Suc.IH show ?case by (subst schedule_loop.simps) simp
qed

lemma schedule_loop_ends:
  assumes "schedule_loop step now t recent = Some r"
  shows "\<exists>k. now < (step ^^ Suc k) t"
proof (rule schedule_loop.raw_induct [where P = "\<lambda>step now t recent r. \<exists>k. now < (step ^^ Suc k) t", OF _ assms])
  fix f :: "(time \<Rightarrow> time) \<Rightarrow> time \<Rightarrow> time \<Rightarrow> time option \<Rightarrow> time option option" and step now t recent r
  assume IH: "\<And>step now t recent r. f step now t recent = Some r \<Longrightarrow> \<exists>k. now < (step ^^ Suc k) t"
    and eq: "(if time_After (step t) now then Some recent else f step now (step t) (Some (step t))) = Some r"
  show "\<exists>k. now < (step ^^ Suc k) t"
  proof (cases "time_After (step t) now")
    case True
    then show ?thesis by (intro exI [of _ 0]) (simp add: time_After_def)
  next
    case False
    with eq have "f step now (step t) (Some (step t)) = Some r" by simp
    from IH [OF this] obtain k where "now < (step ^^ Suc k) (step t)" by blast
    then show ?thesis by (intro exI [of _ "Suc k"]) (simp add: funpow_swap1)
  qed
qed

lemma mostRecentSchedule_returns:
  "mostRecentSchedule step now lf \<noteq> None \<longleftrightarrow> (\<exists>k. now < (step ^^ Suc k) (lookback now lf))"
  unfolding mostRecentSchedule_def
  using schedule_loop_returns [of now _ step "lookback now lf" None] schedule_loop_ends [of step now "lookback now lf" None]
  by (metis option.exhaust option.discI)

section \<open>What it finds\<close>

text \<open>
  The contract of a cron schedule with instants \<open>S\<close>: \<open>step\<close> gives the first instant after its argument.
\<close>

definition schedule_of :: "(time \<Rightarrow> time) \<Rightarrow> time set \<Rightarrow> bool" where
  "schedule_of step S \<longleftrightarrow> (\<forall>t. step t \<in> S \<and> t < step t \<and> (\<forall>s \<in> S. t < s \<longrightarrow> step t \<le> s))"

definition latest_in :: "time set \<Rightarrow> time \<Rightarrow> time \<Rightarrow> time option \<Rightarrow> time option \<Rightarrow> bool" where
  "latest_in S t now recent r \<longleftrightarrow>
     (if \<exists>s \<in> S. t < s \<and> s \<le> now
      then (\<exists>x \<in> S. r = Some x \<and> t < x \<and> x \<le> now \<and> (\<forall>s \<in> S. t < s \<longrightarrow> s \<le> now \<longrightarrow> s \<le> x))
      else r = recent)"

lemma schedule_loop_latest:
  assumes "schedule_of step S"
  shows "\<exists>r. schedule_loop step now t recent = Some r \<and> latest_in S t now recent r"
proof (induction "nat (now - t)" arbitrary: t recent rule: less_induct)
  case less
  from assms have next_in: "step t \<in> S" "t < step t" and least: "\<And>s. s \<in> S \<Longrightarrow> t < s \<Longrightarrow> step t \<le> s"
    by (auto simp: schedule_of_def)
  show ?case
  proof (cases "now < step t")
    case True
    have "latest_in S t now recent recent" using least True by (fastforce simp: latest_in_def)
    with True show ?thesis by (subst schedule_loop.simps) (simp add: time_After_def)
  next
    case False
    then have "nat (now - step t) < nat (now - t)" using next_in(2) by simp
    from less [OF this, of "Some (step t)"] obtain r
      where r: "schedule_loop step now (step t) (Some (step t)) = Some r" "latest_in S (step t) now (Some (step t)) r"
      by blast
    have "latest_in S t now recent r"
    proof (cases "\<exists>s \<in> S. step t < s \<and> s \<le> now")
      case True
      with r(2) obtain x where x: "x \<in> S" "r = Some x" "step t < x" "x \<le> now"
        "\<And>s. s \<in> S \<Longrightarrow> step t < s \<Longrightarrow> s \<le> now \<Longrightarrow> s \<le> x"
        by (auto simp: latest_in_def)
      have "s \<le> x" if "s \<in> S" "t < s" "s \<le> now" for s
        using x(3) x(5) [OF that(1) _ that(3)] least [OF that(1,2)] by (cases "s = step t") auto
      with x next_in(2) show ?thesis unfolding latest_in_def by (smt (verit))
    next
      case none: False
      with r(2) have "r = Some (step t)" by (simp add: latest_in_def)
      moreover have "s \<le> step t" if "s \<in> S" "s \<le> now" for s using none that by fastforce
      ultimately show ?thesis using next_in False unfolding latest_in_def by (smt (verit))
    qed
    with r(1) False show ?thesis by (subst schedule_loop.simps) (simp add: time_After_def)
  qed
qed

text \<open>A time is due at \<open>now\<close> when it lies after the last fire and within the last day.\<close>

definition due :: "time set \<Rightarrow> time option \<Rightarrow> time \<Rightarrow> time set" where
  "due S lf now = {s \<in> S. lookback now lf < s \<and> s \<le> now}"

lemma lookback_eq:
  "lookback now lf = (case lf of None \<Rightarrow> now - 86400000000000 | Some l \<Rightarrow> max l (now - 86400000000000))"
proof -
  have "time_Add now (- (24 * Hour)) = now - 86400000000000"
    by (simp add: time_Add_def Hour_def Minute_def Second_def sint_word_ariths)
  then show ?thesis by (auto simp: lookback_def time_After_def Let_def max_def split: option.split)
qed

lemma mostRecentSchedule_due:
  assumes "schedule_of step S"
  shows "\<exists>r. mostRecentSchedule step now lf = Some r \<and>
     (case r of None \<Rightarrow> due S lf now = {} | Some x \<Rightarrow> x \<in> due S lf now \<and> (\<forall>s \<in> due S lf now. s \<le> x)) \<and>
     (should_fire r lf \<longleftrightarrow> due S lf now \<noteq> {})"
proof -
  obtain r where r: "schedule_loop step now (lookback now lf) None = Some r" "latest_in S (lookback now lf) now None r"
    using schedule_loop_latest [OF assms] by blast
  have found: "case r of None \<Rightarrow> due S lf now = {} | Some x \<Rightarrow> x \<in> due S lf now \<and> (\<forall>s \<in> due S lf now. s \<le> x)"
    using r(2) by (auto simp: latest_in_def due_def split: if_splits option.split)
  have "should_fire r lf \<longleftrightarrow> due S lf now \<noteq> {}"
  proof (cases r)
    case None
    with found show ?thesis by (simp add: should_fire_def)
  next
    case (Some x)
    with found have "lookback now lf < x" "due S lf now \<noteq> {}" by (auto simp: due_def)
    with Some show ?thesis
      by (auto simp: should_fire_def lookback_eq time_After_def split: option.splits)
  qed
  with r(1) found show ?thesis by (auto simp: mostRecentSchedule_def)
qed

text \<open>Two fires share no due time, and together they cover the time between, up to a day.\<close>

lemma due_disjoint: "now1 \<le> now2 \<Longrightarrow> due S lf now1 \<inter> due S (Some now1) now2 = {}"
  by (auto simp: due_def lookback_eq)

lemma due_covers:
  "now2 - now1 \<le> 86400000000000 \<Longrightarrow> now1 \<le> now2 \<Longrightarrow> (\<And>l. lf = Some l \<Longrightarrow> l \<le> now1) \<Longrightarrow>
     {s \<in> S. lookback now1 lf < s \<and> s \<le> now2} = due S lf now1 \<union> due S (Some now1) now2"
  by (auto simp: due_def lookback_eq split: option.splits)

section \<open>A history of reconciles\<close>

text \<open>The reconciles at the given times that fire, each with the last firing it knew.\<close>

fun cron_history :: "(time \<Rightarrow> time) \<Rightarrow> time option \<Rightarrow> time list \<Rightarrow> (time option \<times> time) list" where
  "cron_history step lf [] = []"
| "cron_history step lf (now # nows) =
     (case mostRecentSchedule step now lf of
        None \<Rightarrow> []
      | Some r \<Rightarrow>
          if should_fire r lf then (lf, now) # cron_history step (Some now) nows else cron_history step lf nows)"

text \<open>The reconciles follow each other within a day, starting at a time \<open>b\<close>.\<close>

fun polled :: "time \<Rightarrow> time list \<Rightarrow> bool" where
  "polled b [] = True"
| "polled b (now # nows) \<longleftrightarrow> b \<le> now \<and> now - b \<le> 86400000000000 \<and> polled now nows"

definition fired_before :: "time option \<Rightarrow> time \<Rightarrow> bool" where
  "fired_before lf b \<longleftrightarrow> (\<forall>l. lf = Some l \<longrightarrow> l \<le> b)"

lemma cron_history_step:
  assumes "schedule_of step S"
  shows "cron_history step lf (now # nows) =
     (if due S lf now = {} then cron_history step lf nows else (lf, now) # cron_history step (Some now) nows)"
  using mostRecentSchedule_due [OF assms, of now lf] by auto

declare cron_history.simps(2) [simp del]

lemma due_fired: "l \<le> now \<Longrightarrow> s \<in> due S (Some l) now \<Longrightarrow> l < s"
  by (auto simp: due_def lookback_eq)

lemma cron_history_later:
  assumes "schedule_of step S" and "polled b nows" and "x \<le> b" and "(l, n) \<in> set (cron_history step (Some x) nows)"
  shows "(\<exists>y \<ge> x. l = Some y \<and> y \<le> n) \<and> due S l n \<noteq> {}"
  using assms(2,3,4)
proof (induction nows arbitrary: b x)
  case Nil
  then show ?case by simp
next
  case (Cons now nows)
  then have p: "polled now nows" "x \<le> now" by auto
  show ?case
  proof (cases "due S (Some x) now = {} \<or> (l, n) \<noteq> (Some x, now)")
    case True
    with Cons.prems(3) consider "(l, n) \<in> set (cron_history step (Some x) nows)" | "(l, n) \<in> set (cron_history step (Some now) nows)"
      by (auto simp: cron_history_step [OF assms(1)] split: if_splits)
    then show ?thesis
    proof cases
      case 1
      with Cons.IH p show ?thesis by blast
    next
      case 2
      with Cons.IH [OF p(1) order.refl] p(2) show ?thesis by (meson order.trans)
    qed
  qed (use p in auto)
qed

lemma cron_history_disjoint:
  assumes "schedule_of step S" and "polled b nows" and "fired_before lf b"
  shows "(\<forall>(l, n) \<in> set (cron_history step lf nows). due S l n \<noteq> {}) \<and>
     sorted_wrt (\<lambda>(l, n) (l', n'). due S l n \<inter> due S l' n' = {}) (cron_history step lf nows)"
  using assms(2,3)
proof (induction nows arbitrary: b lf)
  case Nil
  then show ?case by simp
next
  case (Cons now nows)
  then have p: "polled now nows" "fired_before lf now" "fired_before (Some now) now"
    by (auto simp: fired_before_def intro: order.trans)
  have new: "due S lf now \<inter> due S l n = {}" if "(l, n) \<in> set (cron_history step (Some now) nows)" for l n
  proof -
    from cron_history_later [OF assms(1) p(1) order.refl that] obtain y where "now \<le> y" "l = Some y" "y \<le> n" by blast
    then have "now < s" if "s \<in> due S l n" for s using due_fired [of y n s S] that by auto
    then show ?thesis by (force simp: due_def)
  qed
  show ?case
  proof (cases "due S lf now = {}")
    case True
    with Cons.IH [OF p(1) p(2)] show ?thesis by (simp add: cron_history_step [OF assms(1)])
  next
    case False
    with Cons.IH [OF p(1) p(3)] new show ?thesis by (auto simp: cron_history_step [OF assms(1)])
  qed
qed

lemma cron_history_covers:
  assumes "schedule_of step S" and "polled b nows" and "fired_before lf b"
    and "s \<in> S" "b < s" "s \<le> last (b # nows)"
  shows "\<exists>(l, n) \<in> set (cron_history step lf nows). s \<in> due S l n"
  using assms(2,3,5,6)
proof (induction nows arbitrary: b lf)
  case Nil
  then show ?case by simp
next
  case (Cons now nows)
  then have p: "polled now nows" "fired_before lf now" "fired_before (Some now) now"
    by (auto simp: fired_before_def intro: order.trans)
  show ?case
  proof (cases "s \<le> now")
    case True
    with Cons.prems assms(4) have "s \<in> due S lf now"
      by (auto simp: due_def lookback_eq fired_before_def split: option.split)
    then show ?thesis by (auto simp: cron_history_step [OF assms(1)])
  next
    case False
    with Cons.prems(4) have "now < s" "s \<le> last (now # nows)" by (auto split: if_splits)
    with Cons.IH [OF p(1) p(2)] Cons.IH [OF p(1) p(3)] show ?thesis
      by (auto simp: cron_history_step [OF assms(1)])
  qed
qed

end
