(* ===== verification/EventFire.thy ===== *)
theory EventFire
  imports EventCron
begin

text \<open>
  What a fire creates: the flows handed to the API server are logged together with its answers.
\<close>

section \<open>A logged API server\<close>

type_synonym create_log = "(ArkFlow \<times> api_error option) list"

definition logged_events :: "'w event_api \<Rightarrow> ('w \<times> create_log) event_api" where
  "logged_events A =
     \<lparr>eaGetEvent = (\<lambda>(w, l). eaGetEvent A w), eaGetFlow = (\<lambda>(w, l). eaGetFlow A w),
      eaGetSecret = (\<lambda>(w, l). eaGetSecret A w), eaListFlows = (\<lambda>(w, l). eaListFlows A w),
      eaListEvents = (\<lambda>(w, l). eaListEvents A w), eaSetFlowOwner = eaSetFlowOwner A, eaSetSecretOwner = eaSetSecretOwner A,
      eaCreateFlow = (\<lambda>f (w, l). (fst (eaCreateFlow A f w), snd (eaCreateFlow A f w), l @ [(f, fst (eaCreateFlow A f w))])),
      eaCreateSecret = (\<lambda>s (w, l). (fst (eaCreateSecret A s w), snd (eaCreateSecret A s w), l)),
      eaUpdateStatus = (\<lambda>t (w, l). (fst (eaUpdateStatus A t w), snd (eaUpdateStatus A t w), l)),
      eaNow = (\<lambda>(w, l). (fst (eaNow A w), snd (eaNow A w), l)),
      eaRandom = (\<lambda>n (w, l). (fst (eaRandom A n w), snd (eaRandom A n w), l)),
      eaParseStandard = eaParseStandard A, eaRFC3339 = eaRFC3339 A, eaStamp = eaStamp A\<rparr>"

lemma logged_event_reads [simp]:
  "eaGetEvent (logged_events A) (w, l) = eaGetEvent A w" "eaGetFlow (logged_events A) (w, l) = eaGetFlow A w"
  "eaGetSecret (logged_events A) (w, l) = eaGetSecret A w" "eaListFlows (logged_events A) (w, l) = eaListFlows A w"
  "eaSetFlowOwner (logged_events A) = eaSetFlowOwner A" "eaStamp (logged_events A) = eaStamp A"
  "eaRFC3339 (logged_events A) = eaRFC3339 A" "eaParseStandard (logged_events A) = eaParseStandard A"
  by (simp_all add: logged_events_def)

lemma logged_event_writes [simp]:
  "eaCreateFlow (logged_events A) f (w, l) =
     (fst (eaCreateFlow A f w), snd (eaCreateFlow A f w), l @ [(f, fst (eaCreateFlow A f w))])"
  "eaUpdateStatus (logged_events A) t (w, l) = (fst (eaUpdateStatus A t w), snd (eaUpdateStatus A t w), l)"
  "eaNow (logged_events A) (w, l) = (fst (eaNow A w), snd (eaNow A w), l)"
  by (simp_all add: logged_events_def)

lemma event_setCondition_frame:
  assumes "event_setCondition A t st r m w = (t', w')"
  shows "evSpec t' = evSpec t" "evMeta t' = evMeta t" "eLastFiredAt (evStatus t') = eLastFiredAt (evStatus t)"
    "eFiredCount (evStatus t') = eFiredCount (evStatus t)" "eNextFireAt (evStatus t') = eNextFireAt (evStatus t)"
    "w' = snd (eaNow A w)"
  using assms by (auto simp: event_setCondition_def Let_def split: prod.splits)

lemma cron_finish_log:
  "\<exists>res t' w'. cron_finish (logged_events A) step now t (w, l) = (Inr (res, t'), w', l) \<and>
     eLastFiredAt (evStatus t') = eLastFiredAt (evStatus t) \<and> eFiredCount (evStatus t') = eFiredCount (evStatus t) \<and>
     eNextFireAt (evStatus t') = Some (step now)"
proof -
  let ?t = "t\<lparr>evStatus := (evStatus t)\<lparr>eNextFireAt := Some (step now)\<rparr>\<rparr>"
  let ?m = "TFmt ''next fire at %s'' [GStr (eaRFC3339 (logged_events A) (step now))]"
  obtain t' w' where c: "event_setCondition (logged_events A) ?t ConditionTrue ''Active'' ?m (w, l) = (t', w')"
    by (meson surj_pair)
  note f = event_setCondition_frame [OF c]
  show ?thesis using f c by (simp add: cron_finish_def Let_def)
qed

section \<open>What a dispatched flow is\<close>

text \<open>\<open>SetControllerReference\<close> makes the trigger the controlling owner and changes nothing else.\<close>

definition flow_owner_law :: "'w event_api \<Rightarrow> bool" where
  "flow_owner_law A \<longleftrightarrow>
     (\<forall>t f f'. eaSetFlowOwner A t f = Inr f' \<longrightarrow> f' = f\<lparr>flMeta := (flMeta f)\<lparr>mController := Some (mName (evMeta t))\<rparr>\<rparr>)"

text \<open>A run of the template: its steps and limits, the inputs with the target's overrides, a fresh status.\<close>

definition run_of :: "ext \<Rightarrow> ArkEvent \<Rightarrow> FireContext \<Rightarrow> ArkEventTarget \<Rightarrow> ArkFlow \<Rightarrow> ArkFlow \<Rightarrow> bool" where
  "run_of E t fc target tmpl flow \<longleftrightarrow>
     fsSteps (flSpec flow) = fsSteps (flSpec tmpl) \<and> fsOutput (flSpec flow) = fsOutput (flSpec tmpl) \<and>
     fsTimeoutSeconds (flSpec flow) = fsTimeoutSeconds (flSpec tmpl) \<and> fsMaxTokens (flSpec flow) = fsMaxTokens (flSpec tmpl) \<and>
     resolve_inputs E fc (xRangeInputs E (tgInput target)) (fsInput (flSpec tmpl)) = Inr (fsInput (flSpec flow)) \<and>
     flStatus flow = empty_flow_status \<and> mNamespace (flMeta flow) = mNamespace (evMeta t) \<and>
     mController (flMeta flow) = Some (mName (evMeta t)) \<and>
     mLabels (flMeta flow) ''arkonis.dev/trigger'' = Some (mName (evMeta t)) \<and>
     stream_key flow = fcStreamKey fc"

definition dispatched_for :: "ext \<Rightarrow> 'w event_api \<Rightarrow> ArkEvent \<Rightarrow> FireContext \<Rightarrow> ArkEventTarget \<Rightarrow> ArkFlow \<Rightarrow> bool" where
  "dispatched_for E A t fc target flow \<longleftrightarrow>
     (\<exists>w tmpl. eaGetFlow A w \<lparr>nnName = tgPipeline target, nnNamespace = mNamespace (evMeta t)\<rparr> = Inr tmpl \<and>
        run_of E t fc target tmpl flow)"

lemma buildFlow_dispatched:
  assumes "flow_owner_law A" and "buildFlow E (logged_events A) t target fc (w, l) = (Inr flow, w', l')"
  shows "dispatched_for E A t fc target flow \<and> l' = l"
proof -
  from assms(2) obtain tmpl input
    where tmpl: "eaGetFlow A w \<lparr>nnName = tgPipeline target, nnNamespace = mNamespace (evMeta t)\<rparr> = Inr tmpl"
      and input: "resolve_inputs E fc (xRangeInputs E (tgInput target)) (fsInput (flSpec tmpl)) = Inr input"
      and owned: "eaSetFlowOwner A t (dispatched_flow t target fc tmpl input (eaStamp A (fst (eaNow A w)))) = Inr flow"
      and l: "l' = l"
    by (auto simp: buildFlow_def split: sum.splits)
  let ?d = "dispatched_flow t target fc tmpl input (eaStamp A (fst (eaNow A w)))"
  have flow: "flow = ?d\<lparr>flMeta := (flMeta ?d)\<lparr>mController := Some (mName (evMeta t))\<rparr>\<rparr>"
    using assms(1) owned unfolding flow_owner_law_def by blast
  have "run_of E t fc target tmpl flow"
    unfolding flow using input by (simp add: run_of_def dispatched_flow_def stream_key_def)
  with tmpl l show ?thesis by (auto simp: dispatched_for_def)
qed

lemma buildFlow_error: "buildFlow E (logged_events A) t target fc (w, l) = (Inl err, w', l') \<Longrightarrow> l' = l"
  by (auto simp: buildFlow_def split: sum.splits)

text \<open>
  A dispatch creates one flow per target, in order. An error means that a target could not be built or
  created; the flows before it have been created.
\<close>

definition created :: "create_log \<Rightarrow> ArkFlow list" where
  "created l = map fst (filter (\<lambda>(f, e). e = None) l)"

lemma created_append [simp]: "created (xs @ ys) = created xs @ created ys"
  by (simp add: created_def)

lemma created_simps [simp]: "created [] = []" "created [(f, None)] = [f]" "created [(f, Some e)] = []"
  by (simp_all add: created_def)

lemma dispatch_creates:
  assumes "flow_owner_law A" and "dispatch E (logged_events A) t fc targets flows (w, l) = (r, w', l')"
  shows "\<exists>new k. k \<le> length targets \<and> created l' = created l @ new \<and>
     list_all2 (dispatched_for E A t fc) (take k targets) new \<and>
     (case r of Inr flows' \<Rightarrow> k = length targets \<and> flows' = flows @ new | Inl _ \<Rightarrow> k < length targets)"
  using assms(2)
proof (induction targets arbitrary: flows w l)
  case Nil
  then show ?case by (auto intro!: exI [of _ "[]"])
next
  case (Cons target targets)
  obtain b w1 l1 where b: "buildFlow E (logged_events A) t target fc (w, l) = (b, w1, l1)"
    by (metis prod_cases3)
  show ?case
  proof (cases b)
    case (Inl err)
    with Cons.prems b buildFlow_error [of E A t target fc w l err w1 l1] show ?thesis
      by (auto intro!: exI [of _ "[]"] exI [of _ 0])
  next
    case (Inr flow)
    with buildFlow_dispatched [OF assms(1), of E t target fc w l flow w1 l1] b
    have flow: "dispatched_for E A t fc target flow" and l1: "l1 = l" by auto
    show ?thesis
    proof (cases "fst (eaCreateFlow A flow w1)")
      case (Some err)
      with Cons.prems b Inr l1 show ?thesis by (auto intro!: exI [of _ "[]"] exI [of _ 0])
    next
      case None
      with Cons.prems b Inr l1
      have "dispatch E (logged_events A) t fc targets (flows @ [flow]) (snd (eaCreateFlow A flow w1), l @ [(flow, None)])
          = (r, w', l')"
        by simp
      from Cons.IH [OF this] obtain new k where k: "k \<le> length targets" "created l' = created (l @ [(flow, None)]) @ new"
        "list_all2 (dispatched_for E A t fc) (take k targets) new"
        "case r of Inr flows' \<Rightarrow> k = length targets \<and> flows' = (flows @ [flow]) @ new | Inl _ \<Rightarrow> k < length targets"
        by blast
      show ?thesis
        using k flow by (intro exI [of _ "flow # new"] exI [of _ "Suc k"]) (auto split: sum.split)
    qed
  qed
qed

text \<open>The policy: nothing is dispatched while a flow with the trigger's label runs.\<close>

definition held_back :: "'w event_api \<Rightarrow> ArkEvent \<Rightarrow> 'w \<Rightarrow> bool" where
  "held_back A t w \<longleftrightarrow> esConcurrencyPolicy (evSpec t) = ConcurrencyForbid \<and>
     (case eaListFlows A w (mNamespace (evMeta t)) (''arkonis.dev/trigger'', mName (evMeta t)) of
        Inl _ \<Rightarrow> True
      | Inr flows \<Rightarrow> \<exists>f \<in> set flows. fPhase (flStatus f) = FlowRunning)"

lemma fire_creates:
  assumes "flow_owner_law A" and "fire E (logged_events A) t fc (w, []) = (r, w', log)"
  shows "if held_back A t w then log = [] \<and> (r = Inr [] \<or> isl r)
     else \<exists>k \<le> length (esTargets (evSpec t)).
       list_all2 (dispatched_for E A t fc) (take k (esTargets (evSpec t))) (created log) \<and>
       (case r of Inr flows \<Rightarrow> k = length (esTargets (evSpec t)) \<and> flows = created log
                | Inl _ \<Rightarrow> k < length (esTargets (evSpec t)))"
proof (cases "held_back A t w")
  case True
  with assms(2) show ?thesis
    by (auto simp: fire_def held_back_def hasRunningFlow_def list_ex_iff split: sum.splits bool.splits)
next
  case False
  then have "dispatch E (logged_events A) t fc (esTargets (evSpec t)) [] (w, []) = (r, w', log)"
    using assms(2)
    by (auto simp: fire_def held_back_def hasRunningFlow_def list_ex_iff split: sum.splits bool.splits if_splits)
  from dispatch_creates [OF assms(1) this] False show ?thesis by (auto split: sum.splits)
qed

lemma ValidateDAG_steps: "fsSteps (flSpec f) = fsSteps (flSpec g) \<Longrightarrow> ValidateDAG f = ValidateDAG g"
  by (simp add: ValidateDAG_def Let_def)

section \<open>The Ready condition of a trigger\<close>

lemma set_ready_filter:
  "filter (\<lambda>d. cType d = cType c) (set_ready c cs) \<noteq> []"
  by (induction cs) auto

lemma set_ready_others:
  "filter (\<lambda>d. cType d \<noteq> cType c) (set_ready c cs) = filter (\<lambda>d. cType d \<noteq> cType c) cs"
  by (induction cs) auto

lemma set_ready_types:
  "map cType (set_ready c cs) = map cType cs @ (if cType c \<in> cType ` set cs then [] else [cType c])"
  by (induction cs) auto

lemma set_ready_first:
  "\<exists>d. find (\<lambda>d. cType d = cType c) (set_ready c cs) = Some d \<and> cStatus d = cStatus c \<and> cReason d = cReason c \<and> cMessage d = cMessage c"
  by (induction cs) auto

text \<open>\<open>t'\<close> is \<open>t\<close> with its Ready condition set, and perhaps other fields of the status.\<close>

definition ready_set :: "ArkEvent \<Rightarrow> ArkEvent \<Rightarrow> bool" where
  "ready_set t t' \<longleftrightarrow> (\<exists>c. cType c = ConditionReady \<and> eConditions (evStatus t') = set_ready c (eConditions (evStatus t)))"

lemma event_setCondition_ready:
  assumes "event_setCondition A t st r m w = (t', w')" and "eConditions (evStatus t) = eConditions (evStatus u)"
  shows "ready_set u t'"
proof -
  let ?c = "\<lparr>cType = ConditionReady, cStatus = st, cObservedGeneration = 0, cReason = r, cMessage = m,
      cLastTransitionTime = fst (eaNow A w)\<rparr>"
  have "eConditions (evStatus t') = set_ready ?c (eConditions (evStatus u))"
    using assms by (auto simp: event_setCondition_def Let_def split: prod.splits)
  then show ?thesis unfolding ready_set_def by (intro exI [of _ ?c]) simp
qed

lemma ready_set_typed:
  assumes "ready_set t t'" and "distinct (map cType (eConditions (evStatus t)))"
  shows "distinct (map cType (eConditions (evStatus t'))) \<and> ConditionReady \<in> cType ` set (eConditions (evStatus t')) \<and>
     filter (\<lambda>c. cType c \<noteq> ConditionReady) (eConditions (evStatus t')) = filter (\<lambda>c. cType c \<noteq> ConditionReady) (eConditions (evStatus t))"
proof -
  from assms(1) obtain c where c: "cType c = ConditionReady" "eConditions (evStatus t') = set_ready c (eConditions (evStatus t))"
    by (auto simp: ready_set_def)
  have "distinct (map cType (set_ready c (eConditions (evStatus t))))" using assms(2) by (auto simp: set_ready_types)
  moreover have "ConditionReady \<in> set (map cType (set_ready c (eConditions (evStatus t))))"
    unfolding set_ready_types using c(1) by (simp flip: set_map)
  ultimately show ?thesis using c set_ready_others [of c "eConditions (evStatus t)"] by simp
qed

lemma cron_finish_ready:
  "cron_finish A step now t w = (Inr (res, t'), w') \<Longrightarrow> eConditions (evStatus t) = eConditions (evStatus u) \<Longrightarrow> ready_set u t'"
  by (auto simp: cron_finish_def Let_def split: prod.splits intro!: event_setCondition_ready)

lemma reconcileCron_ready: "reconcileCron E A t w = Some (Inr (res, t'), w') \<Longrightarrow> ready_set t t'"
  by (auto simp: reconcileCron_def Let_def record_fired_def split: if_splits sum.splits prod.splits option.splits
      intro: event_setCondition_ready [OF _ refl] dest!: cron_finish_ready [of _ _ _ _ _ _ _ _ t])

lemma reconcileWebhook_ready: "reconcileWebhook base A t w = (Inr (res, t'), w') \<Longrightarrow> ready_set t t'"
  by (auto simp: reconcileWebhook_def Let_def split: if_splits option.splits prod.splits
      dest!: event_setCondition_ready [of _ _ _ _ _ _ _ _ t])

lemma reconcilePipelineOutput_ready: "reconcilePipelineOutput E A t w = (Inr (res, t'), w') \<Longrightarrow> ready_set t t'"
  by (auto simp: reconcilePipelineOutput_def Let_def record_fired_def split: if_splits sum.splits option.splits prod.splits
      dest!: event_setCondition_ready [of _ _ _ _ _ _ _ _ t])

section \<open>The webhook token\<close>

fun hex_value :: "char \<Rightarrow> nat" where
  "hex_value c = (let n = of_char c in if n < 58 then n - 48 else n - 87)"

fun hex_decode :: "string \<Rightarrow> string" where
  "hex_decode (a # b # cs) = char_of (16 * hex_value a + hex_value b :: nat) # hex_decode cs"
| "hex_decode _ = []"

lemma hex_value_digit: "n < 16 \<Longrightarrow> hex_value (hex_digit n) = n"
  by (simp add: hex_digit_def)

lemma hex_roundtrip: "hex_decode (EncodeToString raw) = raw"
proof (induction raw)
  case Nil
  show ?case by (simp add: EncodeToString_def)
next
  case (Cons c raw)
  have "of_char c < (256 :: nat)" by (rule nat_of_char_less_256)
  then have "of_char c div 16 < (16 :: nat)" by linarith
  with Cons show ?case
    by (simp add: EncodeToString_def hex_value_digit del: hex_value.simps)
qed

lemma hex_length: "length (EncodeToString raw) = 2 * length raw"
  by (induction raw) (simp_all add: EncodeToString_def)

end
