(* ===== verification/WebhookServer.thy ===== *)
theory WebhookServer
  imports EventController AgentQueue
begin

text \<open>
  \<^verbatim>\<open>internal/controller/trigger_webhook_server.go\<close>: the HTTP endpoint that fires webhook triggers, the
  synchronous wait and the event stream. The select statements of the handlers are choices of the
  environment; the event stream is a machine whose steps interleave with those of the goroutine that
  reads the token list.
\<close>

record http_in =
  rqPath :: string
  rqMethod :: string
  rqAuthorization :: string
  rqQuery :: "string \<Rightarrow> string"
  rqContentLength :: i64
  rqBody :: "string \<times> gotext option" \<comment> \<open>the bytes, and the error that ends them early\<close>

datatype jval = JStr string | JBool bool | JInt int | JText gotext | JUsage TokenUsage

type_synonym payload = "(string \<times> jval) list"

datatype reply =
    HttpError gotext int
  | HttpJSON int payload
  | EventStream duration NamespacedName string \<comment> \<open>timeout, flow and stream key\<close>

record TriggerWebhookServer =
  twTaskQueueURL :: string
  twRdbOnce :: bool
  twRdb :: "string option"

text \<open>
  \<open>seSelect\<close>: the next event of a wait is a tick, or the context is done with an error; \<open>seDone\<close>: the
  context of the wait is done.
\<close>

record 'w server_env =
  seParseURL :: "string \<Rightarrow> gotext + string"
  seParseDuration :: "string \<Rightarrow> gotext + duration"
  seWithTimeout :: "duration \<Rightarrow> 'w \<Rightarrow> 'w"
  seSelect :: "'w \<Rightarrow> gotext option \<times> 'w"
  seDone :: "'w \<Rightarrow> bool"
  seFlusher :: bool

definition server_getRedis :: "'w server_env \<Rightarrow> TriggerWebhookServer \<Rightarrow> string option \<times> TriggerWebhookServer" where
  "server_getRedis S s =
     (let s' = (if twRdbOnce s then s
                else if twTaskQueueURL s \<noteq> []
                then s\<lparr>twRdbOnce := True, twRdb := Some (case seParseURL S (twTaskQueueURL s) of
                          Inl _ \<Rightarrow> twTaskQueueURL s | Inr opts \<Rightarrow> opts)\<rparr>
                else s\<lparr>twRdbOnce := True\<rparr>)
      in (twRdb s', s'))"

definition defaultSyncTimeout :: duration where "defaultSyncTimeout = 60 * Second"
definition maxSyncTimeout :: duration where "maxSyncTimeout = 5 * Minute"

definition parseSyncTimeout :: "'w server_env \<Rightarrow> http_in \<Rightarrow> duration" where
  "parseSyncTimeout S r =
     (let raw = rqQuery r ''timeout'';
          timeout = (if raw \<noteq> []
                     then (case seParseDuration S raw of Inl _ \<Rightarrow> defaultSyncTimeout | Inr d \<Rightarrow> d)
                     else defaultSyncTimeout)
      in if sint maxSyncTimeout < sint timeout then maxSyncTimeout else timeout)"

section \<open>Authentication\<close>

definition bearerToken :: "http_in \<Rightarrow> string" where
  "bearerToken r = (case CutPrefix (rqAuthorization r) ''Bearer '' of (token, ok) \<Rightarrow> if ok then token else [])"

definition webhookTokenFromSecret :: "'w event_api \<Rightarrow> ArkEvent \<Rightarrow> 'w \<Rightarrow> api_error + string" where
  "webhookTokenFromSecret A t w =
     (case eaGetSecret A w \<lparr>nnName = mName (evMeta t) @ ''-webhook-token'', nnNamespace = mNamespace (evMeta t)\<rparr> of
        Inl err \<Rightarrow> Inl err
      | Inr secret \<Rightarrow> Inr (case scData secret ''token'' of None \<Rightarrow> [] | Some v \<Rightarrow> v))"

definition validToken :: "'w event_api \<Rightarrow> ArkEvent \<Rightarrow> string \<Rightarrow> 'w \<Rightarrow> bool" where
  "validToken A t token w \<longleftrightarrow>
     token \<noteq> [] \<and> (case webhookTokenFromSecret A t w of Inl _ \<Rightarrow> False | Inr stored \<Rightarrow> token = stored)"

definition request_token :: "http_in \<Rightarrow> string" where
  "request_token r = (let token = bearerToken r in if token = [] then rqQuery r ''token'' else token)"

section \<open>The synchronous wait\<close>

record syncResult =
  srStatus :: string
  srOutput :: string
  srError :: gotext
  srTokenUsage :: "TokenUsage option"

definition failure_message :: "ArkFlow \<Rightarrow> gotext" where
  "failure_message f =
     (case find (\<lambda>c. cType c = ConditionReady \<and> cStatus c = ConditionFalse) (fConditions (flStatus f)) of
        Some c \<Rightarrow> cMessage c
      | None \<Rightarrow> TLit ''flow failed'')"

definition sync_result :: "ArkFlow \<Rightarrow> syncResult option" where
  "sync_result f =
     (case fPhase (flStatus f) of
        FlowSucceeded \<Rightarrow> Some \<lparr>srStatus = ''succeeded'', srOutput = fOutput (flStatus f), srError = TLit [],
                              srTokenUsage = fTotalTokenUsage (flStatus f)\<rparr>
      | FlowFailed \<Rightarrow> Some \<lparr>srStatus = ''failed'', srOutput = [], srError = failure_message f, srTokenUsage = None\<rparr>
      | _ \<Rightarrow> None)"

partial_function (option) waitForFlow ::
  "'w server_env \<Rightarrow> 'w event_api \<Rightarrow> NamespacedName \<Rightarrow> 'w \<Rightarrow> ((gotext + syncResult) \<times> 'w) option" where
  "waitForFlow S A key w =
     (case seSelect S w of
        (Some err, w) \<Rightarrow> Some (Inl err, w)
      | (None, w) \<Rightarrow>
          (case eaGetFlow A w key of
             Inl err \<Rightarrow> Some (Inl (api_text err), w)
           | Inr f \<Rightarrow>
               (case sync_result f of
                  Some res \<Rightarrow> Some (Inr res, w)
                | None \<Rightarrow> waitForFlow S A key w)))"

definition flow_key :: "ArkFlow \<Rightarrow> NamespacedName" where
  "flow_key f = \<lparr>nnName = mName (flMeta f), nnNamespace = mNamespace (flMeta f)\<rparr>"

text \<open>\<open>Milliseconds\<close> of a duration: division that truncates towards zero.\<close>

definition Milliseconds :: "duration \<Rightarrow> int" where
  "Milliseconds d = (if 0 \<le> sint d then sint d div 1000000 else - ((- sint d) div 1000000))"

definition sync_payload :: "syncResult \<Rightarrow> int \<Rightarrow> payload" where
  "sync_payload res ms =
     [(''status'', JStr (srStatus res))] @
     (if srOutput res \<noteq> [] then [(''output'', JStr (srOutput res))] else []) @
     (if srError res \<noteq> TLit [] then [(''error'', JText (srError res))] else []) @
     [(''durationMs'', JInt ms)] @
     (case srTokenUsage res of None \<Rightarrow> [] | Some u \<Rightarrow> [(''tokenUsage'', JUsage u)])"

definition handleSync ::
  "'w server_env \<Rightarrow> 'w event_api \<Rightarrow> http_in \<Rightarrow> ArkFlow list \<Rightarrow> 'w \<Rightarrow> (reply \<times> 'w) option" where
  "handleSync S A r flows w =
     (case flows of
        [flow] \<Rightarrow>
          (let timeout = parseSyncTimeout S r;
               w = seWithTimeout S timeout w;
               (start, w) = eaNow A w
           in case waitForFlow S A (flow_key flow) w of
                None \<Rightarrow> None
              | Some (Inl err, w) \<Rightarrow>
                  if seDone S w
                  then (let (now, w) = eaNow A w in
                        Some (HttpJSON 504 [(''error'', JText (TFmt ''timed out after %s waiting for flow to complete'' [GInt (sint timeout)])),
                                            (''durationMs'', JInt (Milliseconds (time_Sub now start)))], w))
                  else Some (HttpError (TFmt ''waiting for flow: %v'' [GText err]) 500, w)
              | Some (Inr res, w) \<Rightarrow>
                  (let (now, w) = eaNow A w;
                       status = (if srStatus res = ''failed'' then 500 else 200)
                   in Some (HttpJSON status (sync_payload res (Milliseconds (time_Sub now start))), w)))
      | _ \<Rightarrow> Some (HttpError (TLit ''sync mode requires exactly one target flow'') 400, w))"

text \<open>The part of \<open>handleSSE\<close> before its loop; the loop is the machine below.\<close>

definition handleSSE ::
  "'w server_env \<Rightarrow> http_in \<Rightarrow> ArkFlow list \<Rightarrow> string \<Rightarrow> reply" where
  "handleSSE S r flows streamKey =
     (case flows of
        [flow] \<Rightarrow>
          if \<not> seFlusher S then HttpError (TLit ''streaming not supported'') 500
          else EventStream (parseSyncTimeout S r) (flow_key flow) streamKey
      | _ \<Rightarrow> HttpError (TLit ''sse mode requires exactly one target flow'') 400)"

section \<open>The endpoint\<close>

definition read_body :: "ext \<Rightarrow> http_in \<Rightarrow> (string \<rightharpoonup> any)" where
  "read_body E r =
     (if rqContentLength r = 0 then Map.empty
      else let (bytes, err) = rqBody r;
               raw = take 1048576 bytes
           in if (length bytes < 1048576 \<and> err \<noteq> None) \<or> raw = [] then Map.empty
              else (case xUnmarshal E raw of Inr (AMap m) \<Rightarrow> m | _ \<Rightarrow> Map.empty))"

text \<open>The namespace and the name of the path \<^verbatim>\<open>/triggers/{namespace}/{name}/fire\<close>.\<close>

definition fire_path :: "string \<Rightarrow> (string \<times> string) option" where
  "fire_path path =
     (case split_at ''/'' (TrimPrefix path ''/'') of
        [p0, p1, p2, p3] \<Rightarrow> if p0 \<noteq> ''triggers'' \<or> p3 \<noteq> ''fire'' then None else Some (p1, p2)
      | _ \<Rightarrow> None)"

definition stream_key_for :: "string \<Rightarrow> string \<Rightarrow> time \<Rightarrow> string" where
  "stream_key_for ns n now = ''chunks:'' @ ns @ '':'' @ n @ '':'' @ Itoa now"

definition record_webhook_fired :: "time \<Rightarrow> ArkEvent \<Rightarrow> ArkEvent" where
  "record_webhook_fired now t = event_observe (record_fired now t)"

definition ServeHTTP ::
  "ext \<Rightarrow> 'w server_env \<Rightarrow> 'w event_api \<Rightarrow> TriggerWebhookServer \<Rightarrow> http_in \<Rightarrow> 'w
     \<Rightarrow> (reply \<times> TriggerWebhookServer \<times> 'w) option" where
  "ServeHTTP E S A s r w =
     (case fire_path (rqPath r) of
        None \<Rightarrow> Some (HttpError (TLit ''not found'') 404, s, w)
      | Some (ns, n) \<Rightarrow>
          if rqMethod r \<noteq> ''POST'' then Some (HttpError (TLit ''method not allowed'') 405, s, w)
          else (case eaGetEvent A w \<lparr>nnName = n, nnNamespace = ns\<rparr> of
            Inl _ \<Rightarrow> Some (HttpError (TLit ''trigger not found'') 404, s, w)
          | Inr t \<Rightarrow>
              if srcType (esSource (evSpec t)) \<noteq> TriggerSourceWebhook
              then Some (HttpError (TLit ''trigger is not of type webhook'') 400, s, w)
              else if esSuspended (evSpec t) then Some (HttpError (TLit ''trigger is suspended'') 503, s, w)
              else if \<not> validToken A t (request_token r) w then Some (HttpError (TLit ''unauthorized'') 401, s, w)
              else
                (let body = read_body E r;
                     (now, w) = eaNow A w;
                     mode = rqQuery r ''mode'';
                     (rdb, s) = (if mode = ''sse'' then server_getRedis S s else (None, s));
                     streamKey = (if rdb \<noteq> None then stream_key_for ns n now else [])
                 in case fire E A t \<lparr>fcName = mName (evMeta t), fcFiredAt = eaRFC3339 A now, fcOutput = [],
                                     fcBody = body, fcStreamKey = streamKey\<rparr> w of
                      (Inl err, w) \<Rightarrow> Some (HttpError (TFmt ''fire failed: %v'' [GText err]) 500, s, w)
                    | (Inr flows, w) \<Rightarrow>
                        (let (_, w) = eaUpdateStatus A (record_webhook_fired now t) w in
                         if mode = ''sync''
                         then (case handleSync S A r flows w of None \<Rightarrow> None | Some (rep, w) \<Rightarrow> Some (rep, s, w))
                         else if mode = ''sse'' then Some (handleSSE S r flows streamKey, s, w)
                         else Some (HttpJSON 202 [(''fired'', JBool True), (''firedAt'', JStr (eaRFC3339 A now)),
                                (''trigger'', JStr n), (''targets'', JInt (int (length (esTargets (evSpec t)))))], s, w)))))"

end
