(* ===== verification/WebhookStream.thy ===== *)
theory WebhookStream
  imports WebhookServer StepLife
begin

text \<open>
  \<^verbatim>\<open>internal/controller/trigger_webhook_server.go\<close>: the event stream. Two processes share the token
  channel: the goroutine of \<open>startTokenStream\<close> pushes the chunks it pops from Redis and closes the
  channel at the end marker; the loop of \<open>handleSSE\<close> drains it, waits for a token, a tick or its
  deadline, and looks at the flow. An action is one step of one of them; a trace is any interleaving.
\<close>

record sse_event =
  svEvent :: string
  svData :: payload

section \<open>The token reader\<close>

text \<open>What one \<open>BLPOP\<close> returns.\<close>

datatype blpop = PopNil | PopError | PopValues "string list"

text \<open>The chunks the goroutine forwards, and whether it has stopped.\<close>

fun token_reader :: "blpop list \<Rightarrow> string list \<times> bool" where
  "token_reader [] = ([], False)"
| "token_reader (PopNil # pops) = token_reader pops"
| "token_reader (PopError # pops) = ([], True)"
| "token_reader (PopValues vals # pops) =
     (case vals of
        key # val # _ \<Rightarrow>
          if val = StreamDone then ([], True)
          else (let (toks, stopped) = token_reader pops in (val # toks, stopped))
      | _ \<Rightarrow> token_reader pops)"

section \<open>Events\<close>

definition token_event :: "string \<Rightarrow> sse_event" where
  "token_event s = \<lparr>svEvent = ''token'', svData = [(''token'', JStr s)]\<rparr>"

text \<open>
  \<open>emitStepEvents\<close>, one entry: the new phase map and the events. \<^const>\<open>None\<close> is the panic of a missing
  start or completion time.
\<close>

definition step_event ::
  "ArkFlowStepStatus \<Rightarrow> (string \<rightharpoonup> StepPhase) \<Rightarrow> ((string \<rightharpoonup> StepPhase) \<times> sse_event list) option" where
  "step_event st phases =
     (if phases (stName st) = Some (stPhase st) then Some (phases, [])
      else
        let phases = phases(stName st \<mapsto> stPhase st) in
        case stPhase st of
          StepRunning \<Rightarrow>
            Some (phases, [\<lparr>svEvent = ''step.started'', svData = [(''step'', JStr (stName st)), (''phase'', JStr ''Running'')]\<rparr>])
        | StepSucceeded \<Rightarrow>
            (case (stCompletionTime st, stStartTime st) of
               (Some c, Some s0) \<Rightarrow>
                 Some (phases, [\<lparr>svEvent = ''step.completed'',
                   svData = [(''step'', JStr (stName st)), (''output'', JStr (stOutput st)),
                             (''durationMs'', JInt (Milliseconds (time_Sub c s0)))] @
                            (case stTokenUsage st of None \<Rightarrow> [] | Some u \<Rightarrow> [(''tokenUsage'', JUsage u)])\<rparr>])
             | _ \<Rightarrow> None)
        | StepFailed \<Rightarrow> Some (phases, [\<lparr>svEvent = ''step.failed'', svData = [(''step'', JStr (stName st))]\<rparr>])
        | _ \<Rightarrow> Some (phases, []))"

fun emitStepEvents ::
  "ArkFlowStepStatus list \<Rightarrow> (string \<rightharpoonup> StepPhase) \<Rightarrow> ((string \<rightharpoonup> StepPhase) \<times> sse_event list) option" where
  "emitStepEvents [] phases = Some (phases, [])"
| "emitStepEvents (st # sts) phases =
     (case step_event st phases of
        None \<Rightarrow> None
      | Some (phases, evs) \<Rightarrow>
          (case emitStepEvents sts phases of None \<Rightarrow> None | Some (phases, evs') \<Rightarrow> Some (phases, evs @ evs')))"

definition completed_event :: "ArkFlow \<Rightarrow> int \<Rightarrow> sse_event" where
  "completed_event f ms =
     \<lparr>svEvent = ''flow.completed'',
      svData = [(''status'', JStr ''succeeded''), (''output'', JStr (fOutput (flStatus f))), (''durationMs'', JInt ms)] @
               (case fTotalTokenUsage (flStatus f) of None \<Rightarrow> [] | Some u \<Rightarrow> [(''tokenUsage'', JUsage u)])\<rparr>"

definition failed_event :: "ArkFlow \<Rightarrow> int \<Rightarrow> sse_event" where
  "failed_event f ms =
     \<lparr>svEvent = ''flow.failed'',
      svData = [(''status'', JStr ''failed''), (''error'', JText (failure_message f)), (''durationMs'', JInt ms)]\<rparr>"

definition error_event :: "gotext \<Rightarrow> sse_event" where
  "error_event e = \<lparr>svEvent = ''error'', svData = [(''error'', JText e)]\<rparr>"

section \<open>The machine\<close>

text \<open>
  Where the handler is: draining the channel, waiting in its select, draining for the last time after
  the flow succeeded, or done. \<open>ssNil\<close>: the handler's channel variable is nil.
\<close>

datatype sse_pc = Draining | Selecting | Finishing ArkFlow | Ended | Panicked

record sse_state =
  ssQueue :: "string list"
  ssClosed :: bool
  ssNil :: bool
  ssPhases :: "string \<rightharpoonup> StepPhase"
  ssOut :: "sse_event list"
  ssPc :: sse_pc
  ssPushed :: "string list" \<comment> \<open>every chunk the goroutine has pushed, for the specification\<close>

datatype sse_action =
    Push string \<comment> \<open>the goroutine forwards a chunk\<close>
  | CloseChan \<comment> \<open>the goroutine returns\<close>
  | Recv \<comment> \<open>the handler receives from the channel, or finds it empty\<close>
  | Expire gotext
  | Tick "api_error + ArkFlow" int
  | Flush int \<comment> \<open>the last event, when the channel has been closed\<close>

definition sse_init :: "bool \<Rightarrow> sse_state" where
  "sse_init streaming =
     \<lparr>ssQueue = [], ssClosed = (\<not> streaming), ssNil = False, ssPhases = Map.empty, ssOut = [], ssPc = Draining, ssPushed = []\<rparr>"

text \<open>Whether \<open>startTokenStream\<close> starts its goroutine.\<close>

definition streams_tokens :: "string \<Rightarrow> string option \<Rightarrow> bool" where
  "streams_tokens streamKey rdb \<longleftrightarrow> \<not> (streamKey = [] \<or> rdb = None)"

definition emit_out :: "sse_event list \<Rightarrow> sse_state \<Rightarrow> sse_state" where
  "emit_out evs s = s\<lparr>ssOut := ssOut s @ evs\<rparr>"

text \<open>Receive one chunk and send it on.\<close>

definition forward :: "sse_state \<Rightarrow> sse_state" where
  "forward s = emit_out [token_event (hd (ssQueue s))] (s\<lparr>ssQueue := tl (ssQueue s)\<rparr>)"

definition tick_flow :: "ArkFlow \<Rightarrow> int \<Rightarrow> sse_state \<Rightarrow> sse_state" where
  "tick_flow f ms s =
     (case emitStepEvents (fSteps (flStatus f)) (ssPhases s) of
        None \<Rightarrow> s\<lparr>ssPc := Panicked\<rparr>
      | Some (phases, evs) \<Rightarrow>
          (let s = emit_out evs (s\<lparr>ssPhases := phases\<rparr>) in
           case fPhase (flStatus f) of
             FlowSucceeded \<Rightarrow>
               if ssNil s then emit_out [completed_event f ms] (s\<lparr>ssPc := Ended\<rparr>)
               else s\<lparr>ssPc := Finishing f\<rparr>
           | FlowFailed \<Rightarrow> emit_out [failed_event f ms] (s\<lparr>ssPc := Ended\<rparr>)
           | _ \<Rightarrow> s\<lparr>ssPc := Draining\<rparr>))"

fun sse_act :: "sse_action \<Rightarrow> sse_state \<Rightarrow> sse_state option" where
  "sse_act (Push c) s =
     (if ssClosed s \<or> 256 \<le> length (ssQueue s) then None
      else Some (s\<lparr>ssQueue := ssQueue s @ [c], ssPushed := ssPushed s @ [c]\<rparr>))"
| "sse_act CloseChan s = (if ssClosed s then None else Some (s\<lparr>ssClosed := True\<rparr>))"
| "sse_act Recv s =
     (case ssPc s of
        Draining \<Rightarrow>
          Some (if ssNil s then s\<lparr>ssPc := Selecting\<rparr>
                else if ssQueue s \<noteq> [] then forward s
                else if ssClosed s then s\<lparr>ssNil := True, ssPc := Selecting\<rparr>
                else s\<lparr>ssPc := Selecting\<rparr>)
      | Selecting \<Rightarrow>
          if ssNil s then None
          else if ssQueue s \<noteq> [] then Some ((forward s)\<lparr>ssPc := Draining\<rparr>)
          else if ssClosed s then Some (s\<lparr>ssPc := Draining\<rparr>)
          else None
      | Finishing f \<Rightarrow> if ssQueue s \<noteq> [] then Some (forward s) else None
      | _ \<Rightarrow> None)"
| "sse_act (Expire timeout) s =
     (if ssPc s = Selecting then Some (emit_out [error_event (TFmt ''timed out after %s'' [GText timeout])] (s\<lparr>ssPc := Ended\<rparr>))
      else None)"
| "sse_act (Tick r ms) s =
     (if ssPc s = Selecting
      then Some (case r of
                   Inl err \<Rightarrow> emit_out [error_event (api_text err)] (s\<lparr>ssPc := Ended\<rparr>)
                 | Inr f \<Rightarrow> tick_flow f ms s)
      else None)"
| "sse_act (Flush ms) s =
     (case ssPc s of
        Finishing f \<Rightarrow>
          if ssQueue s = [] \<and> ssClosed s then Some (emit_out [completed_event f ms] (s\<lparr>ssPc := Ended\<rparr>)) else None
      | _ \<Rightarrow> None)"

inductive sse_reachable :: "bool \<Rightarrow> sse_state \<Rightarrow> bool" for streaming where
  start: "sse_reachable streaming (sse_init streaming)"
| step: "sse_reachable streaming s \<Longrightarrow> sse_act a s = Some s' \<Longrightarrow> sse_reachable streaming s'"

inductive_cases sse_reachableE: "sse_reachable streaming s"

fun sse_run :: "sse_action list \<Rightarrow> sse_state \<Rightarrow> sse_state option" where
  "sse_run [] s = Some s"
| "sse_run (a # as) s = (case sse_act a s of None \<Rightarrow> None | Some s' \<Rightarrow> sse_run as s')"

lemma sse_run_reachable: "sse_reachable streaming s \<Longrightarrow> sse_run as s = Some s' \<Longrightarrow> sse_reachable streaming s'"
  by (induction as arbitrary: s) (auto split: option.splits intro: sse_reachable.step)

section \<open>No token is lost, reordered or repeated\<close>

definition tokens_of :: "sse_event list \<Rightarrow> sse_event list" where
  "tokens_of evs = filter (\<lambda>e. svEvent e = ''token'') evs"

definition final_event :: "sse_event \<Rightarrow> bool" where
  "final_event e \<longleftrightarrow> svEvent e \<in> {''flow.completed'', ''flow.failed'', ''error''}"

text \<open>The invariant: what was sent plus what is queued is what was pushed; the last event is final
  exactly when the handler has ended.\<close>

definition sse_inv :: "sse_state \<Rightarrow> bool" where
  "sse_inv s \<longleftrightarrow>
     tokens_of (ssOut s) @ map token_event (ssQueue s) = map token_event (ssPushed s) \<and>
     (ssNil s \<longrightarrow> ssQueue s = [] \<and> ssClosed s) \<and>
     (if ssPc s = Ended then ssOut s \<noteq> [] \<and> final_event (last (ssOut s)) \<and> \<not> list_ex final_event (butlast (ssOut s))
      else \<not> list_ex final_event (ssOut s)) \<and>
     (ssPc s = Ended \<and> svEvent (last (ssOut s)) = ''flow.completed'' \<longrightarrow> ssQueue s = [] \<and> ssClosed s)"

lemma tokens_of_append [simp]: "tokens_of (xs @ ys) = tokens_of xs @ tokens_of ys"
  by (simp add: tokens_of_def)

lemma tokens_of_single [simp]: "tokens_of [token_event c] = [token_event c]"
  by (simp add: tokens_of_def token_event_def)

lemma token_not_final [simp]: "\<not> final_event (token_event c)"
  by (simp add: final_event_def token_event_def)

lemma finals [simp]:
  "final_event (completed_event f ms)" "final_event (failed_event f ms)" "final_event (error_event e)"
  "tokens_of [completed_event f ms] = []" "tokens_of [failed_event f ms] = []" "tokens_of [error_event e] = []"
  "svEvent (failed_event f ms) = ''flow.failed''" "svEvent (error_event e) = ''error''"
  by (simp_all add: final_event_def tokens_of_def completed_event_def failed_event_def error_event_def)

lemma step_event_kind:
  "step_event st phases = Some (phases', evs) \<Longrightarrow> tokens_of evs = [] \<and> \<not> list_ex final_event evs"
  by (auto simp: step_event_def tokens_of_def final_event_def Let_def split: StepPhase.splits if_splits option.splits)

lemma emitStepEvents_kind:
  "emitStepEvents sts phases = Some (phases', evs) \<Longrightarrow> tokens_of evs = [] \<and> \<not> list_ex final_event evs"
proof (induction sts arbitrary: phases phases' evs)
  case Nil
  then show ?case by (simp add: tokens_of_def)
next
  case (Cons st sts)
  then obtain p1 e1 p2 e2 where one: "step_event st phases = Some (p1, e1)"
    and rest: "emitStepEvents sts p1 = Some (p2, e2)" and evs: "evs = e1 @ e2"
    by (auto split: option.splits)
  show ?case using step_event_kind [OF one] Cons.IH [OF rest] evs by simp
qed

lemma emit_out_fields [simp]:
  "ssOut (emit_out evs s) = ssOut s @ evs" "ssQueue (emit_out evs s) = ssQueue s" "ssClosed (emit_out evs s) = ssClosed s"
  "ssNil (emit_out evs s) = ssNil s" "ssPc (emit_out evs s) = ssPc s" "ssPushed (emit_out evs s) = ssPushed s"
  by (simp_all add: emit_out_def)

lemma forward_fields [simp]:
  "ssOut (forward s) = ssOut s @ [token_event (hd (ssQueue s))]" "ssQueue (forward s) = tl (ssQueue s)"
  "ssClosed (forward s) = ssClosed s" "ssNil (forward s) = ssNil s" "ssPc (forward s) = ssPc s"
  "ssPushed (forward s) = ssPushed s"
  by (simp_all add: forward_def)


lemma inv_forward:
  assumes "sse_inv s" and "ssQueue s \<noteq> []" and "ssPc s \<noteq> Ended"
  shows "sse_inv (forward s)" and "p \<noteq> Ended \<Longrightarrow> sse_inv ((forward s)\<lparr>ssPc := p\<rparr>)"
  using assms by (cases "ssQueue s"; auto simp: sse_inv_def)+

lemma inv_pc:
  "sse_inv s \<Longrightarrow> ssPc s \<noteq> Ended \<Longrightarrow> p \<noteq> Ended \<Longrightarrow> sse_inv (s\<lparr>ssPc := p\<rparr>)"
  by (simp add: sse_inv_def)

lemma inv_phases: "sse_inv s \<Longrightarrow> sse_inv (s\<lparr>ssPhases := p\<rparr>)"
  by (simp add: sse_inv_def)

lemma inv_emit:
  assumes "sse_inv s" and "ssPc s \<noteq> Ended" and "tokens_of evs = []" and "\<not> list_ex final_event evs"
  shows "sse_inv (emit_out evs s)"
  using assms by (auto simp: sse_inv_def)

lemma inv_final:
  assumes "sse_inv s" and "ssPc s \<noteq> Ended" and "final_event e" and "tokens_of [e] = []"
    and "svEvent e = ''flow.completed'' \<Longrightarrow> ssQueue s = [] \<and> ssClosed s"
  shows "sse_inv (emit_out [e] (s\<lparr>ssPc := Ended\<rparr>))"
  using assms by (auto simp: sse_inv_def)

lemma inv_tick:
  assumes "sse_inv s" and "ssPc s \<noteq> Ended"
  shows "sse_inv (tick_flow f ms s)"
proof (cases "emitStepEvents (fSteps (flStatus f)) (ssPhases s)")
  case None
  with assms show ?thesis by (simp add: tick_flow_def inv_pc)
next
  case (Some r)
  obtain phases evs where r: "r = (phases, evs)" by fastforce
  let ?s = "emit_out evs (s\<lparr>ssPhases := phases\<rparr>)"
  have inv: "sse_inv ?s"
    using emitStepEvents_kind [of "fSteps (flStatus f)"] Some r assms by (intro inv_emit inv_phases) auto
  have pc: "ssPc ?s \<noteq> Ended" using assms(2) by simp
  have nil: "ssNil s \<Longrightarrow> ssQueue s = [] \<and> ssClosed s" using assms(1) by (simp add: sse_inv_def)
  have tick: "tick_flow f ms s =
      (case fPhase (flStatus f) of
         FlowSucceeded \<Rightarrow>
           if ssNil s then emit_out [completed_event f ms] (?s\<lparr>ssPc := Ended\<rparr>) else ?s\<lparr>ssPc := Finishing f\<rparr>
       | FlowFailed \<Rightarrow> emit_out [failed_event f ms] (?s\<lparr>ssPc := Ended\<rparr>)
       | _ \<Rightarrow> ?s\<lparr>ssPc := Draining\<rparr>)"
    using Some r by (simp add: tick_flow_def Let_def split: FlowPhase.split)
  show ?thesis
    unfolding tick
    using inv pc nil by (auto intro!: inv_pc inv_final split: FlowPhase.split)
qed

lemma sse_act_inv:
  assumes "sse_inv s" and "sse_act a s = Some s'"
  shows "sse_inv s'"
proof (cases a)
  case (Push c)
  with assms show ?thesis by (auto simp: sse_inv_def split: if_splits)
next
  case CloseChan
  with assms show ?thesis by (auto simp: sse_inv_def split: if_splits)
next
  case Recv
  have nil: "sse_inv (s\<lparr>ssNil := True, ssPc := Selecting\<rparr>)" if "ssQueue s = []" "ssClosed s" "ssPc s \<noteq> Ended"
    using assms(1) that by (simp add: sse_inv_def)
  from Recv assms show ?thesis
    by (auto split: sse_pc.splits if_splits intro: inv_forward inv_pc nil)
next
  case (Expire t)
  with assms show ?thesis by (auto split: if_splits intro!: inv_final)
next
  case (Tick r ms)
  with assms show ?thesis by (auto split: if_splits sum.splits intro!: inv_final inv_tick)
next
  case (Flush ms)
  with assms show ?thesis by (auto split: if_splits sse_pc.splits intro!: inv_final)
qed

lemma sse_reachable_inv: "sse_reachable streaming s \<Longrightarrow> sse_inv s"
proof (induction rule: sse_reachable.induct)
  case start
  show ?case by (simp add: sse_inv_def sse_init_def tokens_of_def)
next
  case (step s a s')
  then show ?case by (blast intro: sse_act_inv)
qed

section \<open>The reader and the publisher\<close>

text \<open>Chunks published one by one and ended by the marker arrive as they were sent.\<close>

lemma token_reader_done:
  "StreamDone \<notin> set chunks \<Longrightarrow>
     token_reader (map (\<lambda>c. PopValues [key, c]) (chunks @ [StreamDone]) @ pops) = (chunks, True)"
  by (induction chunks) auto

lemma token_reader_nils:
  "token_reader pops = token_reader (filter (\<lambda>p. p \<noteq> PopNil) pops)"
  by (induction pops rule: token_reader.induct) (auto split: list.splits prod.splits)

section \<open>The panic is never reached\<close>

lemma step_event_ok:
  "(stPhase st = StepSucceeded \<longrightarrow> stStartTime st \<noteq> None \<and> stCompletionTime st \<noteq> None) \<Longrightarrow> step_event st phases \<noteq> None"
  by (auto simp: step_event_def Let_def split: StepPhase.splits)

lemma emitStepEvents_ok:
  "\<forall>st \<in> set sts. stPhase st = StepSucceeded \<longrightarrow> stStartTime st \<noteq> None \<and> stCompletionTime st \<noteq> None \<Longrightarrow>
     emitStepEvents sts phases \<noteq> None"
proof (induction sts arbitrary: phases)
  case Nil
  show ?case by simp
next
  case (Cons st sts)
  then obtain p1 e1 where "step_event st phases = Some (p1, e1)"
    using step_event_ok [of st phases] by auto
  with Cons.IH [of p1] Cons.prems show ?case by (auto split: option.split)
qed

lemma tick_not_panicked:
  assumes "list_all (st_ok E) (fSteps (flStatus f))"
  shows "ssPc (tick_flow f ms s) \<noteq> Panicked"
proof -
  have "emitStepEvents (fSteps (flStatus f)) (ssPhases s) \<noteq> None"
    by (rule emitStepEvents_ok) (use assms in \<open>auto simp: list_all_iff st_ok_def\<close>)
  then show ?thesis by (auto simp: tick_flow_def Let_def split: FlowPhase.splits if_splits)
qed

lemma act_not_panicked:
  assumes "sse_act a s = Some s'" and "ssPc s \<noteq> Panicked"
    and "\<And>f ms. a = Tick (Inr f) ms \<Longrightarrow> list_all (st_ok E) (fSteps (flStatus f))"
  shows "ssPc s' \<noteq> Panicked"
proof (cases a)
  case (Tick r ms)
  with assms show ?thesis by (auto split: if_splits sum.splits simp: tick_not_panicked)
qed (use assms in \<open>auto split: if_splits sse_pc.splits\<close>)

lemma run_not_panicked:
  "sse_run as s = Some s' \<Longrightarrow> \<forall>f ms. Tick (Inr f) ms \<in> set as \<longrightarrow> list_all (st_ok E) (fSteps (flStatus f)) \<Longrightarrow>
     ssPc s \<noteq> Panicked \<Longrightarrow> ssPc s' \<noteq> Panicked"
proof (induction as arbitrary: s)
  case Nil
  then show ?case by simp
next
  case (Cons a as)
  then obtain s1 where s1: "sse_act a s = Some s1" "sse_run as s1 = Some s'" by (auto split: option.splits)
  have "ssPc s1 \<noteq> Panicked" by (rule act_not_panicked [OF s1(1) Cons.prems(3)]) (use Cons.prems(2) in auto)
  moreover have "\<forall>f ms. Tick (Inr f) ms \<in> set as \<longrightarrow> list_all (st_ok E) (fSteps (flStatus f))"
    using Cons.prems(2) by auto
  ultimately show ?case using Cons.IH [OF s1(2)] by blast
qed

end
