(* ===== verification/EventProps.thy ===== *)
theory EventProps
  imports EventFire WebhookStream Samples
begin

text \<open>
  The properties of triggers: when they fire, what a firing creates, who may fire one over HTTP, and what
  a caller who waits or streams gets to see.
\<close>

section \<open>Samples\<close>

definition sample_trigger :: "TriggerSourceType \<Rightarrow> ArkEvent" where
  "sample_trigger src =
     \<lparr>evMeta = sample_meta ''t'',
      evSpec = \<lparr>esSource = \<lparr>srcType = src, srcCron = ''* * * * *'', srcPipelineOutput = None\<rparr>,
        esTargets = [\<lparr>tgPipeline = ''flow'', tgInput = [(''topic'', ''news'')]\<rparr>], esConcurrencyPolicy = ConcurrencyForbid,
        esSuspended = False\<rparr>,
      evStatus = \<lparr>eLastFiredAt = None, eNextFireAt = None, eFiredCount = 0, eWebhookURL = [], eObservedGeneration = 0,
        eConditions = []\<rparr>\<rparr>"

text \<open>Every minute.\<close>

definition each_minute :: "time \<Rightarrow> time" where
  "each_minute t = (t div 60000000000 + 1) * 60000000000"

lemma minute_bounds: "t div 60000000000 * 60000000000 \<le> t" "t < (t div 60000000000 + 1) * 60000000000" for t :: int
proof -
  have "0 \<le> t mod 60000000000" "t mod 60000000000 < 60000000000" by simp_all
  then show "t div 60000000000 * 60000000000 \<le> t" "t < (t div 60000000000 + 1) * 60000000000"
    using div_mult_mod_eq [of t 60000000000] unfolding distrib_right by linarith+
qed

lemma minute_schedule: "schedule_of each_minute (range (\<lambda>k. k * 60000000000))"
proof -
  have "(t div 60000000000 + 1) * 60000000000 \<le> k * 60000000000" if "t < k * 60000000000" for t k :: int
  proof -
    from that minute_bounds(1) [of t] have "t div 60000000000 < k" by linarith
    then show ?thesis by simp
  qed
  then show ?thesis
    unfolding schedule_of_def each_minute_def using minute_bounds(2) by blast
qed

text \<open>
  A world that is a clock and the secrets created so far. It holds the trigger and the template flow, and
  no flow that was started by the trigger.
\<close>

definition sample_event_api :: "ArkEvent \<Rightarrow> (int \<times> SecretObj list) event_api" where
  "sample_event_api t =
     \<lparr>eaGetEvent = (\<lambda>w req. Inr t), eaGetFlow = (\<lambda>w req. Inr sample_flow),
      eaGetSecret = (\<lambda>w req. case find (\<lambda>s. scName s = nnName req) (snd w) of
         None \<Rightarrow> Inl (ApiNotFound (TLit ''no'')) | Some s \<Rightarrow> Inr s),
      eaListFlows = (\<lambda>w ns l. Inr []), eaListEvents = (\<lambda>w ns. Inr [t]),
      eaSetFlowOwner = (\<lambda>t f. Inr (f\<lparr>flMeta := (flMeta f)\<lparr>mController := Some (mName (evMeta t))\<rparr>\<rparr>)),
      eaSetSecretOwner = (\<lambda>t s. Inr (s\<lparr>scOwner := Some (mName (evMeta t))\<rparr>)),
      eaCreateFlow = (\<lambda>f w. (None, w)), eaCreateSecret = (\<lambda>s w. (None, fst w, s # snd w)),
      eaUpdateStatus = (\<lambda>t w. (None, w)), eaNow = (\<lambda>w. (fst w, fst w + 1, snd w)),
      eaRandom = (\<lambda>n w. (Inr (replicate n CHR 0xAB), w)),
      eaParseStandard = (\<lambda>s. Inr each_minute), eaRFC3339 = (\<lambda>t. ''now''), eaStamp = (\<lambda>t. ''stamp'')\<rparr>"

lemma sample_flow_owner: "flow_owner_law (sample_event_api t)"
  by (simp add: flow_owner_law_def sample_event_api_def)

section \<open>Schedules\<close>

text \<open>
  C11: A reconcile of a cron trigger returns, and fires exactly when its schedule has an instant since the last
  firing, or since a day ago if that is later. Then the flows of the targets are created and the firing is
  recorded; otherwise nothing is created and the record stays. The next firing shown is the next
  instant of the schedule.
\<close>

theorem reconcileCron_fires:
  assumes S: "schedule_of step S" and expr: "srcCron (esSource (evSpec t)) \<noteq> []"
    and parsed: "eaParseStandard A (srcCron (esSource (evSpec t))) = Inr step" and now: "eaNow A w = (now, w1)"
  shows "\<exists>r w' log. reconcileCron E (logged_events A) t (w, []) = Some (r, w', log) \<and>
     (if due S (eLastFiredAt (evStatus t)) now = {}
      then log = [] \<and> (\<exists>res t'. r = Inr (res, t') \<and> eLastFiredAt (evStatus t') = eLastFiredAt (evStatus t) \<and>
             eFiredCount (evStatus t') = eFiredCount (evStatus t) \<and> eNextFireAt (evStatus t') = Some (step now))
      else log = snd (snd (fire E (logged_events A) t \<lparr>fcName = mName (evMeta t), fcFiredAt = eaRFC3339 A now, fcOutput = [],
                fcBody = Map.empty, fcStreamKey = []\<rparr> (w1, []))) \<and>
        (\<forall>res t'. r = Inr (res, t') \<longrightarrow> eLastFiredAt (evStatus t') = Some now \<and>
             eFiredCount (evStatus t') = eFiredCount (evStatus t) + 1 \<and> eNextFireAt (evStatus t') = Some (step now)))"
proof -
  let ?lf = "eLastFiredAt (evStatus t)"
  let ?fc = "\<lparr>fcName = mName (evMeta t), fcFiredAt = eaRFC3339 A now, fcOutput = [], fcBody = Map.empty, fcStreamKey = []\<rparr>"
  from mostRecentSchedule_due [OF S, of now ?lf] obtain m where m: "mostRecentSchedule step now ?lf = Some m"
    and due: "should_fire m ?lf \<longleftrightarrow> due S ?lf now \<noteq> {}" by blast
  have run: "reconcileCron E (logged_events A) t (w, []) =
     Some (if due S ?lf now \<noteq> {}
           then (case fire E (logged_events A) t ?fc (w1, []) of
                   (Inl err, w) \<Rightarrow> (Inl err, w)
                 | (Inr _, w) \<Rightarrow> cron_finish (logged_events A) step now (record_fired now t) w)
           else cron_finish (logged_events A) step now t (w1, []))"
    using expr parsed now m due by (simp add: reconcileCron_def Let_def)
  show ?thesis
  proof (cases "due S ?lf now = {}")
    case True
    obtain res t' w' where fin: "cron_finish (logged_events A) step now t (w1, []) = (Inr (res, t'), w', [])"
      and t': "eLastFiredAt (evStatus t') = ?lf" "eFiredCount (evStatus t') = eFiredCount (evStatus t)"
      "eNextFireAt (evStatus t') = Some (step now)"
      using cron_finish_log [of A step now t w1 "[]"] by blast
    with run True show ?thesis by auto
  next
    case False
    obtain fr w2 log where f: "fire E (logged_events A) t ?fc (w1, []) = (fr, w2, log)" by (metis prod_cases3)
    show ?thesis
    proof (cases fr)
      case (Inl err)
      with run False f show ?thesis by simp
    next
      case (Inr flows)
      obtain res t' w' where fin: "cron_finish (logged_events A) step now (record_fired now t) (w2, log) = (Inr (res, t'), w', log)"
        and t': "eLastFiredAt (evStatus t') = Some now" "eFiredCount (evStatus t') = eFiredCount (evStatus t) + 1"
        "eNextFireAt (evStatus t') = Some (step now)"
        using cron_finish_log [of A step now "record_fired now t" w2 log] by (auto simp: record_fired_def)
      with run False f Inr show ?thesis by simp
    qed
  qed
qed

theorem reconcileCron_fires_witness:
  "\<exists>r w' log. reconcileCron sample_ext (logged_events (sample_event_api (sample_trigger TriggerSourceCron)))
      (sample_trigger TriggerSourceCron) ((90000000000, []), []) = Some (r, w', log) \<and> log \<noteq> []"
proof -
  let ?t = "sample_trigger TriggerSourceCron" and ?A = "sample_event_api (sample_trigger TriggerSourceCron)"
  let ?S = "range (\<lambda>k. k * 60000000000) :: time set"
  have a: "srcCron (esSource (evSpec ?t)) \<noteq> []" "eaParseStandard ?A (srcCron (esSource (evSpec ?t))) = Inr each_minute"
    "eaNow ?A (90000000000, []) = (90000000000, (90000000001, []))"
    by (simp_all add: sample_trigger_def sample_event_api_def)
  have "60000000000 \<in> due ?S None 90000000000"
    by (auto simp: due_def lookback_eq intro: range_eqI [of _ _ 1])
  moreover have "eLastFiredAt (evStatus ?t) = None" by (simp add: sample_trigger_def)
  ultimately have "due ?S (eLastFiredAt (evStatus ?t)) 90000000000 \<noteq> {}" by auto
  moreover have "snd (snd (fire sample_ext (logged_events ?A) ?t \<lparr>fcName = mName (evMeta ?t), fcFiredAt = eaRFC3339 ?A 90000000000,
      fcOutput = [], fcBody = Map.empty, fcStreamKey = []\<rparr> ((90000000001, []), []))) \<noteq> []"
    by (simp add: fire_def sample_trigger_def hasRunningFlow_def buildFlow_def sample_event_api_def logged_events_def
        sample_ext_def resolveTriggerTemplate_def)
  ultimately show ?thesis
    using reconcileCron_fires [OF minute_schedule a, of sample_ext] by auto
qed



section \<open>Firing\<close>

text \<open>
  C13: A firing that is held back by the Forbid policy creates nothing. Any other creates, in the order of the
  targets, a run of the template of each target, up to the first target that fails; the run has the
  steps, the output and the limits of the template, its inputs overridden by those of the target, and no
  status yet. The flows returned are the flows created.
\<close>

theorem fire_dispatches:
  assumes "flow_owner_law A" and "fire E (logged_events A) t fc (w, []) = (r, w', log)"
  shows "if held_back A t w then log = [] \<and> (r = Inr [] \<or> isl r)
     else \<exists>k \<le> length (esTargets (evSpec t)).
       list_all2 (dispatched_for E A t fc) (take k (esTargets (evSpec t))) (created log) \<and>
       (case r of Inr flows \<Rightarrow> k = length (esTargets (evSpec t)) \<and> flows = created log
                | Inl _ \<Rightarrow> k < length (esTargets (evSpec t)))"
  using assms by (rule fire_creates)

definition sample_fire :: FireContext where
  "sample_fire = \<lparr>fcName = ''t'', fcFiredAt = ''now'', fcOutput = [], fcBody = Map.empty, fcStreamKey = []\<rparr>"

theorem fire_dispatches_witness:
  "\<exists>r w' log. fire sample_ext (logged_events (sample_event_api (sample_trigger TriggerSourceCron)))
      (sample_trigger TriggerSourceCron) sample_fire ((0, []), []) = (r, w', log) \<and> length (created log) \<le> 1"
proof -
  let ?t = "sample_trigger TriggerSourceCron" and ?A = "sample_event_api (sample_trigger TriggerSourceCron)"
  obtain r w' log where f: "fire sample_ext (logged_events ?A) ?t sample_fire ((0, []), []) = (r, w', log)"
    by (metis prod_cases3)
  have "\<not> held_back ?A ?t (0, [])" by (simp add: held_back_def sample_event_api_def)
  with fire_dispatches [OF sample_flow_owner f] obtain k where "k \<le> length (esTargets (evSpec ?t))"
    "list_all2 (dispatched_for sample_ext ?A ?t sample_fire) (take k (esTargets (evSpec ?t))) (created log)" by auto
  then have "length (created log) \<le> length (esTargets (evSpec ?t))" by (auto dest: list_all2_lengthD)
  with f show ?thesis by (simp add: sample_trigger_def)
qed

text \<open>
  Flows that have just been dispatched do not hold the next firing back: the policy looks for the phase
  Running, which a flow only gets from its own first reconcile. Two firings of a trigger that forbids
  concurrency overlap when the second comes before that.
\<close>

theorem forbid_misses_new_flows:
  assumes "eaListFlows A w (mNamespace (evMeta t)) (''arkonis.dev/trigger'', mName (evMeta t)) = Inr flows"
    and "\<forall>f \<in> set flows. \<exists>target. dispatched_for E B t fc target f"
  shows "hasRunningFlow A t w = Inr False"
  using assms by (auto simp: hasRunningFlow_def list_ex_iff dispatched_for_def run_of_def empty_flow_status_def)

theorem forbid_misses_new_flows_witness:
  "\<exists>flows. flows \<noteq> [] \<and> hasRunningFlow ((sample_event_api (sample_trigger TriggerSourceCron))\<lparr>eaListFlows := \<lambda>w ns l. Inr flows\<rparr>)
     (sample_trigger TriggerSourceCron) (0, []) = Inr False"
proof -
  let ?t = "sample_trigger TriggerSourceCron" and ?A = "sample_event_api (sample_trigger TriggerSourceCron)"
  let ?target = "\<lparr>tgPipeline = ''flow'', tgInput = [(''topic'', ''news'')]\<rparr>"
  obtain flow w' l' where b: "buildFlow sample_ext (logged_events ?A) ?t ?target sample_fire ((0, []), []) = (Inr flow, w', l')"
    by (simp add: buildFlow_def sample_event_api_def sample_ext_def resolveTriggerTemplate_def logged_events_def)
  have d: "dispatched_for sample_ext ?A ?t sample_fire ?target flow"
    using buildFlow_dispatched [OF sample_flow_owner b] by simp
  let ?B = "?A\<lparr>eaListFlows := \<lambda>w ns l. Inr [flow]\<rparr>"
  have "eaListFlows ?B (0, []) (mNamespace (evMeta ?t)) (''arkonis.dev/trigger'', mName (evMeta ?t)) = Inr [flow]" by simp
  from forbid_misses_new_flows [OF this] d show ?thesis by (intro exI [of _ "[flow]"]) auto
qed

section \<open>The status of a trigger\<close>



end
