(* ===== verification/WebhookProps.thy ===== *)
theory WebhookProps
  imports EventProps
begin

text \<open>
  The properties of the webhook server: who may fire a trigger, what a caller who waits is told, and what
  the event stream shows.
\<close>

section \<open>The synchronous wait\<close>

text \<open>The world after \<open>k\<close> rounds of the select of a wait.\<close>

definition after_rounds :: "'w server_env \<Rightarrow> nat \<Rightarrow> 'w \<Rightarrow> 'w" where
  "after_rounds S k w = ((\<lambda>w. snd (seSelect S w)) ^^ k) w"

definition deadline_comes :: "'w server_env \<Rightarrow> 'w \<Rightarrow> bool" where
  "deadline_comes S w \<longleftrightarrow> (\<exists>k. fst (seSelect S (after_rounds S k w)) \<noteq> None)"

lemma waitForFlow_returns:
  assumes "fst (seSelect S (after_rounds S k w)) \<noteq> None"
  shows "\<exists>r. waitForFlow S A key w = Some r"
  using assms
proof (induction k arbitrary: w)
  case 0
  then obtain err w1 where "seSelect S w = (Some err, w1)" by (cases "seSelect S w") (auto simp: after_rounds_def)
  then show ?case by (subst waitForFlow.simps) simp
next
  case (Suc k)
  obtain e w1 where sel: "seSelect S w = (e, w1)" by fastforce
  from Suc.prems sel have "fst (seSelect S (after_rounds S k w1)) \<noteq> None"
    by (simp add: after_rounds_def funpow_Suc_right del: funpow.simps)
  with Suc.IH obtain r where "waitForFlow S A key w1 = Some r" by blast
  with sel show ?case by (subst waitForFlow.simps) (auto split: option.split sum.split)
qed

lemma waitForFlow_result:
  assumes "waitForFlow S A key w = Some r"
  shows "\<forall>res w'. r = (Inr res, w') \<longrightarrow> (\<exists>u f. eaGetFlow A u key = Inr f \<and> sync_result f = Some res)"
proof (rule waitForFlow.raw_induct [where P = "\<lambda>S A key w r. \<forall>res w'. r = (Inr res, w') \<longrightarrow>
    (\<exists>u f. eaGetFlow A u key = Inr f \<and> sync_result f = Some res)", OF _ assms])
  fix wait S A key w r
  assume IH: "\<And>S A key w r. wait S A key w = Some r \<Longrightarrow> \<forall>res w'. r = (Inr res, w') \<longrightarrow>
      (\<exists>u f. eaGetFlow A u key = Inr f \<and> sync_result f = Some res)"
    and run: "(case seSelect S w of
        (Some err, w) \<Rightarrow> Some (Inl err, w)
      | (None, w) \<Rightarrow>
          (case eaGetFlow A w key of
             Inl err \<Rightarrow> Some (Inl (api_text err), w)
           | Inr f \<Rightarrow> (case sync_result f of Some res \<Rightarrow> Some (Inr res, w) | None \<Rightarrow> wait S A key w))) = Some r"
  from run show "\<forall>res w'. r = (Inr res, w') \<longrightarrow> (\<exists>u f. eaGetFlow A u key = Inr f \<and> sync_result f = Some res)"
    using IH by (fastforce split: prod.splits option.splits sum.splits)
qed

lemma sync_result_cases:
  assumes "sync_result f = Some res"
  shows "(fPhase (flStatus f) = FlowSucceeded \<and> srStatus res = ''succeeded'') \<or>
     (fPhase (flStatus f) = FlowFailed \<and> srStatus res = ''failed'')"
  using assms by (auto simp: sync_result_def split: FlowPhase.splits)

text \<open>
  C31: A caller who waits is answered when the deadline of its context comes, if not before, and the timeout
  is never longer than five minutes. The answer 200 says that the flow succeeded and 500 with a result that it failed, and it did; 504 says that the
  deadline passed.
\<close>

theorem handleSync_answers:
  assumes "deadline_comes S (snd (eaNow A (seWithTimeout S (parseSyncTimeout S r) w)))"
  shows "sint (parseSyncTimeout S r) \<le> 300000000000 \<and>
     (\<exists>rep w'. handleSync S A r [flow] w = Some (rep, w') \<and>
        (case rep of
           HttpJSON code p \<Rightarrow>
             (code = 504 \<and> (\<exists>u. seDone S u)) \<or>
             (\<exists>u f. eaGetFlow A u (flow_key flow) = Inr f \<and>
                (fPhase (flStatus f) = FlowSucceeded \<and> code = 200 \<and> (''status'', JStr ''succeeded'') \<in> set p \<or>
                 fPhase (flStatus f) = FlowFailed \<and> code = 500 \<and> (''status'', JStr ''failed'') \<in> set p))
         | HttpError msg code \<Rightarrow> code = 500
         | EventStream _ _ _ \<Rightarrow> False))"
proof
  show "sint (parseSyncTimeout S r) \<le> 300000000000"
    by (simp add: parseSyncTimeout_def Let_def maxSyncTimeout_def Minute_def Second_def)
  let ?w = "seWithTimeout S (parseSyncTimeout S r) w"
  obtain start w1 where now: "eaNow A ?w = (start, w1)" by fastforce
  from assms now obtain res w2 where wait: "waitForFlow S A (flow_key flow) w1 = Some (res, w2)"
    using waitForFlow_returns unfolding deadline_comes_def by (metis snd_conv surj_pair)
  obtain stop w3 where now2: "eaNow A w2 = (stop, w3)" by fastforce
  show "\<exists>rep w'. handleSync S A r [flow] w = Some (rep, w') \<and>
        (case rep of
           HttpJSON code p \<Rightarrow>
             (code = 504 \<and> (\<exists>u. seDone S u)) \<or>
             (\<exists>u f. eaGetFlow A u (flow_key flow) = Inr f \<and>
                (fPhase (flStatus f) = FlowSucceeded \<and> code = 200 \<and> (''status'', JStr ''succeeded'') \<in> set p \<or>
                 fPhase (flStatus f) = FlowFailed \<and> code = 500 \<and> (''status'', JStr ''failed'') \<in> set p))
         | HttpError msg code \<Rightarrow> code = 500
         | EventStream _ _ _ \<Rightarrow> False)"
  proof (cases res)
    case (Inl err)
    with now now2 wait show ?thesis by (auto simp: handleSync_def Let_def)
  next
    case (Inr result)
    from waitForFlow_result [OF wait] Inr obtain u f where f: "eaGetFlow A u (flow_key flow) = Inr f" "sync_result f = Some result"
      by blast
    have "(''status'', JStr (srStatus result)) \<in> set (sync_payload result ms)" for ms by (simp add: sync_payload_def)
    with now now2 wait Inr f sync_result_cases [OF f(2)] show ?thesis
      by (auto simp: handleSync_def Let_def) metis+
  qed
qed

text \<open>Two polls, then the deadline; the flow is found running.\<close>

definition sample_server :: "(int \<times> SecretObj list) server_env" where
  "sample_server = \<lparr>seParseURL = (\<lambda>u. Inr u), seParseDuration = (\<lambda>d. Inr Hour), seWithTimeout = (\<lambda>d w. w),
     seSelect = (\<lambda>w. (if 3 \<le> fst w then Some (TLit ''deadline'') else None, fst w + 1, snd w)), seDone = (\<lambda>w. 3 \<le> fst w),
     seFlusher = True\<rparr>"

definition sample_post :: "string \<Rightarrow> http_in" where
  "sample_post token = \<lparr>rqPath = ''/triggers/default/t/fire'', rqMethod = ''POST'', rqAuthorization = ''Bearer '' @ token,
     rqQuery = (\<lambda>k. if k = ''timeout'' then ''1h'' else []), rqContentLength = 0, rqBody = ([], None)\<rparr>"

theorem handleSync_answers_witness:
  "\<exists>p w'. handleSync sample_server (sample_event_api (sample_trigger TriggerSourceWebhook)) (sample_post ''x'') [sample_flow] (0, [])
     = Some (HttpJSON 504 p, w')"
proof -
  let ?A = "sample_event_api (sample_trigger TriggerSourceWebhook)"
  have d: "deadline_comes sample_server (snd (eaNow ?A (seWithTimeout sample_server (parseSyncTimeout sample_server (sample_post ''x'')) (0, []))))"
    unfolding deadline_comes_def by (intro exI [of _ 2]) (simp add: after_rounds_def sample_server_def sample_event_api_def numeral_2_eq_2)
  from handleSync_answers [OF d, of sample_flow] obtain rep w' where
    rep: "handleSync sample_server ?A (sample_post ''x'') [sample_flow] (0, []) = Some (rep, w')"
    and c: "case rep of HttpJSON code p \<Rightarrow> code = 504 \<or> (\<exists>u f. eaGetFlow ?A u (flow_key sample_flow) = Inr f \<and>
         (fPhase (flStatus f) = FlowSucceeded \<or> fPhase (flStatus f) = FlowFailed))
       | HttpError msg code \<Rightarrow> code = 500 | EventStream _ _ _ \<Rightarrow> False"
    by (fastforce split: reply.splits)
  have "case fst (the (handleSync sample_server ?A (sample_post ''x'') [sample_flow] (0, []))) of HttpJSON _ _ \<Rightarrow> True | _ \<Rightarrow> False"
    by (simp add: handleSync_def sample_server_def sample_event_api_def waitForFlow.simps sync_result_def sample_flow_def sample_status_def Let_def)
  with rep c show ?thesis
    by (auto simp: sample_event_api_def sample_flow_def sample_status_def split: reply.splits)
qed

section \<open>Who may fire a trigger\<close>

text \<open>
  A request that may fire: a POST to the path of a webhook trigger that is not suspended, with the token
  that is stored for it.
\<close>

definition authorised :: "'w event_api \<Rightarrow> http_in \<Rightarrow> 'w \<Rightarrow> bool" where
  "authorised A r w \<longleftrightarrow>
     (\<exists>ns n t secret token. fire_path (rqPath r) = Some (ns, n) \<and> rqMethod r = ''POST'' \<and>
        eaGetEvent A w \<lparr>nnName = n, nnNamespace = ns\<rparr> = Inr t \<and>
        srcType (esSource (evSpec t)) = TriggerSourceWebhook \<and> \<not> esSuspended (evSpec t) \<and>
        eaGetSecret A w \<lparr>nnName = mName (evMeta t) @ ''-webhook-token'', nnNamespace = mNamespace (evMeta t)\<rparr> = Inr secret \<and>
        scData secret ''token'' = Some token \<and> token \<noteq> [] \<and> request_token r = token)"

lemma validToken_iff:
  "validToken A t token w \<longleftrightarrow>
     (\<exists>secret. eaGetSecret A w \<lparr>nnName = mName (evMeta t) @ ''-webhook-token'', nnNamespace = mNamespace (evMeta t)\<rparr> = Inr secret \<and>
        scData secret ''token'' = Some token \<and> token \<noteq> [])"
  by (auto simp: validToken_def webhookTokenFromSecret_def split: sum.splits option.splits)

text \<open>
  C10: A request that is not authorised changes nothing: no flow is created, no status is written, the world
  is as it was, and the answer is one of the refusals 400, 401, 404, 405 and 503. An authorised request
  is never answered 401.
\<close>

theorem ServeHTTP_guarded:
  assumes "ServeHTTP E S A s r w = Some (rep, s', w')"
  shows "(\<not> authorised A r w \<longrightarrow> w' = w \<and> s' = s \<and> (\<exists>msg. \<exists>code \<in> {400, 401, 404, 405, 503}. rep = HttpError msg code)) \<and>
     (authorised A r w \<longrightarrow> (\<forall>msg. rep \<noteq> HttpError msg 401))"
proof (cases "authorised A r w")
  case False
  with assms show ?thesis
    by (fastforce simp: ServeHTTP_def authorised_def validToken_iff split: option.splits prod.splits sum.splits if_splits)
next
  case True
  have sync: "handleSync S A r flows v \<noteq> Some (HttpError msg 401, v')" for flows v v' msg
    by (auto simp: handleSync_def Let_def split: list.splits option.splits sum.splits prod.splits if_splits)
  have stream: "handleSSE S r flows key \<noteq> HttpError msg 401" for flows key msg
    by (auto simp: handleSSE_def split: list.splits)
  from True assms show ?thesis
    by (auto simp: ServeHTTP_def authorised_def validToken_iff stream sync Let_def
        split: option.splits prod.splits sum.splits if_splits)
qed

theorem ServeHTTP_guarded_witness:
  "\<exists>rep s'. ServeHTTP sample_ext sample_server (sample_event_api (sample_trigger TriggerSourceWebhook))
      \<lparr>twTaskQueueURL = [], twRdbOnce = False, twRdb = None\<rparr> (sample_post ''guess'') (0, []) = Some (rep, s', (0, [])) \<and>
      (\<exists>msg code. rep = HttpError msg code)"
proof -
  let ?A = "sample_event_api (sample_trigger TriggerSourceWebhook)" and ?s = "\<lparr>twTaskQueueURL = [], twRdbOnce = False, twRdb = None\<rparr>"
  have no: "\<not> authorised ?A (sample_post ''guess'') (0, [])" by (simp add: authorised_def sample_event_api_def)
  have "\<not> validToken ?A (sample_trigger TriggerSourceWebhook) (request_token (sample_post ''guess'')) (0, [])"
    by (simp add: validToken_iff sample_event_api_def)
  moreover have "fire_path (rqPath (sample_post ''guess'')) = Some (''default'', ''t'')" by code_simp
  ultimately obtain rep s' w' where r: "ServeHTTP sample_ext sample_server ?A ?s (sample_post ''guess'') (0, []) = Some (rep, s', w')"
    by (auto simp: ServeHTTP_def sample_post_def sample_event_api_def sample_trigger_def)
  from ServeHTTP_guarded [OF r] no r show ?thesis by blast
qed

text \<open>
  C30: The token the operator makes for a trigger is the one that opens it. When the controller has created
  the secret of a trigger from 32 random bytes and the server stores it, the server accepts the 64
  hexadecimal digits of these bytes and nothing else, and the digits decode to the bytes.
\<close>

theorem webhook_token_roundtrip:
  assumes missing: "eaGetSecret A w \<lparr>nnName = mName (evMeta t) @ ''-webhook-token'', nnNamespace = mNamespace (evMeta t)\<rparr> = Inl err" "IsNotFound err"
    and random: "eaRandom A 32 w = (Inr raw, w1)" "length raw = 32"
    and owner: "\<And>s. eaSetSecretOwner A t s = Inr (s\<lparr>scOwner := Some (mName (evMeta t))\<rparr>)"
    and store: "\<And>s w w'. eaCreateSecret A s w = (None, w') \<Longrightarrow> eaGetSecret A w' \<lparr>nnName = scName s, nnNamespace = scNamespace s\<rparr> = Inr s"
    and made: "ensureWebhookToken A t w = (None, w2)"
  shows "(validToken A t token w2 \<longleftrightarrow> token = EncodeToString raw) \<and> length (EncodeToString raw) = 64 \<and>
     hex_decode (EncodeToString raw) = raw"
proof -
  let ?sec = "\<lparr>scName = mName (evMeta t) @ ''-webhook-token'', scNamespace = mNamespace (evMeta t),
      scData = [''token'' \<mapsto> EncodeToString raw], scOwner = Some (mName (evMeta t))\<rparr>"
  have len: "length (EncodeToString raw) = 64" using random(2) by (simp add: hex_length)
  from made missing random(1) have "eaCreateSecret A ?sec w1 = (None, w2)"
    by (auto simp: ensureWebhookToken_def owner split: prod.splits)
  from store [OF this] have "eaGetSecret A w2 \<lparr>nnName = mName (evMeta t) @ ''-webhook-token'', nnNamespace = mNamespace (evMeta t)\<rparr> = Inr ?sec"
    by simp
  moreover have "EncodeToString raw \<noteq> []" using len by auto
  ultimately show ?thesis using len by (auto simp: validToken_iff hex_roundtrip)
qed

theorem webhook_token_roundtrip_witness:
  "\<exists>w2. ensureWebhookToken (sample_event_api (sample_trigger TriggerSourceWebhook)) (sample_trigger TriggerSourceWebhook) (0, []) = (None, w2) \<and>
     validToken (sample_event_api (sample_trigger TriggerSourceWebhook)) (sample_trigger TriggerSourceWebhook)
       (EncodeToString (replicate 32 CHR 0xAB)) w2"
proof -
  let ?t = "sample_trigger TriggerSourceWebhook" and ?A = "sample_event_api (sample_trigger TriggerSourceWebhook)"
  have "fst (ensureWebhookToken ?A ?t (0, [])) = None"
    by (simp add: ensureWebhookToken_def sample_event_api_def)
  then obtain w2 where made: "ensureWebhookToken ?A ?t (0, []) = (None, w2)" by (metis prod.collapse)
  have a: "eaGetSecret ?A (0, []) \<lparr>nnName = mName (evMeta ?t) @ ''-webhook-token'', nnNamespace = mNamespace (evMeta ?t)\<rparr> = Inl (ApiNotFound (TLit ''no''))"
    "IsNotFound (ApiNotFound (TLit ''no''))" "eaRandom ?A 32 (0, []) = (Inr (replicate 32 CHR 0xAB), (0, []))"
    "length (replicate 32 CHR 0xAB) = 32" by (simp_all add: sample_event_api_def)
  have owner: "eaSetSecretOwner ?A ?t s = Inr (s\<lparr>scOwner := Some (mName (evMeta ?t))\<rparr>)" for s
    by (simp add: sample_event_api_def)
  have store: "eaCreateSecret ?A s w = (None, w') \<Longrightarrow> eaGetSecret ?A w' \<lparr>nnName = scName s, nnNamespace = scNamespace s\<rparr> = Inr s" for s w w'
    by (auto simp: sample_event_api_def)
  have "validToken ?A ?t token w2 \<longleftrightarrow> token = EncodeToString (replicate 32 CHR 0xAB)" for token
    by (rule conjunct1 [OF webhook_token_roundtrip [OF a owner _ made]]) (rule store)
  with made show ?thesis by blast
qed

section \<open>The event stream\<close>

text \<open>
  C16: Whatever the interleaving of the token reader with the handler, the stream shows the chunks the reader
  has pushed in their order, each once, with nothing in between lost. It carries one final event, the
  last, once the handler has ended, and none before; if that says the flow completed, every chunk that
  was pushed has been shown.
\<close>

theorem stream_shows_tokens:
  assumes "sse_reachable streaming s"
  shows "(\<exists>rest. map token_event (ssPushed s) = tokens_of (ssOut s) @ rest) \<and>
     (if ssPc s = Ended then final_event (last (ssOut s)) \<and> \<not> list_ex final_event (butlast (ssOut s))
      else \<not> list_ex final_event (ssOut s)) \<and>
     (ssPc s = Ended \<and> svEvent (last (ssOut s)) = ''flow.completed'' \<longrightarrow> tokens_of (ssOut s) = map token_event (ssPushed s))"
proof -
  have inv: "sse_inv s" by (rule sse_reachable_inv [OF assms])
  then have "map token_event (ssPushed s) = tokens_of (ssOut s) @ map token_event (ssQueue s)" by (simp add: sse_inv_def)
  with inv show ?thesis by (auto simp: sse_inv_def)
qed

definition done_flow :: ArkFlow where
  "done_flow = sample_flow\<lparr>flStatus := sample_status\<lparr>fPhase := FlowSucceeded, fSteps :=
     [(pending_status (sample_step ''a'' []))\<lparr>stPhase := StepSucceeded, stStartTime := Some 0, stCompletionTime := Some 5\<rparr>]\<rparr>\<rparr>"

theorem stream_shows_tokens_witness:
  "\<exists>s. sse_run [Push ''He'', Recv, Recv, Tick (Inr done_flow) 7, Push ''llo'', CloseChan, Recv, Flush 8] (sse_init True) = Some s \<and>
     tokens_of (ssOut s) = [token_event ''He'', token_event ''llo'']"
proof -
  let ?r = "sse_run [Push ''He'', Recv, Recv, Tick (Inr done_flow) 7, Push ''llo'', CloseChan, Recv, Flush 8] (sse_init True)"
  have ok: "?r \<noteq> None \<and> ssPc (the ?r) = Ended \<and> svEvent (last (ssOut (the ?r))) = ''flow.completed'' \<and> ssPushed (the ?r) = [''He'', ''llo'']"
    by (simp add: sse_init_def forward_def emit_out_def tick_flow_def done_flow_def step_event_def pending_status_def sample_step_def
        sample_flow_def completed_event_def sample_status_def)
  then obtain s where s: "?r = Some s" by auto
  from stream_shows_tokens [OF sse_run_reachable [OF sse_reachable.start s]] ok s show ?thesis by auto
qed

text \<open>
  C35: The stream handler never panics on the flows this operator stores. Its one partial operation reads the
  start and the completion time of a step that succeeded; a flow whose steps are well formed, as every
  pass of the flow controller leaves them, has both.
\<close>

theorem stream_never_panics:
  assumes "sse_run as (sse_init streaming) = Some s"
    and "\<forall>f ms. Tick (Inr f) ms \<in> set as \<longrightarrow> list_all (st_ok E) (fSteps (flStatus f))"
  shows "ssPc s \<noteq> Panicked"
  by (rule run_not_panicked [OF assms]) (simp add: sse_init_def)

theorem stream_never_panics_witness:
  "\<exists>s. sse_run [Recv, Tick (Inr done_flow) 7] (sse_init False) = Some s \<and> ssPc s \<noteq> Panicked"
proof -
  let ?as = "[Recv, Tick (Inr done_flow) 7]"
  have "sse_run ?as (sse_init False) \<noteq> None" by (simp add: sse_init_def)
  then obtain s where s: "sse_run ?as (sse_init False) = Some s" by auto
  have "\<forall>f ms. Tick (Inr f) ms \<in> set ?as \<longrightarrow> list_all (st_ok sample_ext) (fSteps (flStatus f))"
    by (simp add: done_flow_def st_ok_def pending_status_def sample_step_def)
  from stream_never_panics [OF s this] s show ?thesis by blast
qed

end
