(* ===== verification/LocalExecutor.thy ===== *)
theory LocalExecutor
  imports AgentEnvVars AgentRunner FlowProgress
begin

text \<open>
  \<^verbatim>\<open>internal/ark/local/executor.go\<close>: running a flow in one process, without a cluster or Redis. The
  goroutines of a pass are a parameter: the results of the started steps, in the order in which they
  arrive. \<open>exec_steps\<close> is the schedule that runs them one after the other.
\<close>

section \<open>Running one step\<close>

record StepEvent =
  xeStep :: string
  xePhase :: StepPhase
  xeOutput :: string
  xeTokens :: QueueUsage
  xeElapsed :: duration
  xeErr :: "gotext option"

record step_result =
  xrName :: string
  xrOutput :: string
  xrTokens :: QueueUsage
  xrElapsed :: duration
  xrErr :: "gotext option"

text \<open>A call returns or panics; \<^const>\<open>None\<close> around it is a call that never ends.\<close>

datatype 'r outcome = Panic | Done 'r

record 'w executor =
  exProvider :: "string \<Rightarrow> gotext + 'w provider"
  exNoMCP :: bool
  exEnv :: "'w agent_env"
  exNow :: "'w \<Rightarrow> time \<times> 'w"

definition agentConfig :: "ArkAgent \<Rightarrow> Config" where
  "agentConfig a =
     (let systemPrompt = (if asSystemPrompt (agSpec a) = [] \<and> asSystemPromptRef (agSpec a) \<noteq> None
                          then ''[warning: systemPromptRef cannot be resolved locally '' @
                               [CHR 0xE2, CHR 0x80, CHR 0x94] @ '' set systemPrompt inline for ark run]''
                          else asSystemPrompt (agSpec a))
      in \<lparr>cfgProvider = [], cfgModel = asModel (agSpec a), cfgSystemPrompt = systemPrompt,
          cfgMCPServers = map (\<lambda>s. \<lparr>mcName = mcpName s, mcURL = mcpURL s\<rparr>) (asMCPServers (agSpec a)),
          cfgMaxTokensPerCall = limit_or 8000 limMaxTokensPerCall a, cfgTimeoutSeconds = limit_or 120 limTimeoutSeconds a,
          cfgTaskQueueURL = [], cfgValidatorPrompt = [], cfgMaxRetries = 0, cfgWebhookTools = []\<rparr>)"

fun reachable_servers :: "'w http_env \<Rightarrow> MCPServerConfig list \<Rightarrow> 'w \<Rightarrow> MCPServerConfig list \<times> 'w" where
  "reachable_servers H [] w = ([], w)"
| "reachable_servers H (s # servers) w =
     (let (r, w) = NewManager H [s] w;
          (rest, w) = reachable_servers H servers w
      in (case r of Inr _ \<Rightarrow> (s # rest, w) | Inl _ \<Rightarrow> (rest, w)))"

text \<open>The manager, or \<^const>\<open>None\<close> for the nil pointer that an error of the second discovery leaves.\<close>

definition buildMCPManager :: "'w executor \<Rightarrow> MCPServerConfig list \<Rightarrow> 'w \<Rightarrow> Tool list option \<times> 'w" where
  "buildMCPManager X servers w =
     (if exNoMCP X \<or> length servers = 0 then (Some [], w)
      else let (reachable, w) = reachable_servers (aeHttp (exEnv X)) servers w;
               (m, w) = NewManager (aeHttp (exEnv X)) reachable w
           in (case m of Inr tools \<Rightarrow> Some tools | Inl _ \<Rightarrow> None, w))"

definition runStep ::
  "'w executor \<Rightarrow> (string \<rightharpoonup> ArkAgent) \<Rightarrow> ArkFlowStep \<Rightarrow> string \<Rightarrow> 'w \<Rightarrow> (task_result outcome \<times> 'w) option" where
  "runStep X agents step prompt w =
     (case agents (sArkAgent step) of
        None \<Rightarrow>
          Some (Done ([], no_usage, Some (TFmt ''step %q: ArkAgent %q not found in loaded YAML''
                                            [GStr (sName step), GStr (sArkAgent step)])), w)
      | Some agent \<Rightarrow>
          (let cfg = agentConfig agent in
           case exProvider X (asModel (agSpec agent)) of
             Inl err \<Rightarrow> Some (Done ([], no_usage, Some (TFmt ''step %q: %w'' [GStr (sName step), GText err])), w)
           | Inr provider \<Rightarrow>
               (case buildMCPManager X (cfgMCPServers cfg) w of
                  (None, w) \<Rightarrow> Some (Panic, w)
                | (Some mcpMgr, w) \<Rightarrow>
                    (case RunTask (exEnv X) (new_runner cfg mcpMgr None) provider
                            \<lparr>tkID = sName step, tkPrompt = prompt, tkMeta = Map.empty\<rparr>
                            (if 0 < sint (cfgTimeoutSeconds cfg) then aeWithTimeout (exEnv X) (TaskTimeout cfg) w else w) of
                       None \<Rightarrow> None
                     | Some (res, w) \<Rightarrow> Some (Done res, w)))))"

text \<open>The goroutines one after the other.\<close>

fun exec_steps ::
  "'w executor \<Rightarrow> (string \<rightharpoonup> ArkAgent) \<Rightarrow> (ArkFlowStep \<times> string) list \<Rightarrow> 'w \<Rightarrow> (step_result list outcome \<times> 'w) option" where
  "exec_steps X agents [] w = Some (Done [], w)"
| "exec_steps X agents ((s, prompt) # rest) w =
     (let (start, w) = exNow X w in
      case runStep X agents s prompt w of
        None \<Rightarrow> None
      | Some (Panic, w) \<Rightarrow> Some (Panic, w)
      | Some (Done (output, tokens, err), w) \<Rightarrow>
          (let (stop, w) = exNow X w;
               res = \<lparr>xrName = sName s, xrOutput = output, xrTokens = tokens, xrElapsed = time_Sub stop start, xrErr = err\<rparr>
           in case exec_steps X agents rest w of
                Some (Done results, w) \<Rightarrow> Some (Done (res # results), w)
              | r \<Rightarrow> r))"

section \<open>A pass\<close>

record 'w local_env =
  leNow :: "'w \<Rightarrow> time \<times> 'w"
  leExec :: "(ArkFlowStep \<times> string) list \<Rightarrow> 'w \<Rightarrow> (step_result list outcome \<times> 'w) option"

fun collect_ready ::
  "ext \<Rightarrow> 'w local_env \<Rightarrow> (string \<rightharpoonup> nat) \<Rightarrow> any \<Rightarrow> ArkFlowStep list \<Rightarrow> ArkFlowStepStatus list \<Rightarrow> 'w
     \<Rightarrow> ArkFlowStep list \<times> ArkFlowStepStatus list \<times> 'w" where
  "collect_ready E L m data [] sts w = ([], sts, w)"
| "collect_ready E L m data (step # steps) sts w =
     (case m (sName step) of
        None \<Rightarrow> collect_ready E L m data steps sts w
      | Some i \<Rightarrow>
          if stPhase (sts ! i) \<noteq> StepPending \<or> \<not> DepsSucceeded (sDependsOn step) m sts
          then collect_ready E L m data steps sts w
          else if \<not> condition_holds E data step
          then (let (now, w) = leNow L w in collect_ready E L m data steps (update_at i (mark_skipped now) sts) w)
          else (let (ready, sts, w) = collect_ready E L m data steps sts w in (step # ready, sts, w)))"

definition collectReadySteps ::
  "ext \<Rightarrow> 'w local_env \<Rightarrow> ArkFlow \<Rightarrow> (string \<rightharpoonup> nat) \<Rightarrow> any \<Rightarrow> 'w \<Rightarrow> ArkFlowStep list \<times> ArkFlow \<times> 'w" where
  "collectReadySteps E L f m data w =
     (let (ready, sts, w) = collect_ready E L m data (fsSteps (flSpec f)) (fSteps (flStatus f)) w
      in (ready, f\<lparr>flStatus := (flStatus f)\<lparr>fSteps := sts\<rparr>\<rparr>, w))"

definition mark_started :: "time \<Rightarrow> ArkFlowStepStatus \<Rightarrow> ArkFlowStepStatus" where
  "mark_started now st = st\<lparr>stPhase := StepRunning, stStartTime := Some now\<rparr>"

definition started_event :: "string \<Rightarrow> StepEvent" where
  "started_event n = \<lparr>xeStep = n, xePhase = StepRunning, xeOutput = [], xeTokens = no_usage, xeElapsed = 0, xeErr = None\<rparr>"

fun start_steps ::
  "'w local_env \<Rightarrow> (string \<rightharpoonup> nat) \<Rightarrow> ArkFlowStep list \<Rightarrow> ArkFlowStepStatus list \<Rightarrow> 'w \<Rightarrow> ArkFlowStepStatus list \<times> 'w" where
  "start_steps L m [] sts w = (sts, w)"
| "start_steps L m (s # ss) sts w =
     (let (now, w) = leNow L w
      in start_steps L m ss (case m (sName s) of None \<Rightarrow> sts | Some i \<Rightarrow> update_at i (mark_started now) sts) w)"

definition finish_step :: "step_result \<Rightarrow> time \<Rightarrow> ArkFlowStepStatus \<Rightarrow> ArkFlowStepStatus" where
  "finish_step res now st =
     (let st = st\<lparr>stCompletionTime := Some now\<rparr> in
      case xrErr res of
        Some err \<Rightarrow> st\<lparr>stPhase := StepFailed, stMessage := err\<rparr>
      | None \<Rightarrow> st\<lparr>stPhase := StepSucceeded, stOutput := xrOutput res,
                   stTokenUsage := Some \<lparr>tuInputTokens = quInputTokens (xrTokens res),
                     tuOutputTokens = quOutputTokens (xrTokens res),
                     tuTotalTokens = quInputTokens (xrTokens res) + quOutputTokens (xrTokens res)\<rparr>\<rparr>)"

definition finished_event :: "step_result \<Rightarrow> StepEvent" where
  "finished_event res =
     \<lparr>xeStep = xrName res, xePhase = (if xrErr res \<noteq> None then StepFailed else StepSucceeded),
      xeOutput = xrOutput res, xeTokens = xrTokens res, xeElapsed = xrElapsed res, xeErr = xrErr res\<rparr>"

fun finish_steps ::
  "'w local_env \<Rightarrow> (string \<rightharpoonup> nat) \<Rightarrow> step_result list \<Rightarrow> ArkFlowStepStatus list \<Rightarrow> 'w \<Rightarrow> ArkFlowStepStatus list \<times> 'w" where
  "finish_steps L m [] sts w = (sts, w)"
| "finish_steps L m (res # results) sts w =
     (let (now, w) = leNow L w
      in finish_steps L m results
           (case m (xrName res) of None \<Rightarrow> sts | Some i \<Rightarrow> update_at i (finish_step res now) sts) w)"

text \<open>The error of \<open>ResolvePrompt\<close> is dropped: the prompt is then empty.\<close>

definition local_prompt :: "ext \<Rightarrow> any \<Rightarrow> ArkFlowStep \<Rightarrow> string" where
  "local_prompt E data s = (case ResolvePrompt E s data of Inl _ \<Rightarrow> [] | Inr p \<Rightarrow> p)"

text \<open>One round of the loop of \<open>Run\<close>: it breaks, goes on, or the process panics.\<close>

datatype pass_end = Break ArkFlow | Next ArkFlow "StepEvent list"

definition local_pass :: "ext \<Rightarrow> 'w local_env \<Rightarrow> ArkFlow \<Rightarrow> 'w \<Rightarrow> (pass_end outcome \<times> 'w) option" where
  "local_pass E L f w =
     (let m = BuildStatusByName f;
          data = BuildTemplateData E f m;
          f = EvaluateLoops E f m data;
          (ready, f, w) = collectReadySteps E L f m data w
      in if length ready = 0
         then (let (now, w) = leNow L w in Some (Done (Break (UpdateFlowPhase E f data now)), w))
         else
           let (sts, w) = start_steps L m ready (fSteps (flStatus f)) w in
           case leExec L (map (\<lambda>s. (s, local_prompt E data s)) ready) w of
             None \<Rightarrow> None
           | Some (Panic, w) \<Rightarrow> Some (Panic, w)
           | Some (Done results, w) \<Rightarrow>
               (let (sts, w) = finish_steps L m results sts w;
                    f = ParseOutputJSON E (f\<lparr>flStatus := (flStatus f)\<lparr>fSteps := sts\<rparr>\<rparr>) m;
                    data = BuildTemplateData E f m;
                    (now, w) = leNow L w
                in Some (Done (Next (UpdateFlowPhase E f data now)
                                 (map (\<lambda>s. started_event (sName s)) ready @ map finished_event results)), w)))"

partial_function (option) local_loop ::
  "ext \<Rightarrow> 'w local_env \<Rightarrow> ArkFlow \<Rightarrow> StepEvent list \<Rightarrow> 'w \<Rightarrow> ((ArkFlow \<times> StepEvent list) outcome \<times> 'w) option" where
  "local_loop E L f evs w =
     (if IsTerminalPhase (fPhase (flStatus f)) then Some (Done (f, evs), w)
      else case local_pass E L f w of
        None \<Rightarrow> None
      | Some (r, w) \<Rightarrow>
          (case r of
             Panic \<Rightarrow> Some (Panic, w)
           | Done p \<Rightarrow>
               (case p of
                  Break g \<Rightarrow> Some (Done (g, evs), w)
                | Next g evs' \<Rightarrow> local_loop E L g (evs @ evs') w)))"

definition local_Run ::
  "ext \<Rightarrow> 'w local_env \<Rightarrow> ArkFlow \<Rightarrow> 'w \<Rightarrow> ((ArkFlow \<times> StepEvent list) outcome \<times> 'w) option" where
  "local_Run E L f w =
     (if fPhase (flStatus f) \<noteq> FlowEmpty then local_loop E L (InitializeSteps E f 0) [] w
      else let (now, w) = leNow L w in local_loop E L (InitializeSteps E f now) [] w)"

end
