(* ===== verification/LocalProgress.thy ===== *)
theory LocalProgress
  imports LocalExecutor
begin

text \<open>
  A pass of the local executor keeps the contract of the step statuses, and a pass that starts a step
  lowers the rank of the flow, so a run ends when the calls of its steps end.
\<close>

section \<open>Collecting\<close>

definition pending_at :: "(string \<rightharpoonup> nat) \<Rightarrow> ArkFlowStepStatus list \<Rightarrow> string \<Rightarrow> StepPhase \<Rightarrow> bool" where
  "pending_at m sts n p \<longleftrightarrow> (\<exists>i. m n = Some i \<and> stPhase (sts ! i) = p)"

lemma pending_at_keep:
  "pending_at m sts n p \<Longrightarrow> (\<And>i. m n = Some i \<Longrightarrow> sts' ! i = sts ! i) \<Longrightarrow> pending_at m sts' n p"
  by (auto simp: pending_at_def)

lemma collect_ready_effect:
  assumes "status_index m names"
  shows "map stName sts = names \<Longrightarrow> distinct (map sName steps) \<Longrightarrow>
     collect_ready E L m data steps sts w = (rdy, sts', w') \<Longrightarrow>
     status_rel E m lim sts sts' \<and> set rdy \<subseteq> set steps \<and> distinct (map sName rdy) \<and>
     (\<forall>s \<in> set rdy. pending_at m sts' (sName s) StepPending) \<and>
     (\<forall>n i. m n = Some i \<longrightarrow> n \<notin> sName ` set steps \<longrightarrow> sts' ! i = sts ! i)"
proof (induction steps arbitrary: sts w rdy sts' w')
  case Nil
  then show ?case by simp
next
  case (Cons step steps)
  note dist = Cons.prems(2)
  have tail: "distinct (map sName steps)" using dist by simp
  show ?case
  proof (cases "\<exists>i. m (sName step) = Some i \<and> stPhase (sts ! i) = StepPending \<and> DepsSucceeded (sDependsOn step) m sts")
    case False
    then have "collect_ready E L m data steps sts w = (rdy, sts', w')"
      using Cons.prems(3) by (auto split: option.splits if_splits)
    from Cons.IH [OF Cons.prems(1) tail this] show ?thesis by auto
  next
    case True
    then obtain i where i: "m (sName step) = Some i" and p: "stPhase (sts ! i) = StepPending"
      and deps: "DepsSucceeded (sDependsOn step) m sts" by blast
    note ptr = status_index.pointer [OF assms i Cons.prems(1)]
    show ?thesis
    proof (cases "condition_holds E data step")
      case False
      obtain now w1 where clock: "leNow L w = (now, w1)" by fastforce
      let ?sts = "update_at i (mark_skipped now) sts"
      have rel: "status_rel E m lim sts ?sts"
        using ptr p by (intro status_rel_update_at) (auto intro: mark_life mark_ok)
      have rest: "collect_ready E L m data steps ?sts w1 = (rdy, sts', w')"
        using Cons.prems(3) i p deps False clock by simp
      have names: "map stName ?sts = names" using Cons.prems(1) status_rel_names [OF rel] by simp
      note ih = Cons.IH [OF names tail rest]
      have "?sts ! j = sts ! j" if "m n = Some j" "n \<noteq> sName step" for n j
        using that i status_index.no_alias [OF assms] by (cases "i = j") auto
      with ih rel show ?thesis by (auto intro: status_rel_trans)
    next
      case holds: True
      obtain rdy1 where rest: "collect_ready E L m data steps sts w = (rdy1, sts', w')" and rdy: "rdy = step # rdy1"
        using Cons.prems(3) i p deps holds by (auto split: prod.splits)
      note ih = Cons.IH [OF Cons.prems(1) tail rest]
      have "pending_at m sts' (sName step) StepPending"
        using ih i p dist by (auto simp: pending_at_def)
      with ih rdy dist show ?thesis by auto
    qed
  qed
qed

section \<open>Starting and finishing\<close>

lemma mark_started_facts:
  "stPhase st = StepPending \<Longrightarrow> (life_step lim)\<^sup>*\<^sup>* (life_of st) (life_of (mark_started now st))"
  "st_ok E st \<Longrightarrow> stPhase st = StepPending \<Longrightarrow> st_ok E (mark_started now st)"
  "stName (mark_started now st) = stName st" "stPhase (mark_started now st) = StepRunning"
  by (auto simp: mark_started_def life_of_def st_ok_def intro: life_step.submit)

lemma finish_step_facts:
  "stPhase st = StepRunning \<Longrightarrow> (life_step lim)\<^sup>*\<^sup>* (life_of st) (life_of (finish_step res now st))"
  "st_ok E st \<Longrightarrow> stPhase st = StepRunning \<Longrightarrow> st_ok E (finish_step res now st)"
  "stName (finish_step res now st) = stName st"
  "stPhase (finish_step res now st) = (if xrErr res = None then StepSucceeded else StepFailed)"
  by (auto simp: finish_step_def life_of_def st_ok_def Let_def split: option.split
      intro: life_step.succeed life_step.break)

lemma start_steps_effect:
  assumes "status_index m names"
  shows "map stName sts = names \<Longrightarrow> distinct (map sName ss) \<Longrightarrow> (\<forall>s \<in> set ss. pending_at m sts (sName s) StepPending) \<Longrightarrow>
     start_steps L m ss sts w = (sts', w') \<Longrightarrow>
     status_rel E m lim sts sts' \<and> (\<forall>s \<in> set ss. pending_at m sts' (sName s) StepRunning) \<and>
     (\<forall>n i. m n = Some i \<longrightarrow> n \<notin> sName ` set ss \<longrightarrow> sts' ! i = sts ! i) \<and>
     (ss \<noteq> [] \<longrightarrow> flow_rank lim sts' < flow_rank lim sts)"
proof (induction ss arbitrary: sts w sts' w')
  case Nil
  then show ?case by simp
next
  case (Cons s ss)
  from Cons.prems(3) obtain i where i: "m (sName s) = Some i" and p: "stPhase (sts ! i) = StepPending"
    by (auto simp: pending_at_def)
  note ptr = status_index.pointer [OF assms i Cons.prems(1)]
  obtain now w1 where clock: "leNow L w = (now, w1)" by fastforce
  let ?sts = "update_at i (mark_started now) sts"
  have rel: "status_rel E m lim sts ?sts"
    using ptr p by (intro status_rel_update_at) (auto intro: mark_started_facts simp: mark_started_facts)
  have rank: "flow_rank lim ?sts < flow_rank lim sts"
    using ptr p by (intro rank_update_at) (auto intro: mark_started_facts simp: mark_started_facts)
  have other: "?sts ! j = sts ! j" if "m n = Some j" "n \<noteq> sName s" for n j
    using that i status_index.no_alias [OF assms] by (cases "i = j") auto
  have names: "map stName ?sts = names" using Cons.prems(1) status_rel_names [OF rel] by simp
  have pend: "\<forall>t \<in> set ss. pending_at m ?sts (sName t) StepPending"
  proof
    fix t assume t: "t \<in> set ss"
    with Cons.prems(2) have "sName t \<noteq> sName s" by (metis distinct.simps(2) image_eqI list.set_map list.simps(9))
    have p: "pending_at m sts (sName t) StepPending" using t Cons.prems(3) by simp
    show "pending_at m ?sts (sName t) StepPending"
      by (rule pending_at_keep [OF p]) (rule other [OF _ \<open>sName t \<noteq> sName s\<close>])
  qed
  have rest: "start_steps L m ss ?sts w1 = (sts', w')" using Cons.prems(4) i clock by simp
  note ih = Cons.IH [OF names _ pend rest]
  have ih': "status_rel E m lim ?sts sts'" "\<forall>s \<in> set ss. pending_at m sts' (sName s) StepRunning"
    "\<forall>n i. m n = Some i \<longrightarrow> n \<notin> sName ` set ss \<longrightarrow> sts' ! i = ?sts ! i"
    using ih Cons.prems(2) by auto
  have "flow_rank lim sts' \<le> flow_rank lim ?sts"
    using ih'(1) by (auto simp: status_rel_def intro: life_refines_rank)
  moreover have "pending_at m sts' (sName s) StepRunning"
    using ih'(3) i ptr Cons.prems(2) by (auto simp: pending_at_def mark_started_facts)
  moreover have "sts' ! j = sts ! j" if "m n = Some j" "n \<notin> sName ` set (s # ss)" for n j
    using ih'(3) other that by auto
  ultimately show ?case using rel rank ih' by (auto intro: status_rel_trans)
qed

lemma finish_steps_effect:
  assumes "status_index m names"
  shows "map stName sts = names \<Longrightarrow> distinct (map xrName rs) \<Longrightarrow> (\<forall>r \<in> set rs. pending_at m sts (xrName r) StepRunning) \<Longrightarrow>
     finish_steps L m rs sts w = (sts', w') \<Longrightarrow>
     status_rel E m lim sts sts' \<and>
     (\<forall>r \<in> set rs. pending_at m sts' (xrName r) (if xrErr r = None then StepSucceeded else StepFailed)) \<and>
     (\<forall>n i. m n = Some i \<longrightarrow> n \<notin> xrName ` set rs \<longrightarrow> sts' ! i = sts ! i)"
proof (induction rs arbitrary: sts w sts' w')
  case Nil
  then show ?case by simp
next
  case (Cons r rs)
  from Cons.prems(3) obtain i where i: "m (xrName r) = Some i" and p: "stPhase (sts ! i) = StepRunning"
    by (auto simp: pending_at_def)
  note ptr = status_index.pointer [OF assms i Cons.prems(1)]
  obtain now w1 where clock: "leNow L w = (now, w1)" by fastforce
  let ?sts = "update_at i (finish_step r now) sts"
  have rel: "status_rel E m lim sts ?sts"
    using ptr p by (intro status_rel_update_at) (auto intro: finish_step_facts simp: finish_step_facts)
  have other: "?sts ! j = sts ! j" if "m n = Some j" "n \<noteq> xrName r" for n j
    using that i status_index.no_alias [OF assms] by (cases "i = j") auto
  have names: "map stName ?sts = names" using Cons.prems(1) status_rel_names [OF rel] by simp
  have run: "\<forall>t \<in> set rs. pending_at m ?sts (xrName t) StepRunning"
  proof
    fix t assume t: "t \<in> set rs"
    with Cons.prems(2) have "xrName t \<noteq> xrName r" by (metis distinct.simps(2) image_eqI list.set_map list.simps(9))
    have p: "pending_at m sts (xrName t) StepRunning" using t Cons.prems(3) by simp
    show "pending_at m ?sts (xrName t) StepRunning"
      by (rule pending_at_keep [OF p]) (rule other [OF _ \<open>xrName t \<noteq> xrName r\<close>])
  qed
  have rest: "finish_steps L m rs ?sts w1 = (sts', w')" using Cons.prems(4) i clock by simp
  note ih = Cons.IH [OF names _ run rest]
  have ih': "status_rel E m lim ?sts sts'"
    "\<forall>r \<in> set rs. pending_at m sts' (xrName r) (if xrErr r = None then StepSucceeded else StepFailed)"
    "\<forall>n i. m n = Some i \<longrightarrow> n \<notin> xrName ` set rs \<longrightarrow> sts' ! i = ?sts ! i"
    using ih Cons.prems(2) by auto
  have "pending_at m sts' (xrName r) (if xrErr r = None then StepSucceeded else StepFailed)"
    using ih'(3) i ptr Cons.prems(2) by (auto simp: pending_at_def finish_step_facts)
  moreover have "sts' ! j = sts ! j" if "m n = Some j" "n \<notin> xrName ` set (r # rs)" for n j
    using ih'(3) other that by auto
  ultimately show ?case using rel ih' by (auto intro: status_rel_trans)
qed

end
