(* ===== verification/LocalRun.thy ===== *)
theory LocalRun
  imports LocalProgress
begin

text \<open>
  The contract of the goroutines of a pass, what a pass does under it, and that a run ends.
\<close>

definition with_steps :: "ArkFlow \<Rightarrow> ArkFlowStepStatus list \<Rightarrow> ArkFlow" where
  "with_steps f sts = f\<lparr>flStatus := (flStatus f)\<lparr>fSteps := sts\<rparr>\<rparr>"

lemma with_steps_fields [simp]:
  "flSpec (with_steps f sts) = flSpec f" "flMeta (with_steps f sts) = flMeta f"
  "fSteps (flStatus (with_steps f sts)) = sts" "with_steps (with_steps f sts) sts' = with_steps f sts'"
  by (simp_all add: with_steps_def)

section \<open>Schedulers\<close>

text \<open>Every started step sends exactly one result, in any order.\<close>

locale step_scheduler =
  fixes exec :: "(ArkFlowStep \<times> string) list \<Rightarrow> 'w \<Rightarrow> (step_result list outcome \<times> 'w) option"
  assumes arrivals: "exec jobs w = Some (Done results, w') \<Longrightarrow> mset (map xrName results) = mset (map (sName \<circ> fst) jobs)"
begin

text \<open>The two ways a pass ends, with its intermediate step statuses.\<close>

lemma pass_stages:
  assumes L: "leExec L = exec" and pass: "local_pass E L f w = Some (Done p, w')"
    and data: "data = BuildTemplateData E f (BuildStatusByName f)"
    and f1: "f1 = EvaluateLoops E f (BuildStatusByName f) data"
    and col: "collect_ready E L (BuildStatusByName f) data (fsSteps (flSpec f1)) (fSteps (flStatus f1)) w = (rdy, sts1, w1)"
  obtains (broke) now where "rdy = []" "p = Break (UpdateFlowPhase E (with_steps f1 sts1) data now)"
  | (passed) sts2 w2 results w3 sts3 w4 f4 now evs where "rdy \<noteq> []"
      "start_steps L (BuildStatusByName f) rdy sts1 w1 = (sts2, w2)"
      "exec (map (\<lambda>s. (s, local_prompt E data s)) rdy) w2 = Some (Done results, w3)"
      "finish_steps L (BuildStatusByName f) results sts2 w3 = (sts3, w4)"
      "f4 = ParseOutputJSON E (with_steps f1 sts3) (BuildStatusByName f)"
      "p = Next (UpdateFlowPhase E f4 (BuildTemplateData E f4 (BuildStatusByName f)) now) evs"
proof (cases "rdy = []")
  case True
  with pass col have "\<exists>now. p = Break (UpdateFlowPhase E (with_steps f1 sts1) data now)"
    by (auto simp: local_pass_def collectReadySteps_def with_steps_def Let_def data [symmetric] f1 [symmetric] split: prod.splits)
  with True broke show thesis by blast
next
  case False
  obtain sts2 w2 where start: "start_steps L (BuildStatusByName f) rdy sts1 w1 = (sts2, w2)" by fastforce
  from pass col False start obtain results w3
    where ex: "exec (map (\<lambda>s. (s, local_prompt E data s)) rdy) w2 = Some (Done results, w3)"
    by (auto simp: local_pass_def collectReadySteps_def Let_def data [symmetric] f1 [symmetric] L
        split: option.splits outcome.splits prod.splits)
  obtain sts3 w4 where fin: "finish_steps L (BuildStatusByName f) results sts2 w3 = (sts3, w4)" by fastforce
  obtain now w5 where now: "leNow L w4 = (now, w5)" by fastforce
  let ?f4 = "ParseOutputJSON E (with_steps f1 sts3) (BuildStatusByName f)"
  have "p = Next (UpdateFlowPhase E ?f4 (BuildTemplateData E ?f4 (BuildStatusByName f)) now)
      (map (\<lambda>s. started_event (sName s)) rdy @ map finished_event results)"
    using pass col False start ex fin now
    by (simp add: local_pass_def collectReadySteps_def with_steps_def Let_def data [symmetric] f1 [symmetric] L)
  with False start ex fin show thesis using passed by blast
qed

text \<open>The results of a pass name the steps that were started, each once.\<close>

lemma result_names:
  assumes "exec (map (\<lambda>s. (s, g s)) rdy) w = Some (Done results, w')" and "distinct (map sName rdy)"
  shows "distinct (map xrName results)" and "xrName ` set results = sName ` set rdy"
proof -
  have names: "mset (map xrName results) = mset (map sName rdy)"
    using arrivals [OF assms(1)] by (simp add: comp_def)
  with assms(2) show "distinct (map xrName results)" by (metis mset_eq_imp_distinct_iff)
  from names show "xrName ` set results = sName ` set rdy" by (metis set_mset_mset list.set_map)
qed

lemma pass_effect:
  assumes E: "range_ok E" and L: "leExec L = exec" and dist: "distinct (map sName (fsSteps (flSpec f)))"
    and pass: "local_pass E L f w = Some (Done p, w')"
    and m: "m = BuildStatusByName f" and lim: "lim = name_limit (fsSteps (flSpec f))"
  shows "(case p of
      Break g \<Rightarrow> same_shape f g \<and> status_rel E m lim (fSteps (flStatus f)) (fSteps (flStatus g))
    | Next g evs \<Rightarrow> same_shape f g \<and> status_rel E m lim (fSteps (flStatus f)) (fSteps (flStatus g)) \<and>
        flow_rank lim (fSteps (flStatus g)) < flow_rank lim (fSteps (flStatus f)))"
proof -
  let ?names = "map stName (fSteps (flStatus f))"
  define data where "data = BuildTemplateData E f m"
  define f1 where "f1 = EvaluateLoops E f m data"
  have index: "status_index m ?names" unfolding m by (rule by_name.status_index_axioms)
  have s1: "same_shape f f1" by (simp add: f1_def same_shape_EvaluateLoops)
  have r1: "status_rel E m lim (fSteps (flStatus f)) (fSteps (flStatus f1))"
    unfolding f1_def lim by (rule EvaluateLoops_rel [OF index])
  have n1: "map stName (fSteps (flStatus f1)) = ?names" and spec1: "flSpec f1 = flSpec f"
    using s1 by (simp_all add: same_shape_def)
  obtain rdy sts1 w1 where col: "collect_ready E L m data (fsSteps (flSpec f1)) (fSteps (flStatus f1)) w = (rdy, sts1, w1)"
    by (metis prod_cases3)
  note c = collect_ready_effect [OF index n1 dist [folded spec1] col, of lim]
  have r2: "status_rel E m lim (fSteps (flStatus f)) sts1" using r1 c by (blast intro: status_rel_trans)
  have n2: "map stName sts1 = ?names" using status_rel_names [OF r2] .
  have shape: "same_shape f (with_steps f1 sts)" if "status_rel E m lim (fSteps (flStatus f)) sts" for sts
    using s1 status_rel_names [OF that] by (simp add: same_shape_def)
  show ?thesis
  proof (rule pass_stages [OF L pass, of data f1 rdy sts1 w1])
    show "data = BuildTemplateData E f (BuildStatusByName f)" by (simp add: data_def m)
    show "f1 = EvaluateLoops E f (BuildStatusByName f) data" by (simp add: f1_def m)
    show "collect_ready E L (BuildStatusByName f) data (fsSteps (flSpec f1)) (fSteps (flStatus f1)) w = (rdy, sts1, w1)"
      using col by (simp add: m)
  next
    fix now assume "p = Break (UpdateFlowPhase E (with_steps f1 sts1) data now)"
    then show ?thesis using r2 shape [OF r2] by (simp add: same_shape_def UpdateFlowPhase_frame)
  next
    fix sts2 w2 results w3 sts3 w4 f4 now evs
    assume start: "start_steps L (BuildStatusByName f) rdy sts1 w1 = (sts2, w2)" and "rdy \<noteq> []"
      and ex: "exec (map (\<lambda>s. (s, local_prompt E data s)) rdy) w2 = Some (Done results, w3)"
      and finish: "finish_steps L (BuildStatusByName f) results sts2 w3 = (sts3, w4)"
      and f4: "f4 = ParseOutputJSON E (with_steps f1 sts3) (BuildStatusByName f)"
      and p: "p = Next (UpdateFlowPhase E f4 (BuildTemplateData E f4 (BuildStatusByName f)) now) evs"
    note s = start_steps_effect [OF index n2 _ _ start [folded m], of E lim]
    have r3: "status_rel E m lim sts1 sts2" and running: "\<forall>s \<in> set rdy. pending_at m sts2 (sName s) StepRunning"
      and less: "flow_rank lim sts2 < flow_rank lim sts1"
      using s c \<open>rdy \<noteq> []\<close> by auto
    have n3: "map stName sts2 = ?names" using status_rel_names [OF r3] n2 by simp
    have dist_rdy: "distinct (map sName rdy)" using c by blast
    have res: "distinct (map xrName results)" "xrName ` set results = sName ` set rdy"
      by (rule result_names [where g = "local_prompt E data", OF ex dist_rdy])+
    have run_r: "\<forall>r \<in> set results. pending_at m sts2 (xrName r) StepRunning"
    proof
      fix r assume "r \<in> set results"
      then have "xrName r \<in> sName ` set rdy" using res(2) by blast
      with running show "pending_at m sts2 (xrName r) StepRunning" by auto
    qed
    note fin = finish_steps_effect [OF index n3 res(1) run_r finish [folded m], of E lim]
    have r4: "status_rel E m lim (fSteps (flStatus f)) sts3" using r2 r3 fin by (blast intro: status_rel_trans)
    have r5: "status_rel E m lim sts3 (fSteps (flStatus f4))"
      using ParseOutputJSON_rel [OF E, of m lim "with_steps f1 sts3"] by (simp add: f4 m)
    have "same_shape f f4"
      unfolding f4 using shape [OF r4] same_shape_ParseOutputJSON by (blast intro: same_shape_trans)
    moreover have "flow_rank lim (fSteps (flStatus f4)) < flow_rank lim (fSteps (flStatus f))"
    proof -
      have "life_refines lim sts2 (fSteps (flStatus f4))" and "life_refines lim (fSteps (flStatus f)) sts1"
        using r5 fin r2 by (auto simp: status_rel_def intro: life_refines_trans)
      then have "flow_rank lim (fSteps (flStatus f4)) \<le> flow_rank lim sts2"
        "flow_rank lim sts1 \<le> flow_rank lim (fSteps (flStatus f))"
        by (simp_all add: life_refines_rank)
      with less show ?thesis by simp
    qed
    ultimately show ?thesis
      using p status_rel_trans [OF r4 r5] by (simp add: same_shape_def UpdateFlowPhase_frame)
  qed
qed

lemma loop_effect:
  assumes E: "range_ok E" and L: "leExec L = exec" and dist: "distinct (map sName (fsSteps (flSpec f)))"
    and run: "local_loop E L f evs w = Some (Done (g, evs'), w')"
  shows "same_shape f g \<and>
    status_rel E (BuildStatusByName f) (name_limit (fsSteps (flSpec f))) (fSteps (flStatus f)) (fSteps (flStatus g))"
  using dist run
proof (induction "flow_rank (name_limit (fsSteps (flSpec f))) (fSteps (flStatus f))" arbitrary: f evs w rule: less_induct)
  case less
  show ?case
  proof (cases "IsTerminalPhase (fPhase (flStatus f))")
    case True
    with less.prems(2) show ?thesis by (subst (asm) local_loop.simps) simp
  next
    case False
    with less.prems(2) obtain p w1 where pass: "local_pass E L f w = Some (Done p, w1)"
      by (subst (asm) local_loop.simps) (auto split: option.splits outcome.splits)
    note eff = pass_effect [OF E L less.prems(1) pass refl refl]
    show ?thesis
    proof (cases p)
      case (Break g1)
      with less.prems(2) False pass have "g1 = g" by (subst (asm) local_loop.simps) simp
      with eff Break show ?thesis by simp
    next
      case (Next g1 evs1)
      with eff have g1: "same_shape f g1"
        "status_rel E (BuildStatusByName f) (name_limit (fsSteps (flSpec f))) (fSteps (flStatus f)) (fSteps (flStatus g1))"
        "flow_rank (name_limit (fsSteps (flSpec f))) (fSteps (flStatus g1)) < flow_rank (name_limit (fsSteps (flSpec f))) (fSteps (flStatus f))"
        by auto
      have spec: "flSpec g1 = flSpec f" using g1(1) by (simp add: same_shape_def)
      have rest: "local_loop E L g1 (evs @ evs1) w1 = Some (Done (g, evs'), w')"
        using less.prems(2) False pass Next by (subst (asm) local_loop.simps) simp
      have "same_shape g1 g \<and> status_rel E (BuildStatusByName g1) (name_limit (fsSteps (flSpec g1))) (fSteps (flStatus g1)) (fSteps (flStatus g))"
        using less.hyps [OF _ _ rest] g1(3) less.prems(1) by (simp add: spec)
      then show ?thesis
        using g1 same_shape_index [OF g1(1)] spec by (auto intro: same_shape_trans status_rel_trans)
    qed
  qed
qed

end

text \<open>A schedule in which every call returns.\<close>

locale total_scheduler = step_scheduler exec for exec :: "(ArkFlowStep \<times> string) list \<Rightarrow> 'w \<Rightarrow> (step_result list outcome \<times> 'w) option" +
  assumes returns: "\<exists>results w'. exec jobs w = Some (Done results, w')"
begin

lemma pass_returns:
  assumes "leExec L = exec"
  shows "\<exists>p w'. local_pass E L f w = Some (Done p, w')"
proof -
  let ?m = "BuildStatusByName f" and ?data = "BuildTemplateData E f (BuildStatusByName f)"
  obtain rdy f2 w1 where col: "collectReadySteps E L (EvaluateLoops E f ?m ?data) ?m ?data w = (rdy, f2, w1)"
    by (metis prod_cases3)
  obtain sts w2 where start: "start_steps L ?m rdy (fSteps (flStatus f2)) w1 = (sts, w2)" by fastforce
  obtain results w3 where "exec (map (\<lambda>s. (s, local_prompt E ?data s)) rdy) w2 = Some (Done results, w3)"
    using returns by blast
  with col start assms show ?thesis
    by (cases "rdy = []") (auto simp: local_pass_def Let_def split: prod.split)
qed

lemma loop_returns:
  assumes E: "range_ok E" and L: "leExec L = exec" and dist: "distinct (map sName (fsSteps (flSpec f)))"
  shows "\<exists>g evs' w'. local_loop E L f evs w = Some (Done (g, evs'), w')"
  using dist
proof (induction "flow_rank (name_limit (fsSteps (flSpec f))) (fSteps (flStatus f))" arbitrary: f evs w rule: less_induct)
  case less
  obtain p w1 where pass: "local_pass E L f w = Some (Done p, w1)" using pass_returns [OF L] by blast
  note eff = pass_effect [OF E L less.prems pass refl refl]
  show ?case
  proof (cases "IsTerminalPhase (fPhase (flStatus f))")
    case True
    then show ?thesis by (subst local_loop.simps) simp
  next
    case False
    show ?thesis
    proof (cases p)
      case (Break g)
      with False pass show ?thesis by (subst local_loop.simps) simp
    next
      case (Next g evs1)
      with eff have "flSpec g = flSpec f"
        "flow_rank (name_limit (fsSteps (flSpec f))) (fSteps (flStatus g)) < flow_rank (name_limit (fsSteps (flSpec f))) (fSteps (flStatus f))"
        by (auto simp: same_shape_def)
      then have "\<exists>h evs' w'. local_loop E L g (evs @ evs1) w1 = Some (Done (h, evs'), w')"
        using less.hyps [of g "evs @ evs1" w1] less.prems by simp
      with False pass Next show ?thesis by (subst local_loop.simps) simp
    qed
  qed
qed

end

section \<open>The schedules of the model\<close>

lemma exec_steps_arrivals:
  "exec_steps X agents jobs w = Some (Done results, w') \<Longrightarrow> map xrName results = map (sName \<circ> fst) jobs"
proof (induction jobs arbitrary: w results w')
  case Nil
  then show ?case by simp
next
  case (Cons job jobs)
  obtain s prompt where job: "job = (s, prompt)" by fastforce
  from Cons.prems job obtain r rs w1 w2 where "exec_steps X agents jobs w1 = Some (Done rs, w2)" "results = r # rs" "xrName r = sName s"
    by (auto simp: Let_def split: option.splits outcome.splits prod.splits)
  with Cons.IH job show ?case by auto
qed

interpretation sequential: step_scheduler "exec_steps X agents" for X agents
  by unfold_locales (simp add: exec_steps_arrivals)

text \<open>\<open>ark run\<close> with the mock provider and without MCP: every call returns.\<close>

definition mock_executor ::
  "(string \<Rightarrow> string) \<Rightarrow> (duration \<Rightarrow> 'w \<Rightarrow> gotext option \<times> 'w) \<Rightarrow> mock_provider \<Rightarrow> 'w agent_env \<Rightarrow> ('w \<Rightarrow> time \<times> 'w) \<Rightarrow> 'w executor" where
  "mock_executor lower sleep p A clock =
     \<lparr>exProvider = (\<lambda>_. Inr (mock_RunTask lower sleep p)), exNoMCP = True, exEnv = A, exNow = clock\<rparr>"

lemma mock_runStep_returns:
  "\<exists>res w'. runStep (mock_executor lower sleep p A clock) agents s prompt w = Some (Done res, w')"
  by (auto simp: runStep_def mock_executor_def buildMCPManager_def RunTask_def mock_RunTask_def Let_def
      split: option.split prod.split)

lemma mock_exec_returns:
  "\<exists>results w'. exec_steps (mock_executor lower sleep p A clock) agents jobs w = Some (Done results, w')"
proof (induction jobs arbitrary: w)
  case Nil
  show ?case by simp
next
  case (Cons job jobs)
  let ?X = "mock_executor lower sleep p A clock"
  obtain s prompt where job: "job = (s, prompt)" by fastforce
  obtain start w1 where start: "exNow ?X w = (start, w1)" by fastforce
  obtain out tokens err w2 where run: "runStep ?X agents s prompt w1 = Some (Done (out, tokens, err), w2)"
    using mock_runStep_returns by (metis prod_cases3)
  obtain stop w3 where stop: "exNow ?X w2 = (stop, w3)" by fastforce
  obtain results w4 where "exec_steps ?X agents jobs w3 = Some (Done results, w4)" using Cons.IH by blast
  with job start run stop show ?case by simp
qed

interpretation mock_run: total_scheduler "exec_steps (mock_executor lower sleep p A clock) agents" for lower sleep p A clock agents
  by unfold_locales (rule mock_exec_returns)

end
