(* ===== verification/LocalLiveness.thy ===== *)
theory LocalLiveness
  imports LocalRun
begin

text \<open>
  When a run of the local executor reaches a terminal phase: the steps must be listed after the steps
  they depend on. Otherwise a pass that only skips a step can leave a step ready and stop.
\<close>

section \<open>Nothing is left ready\<close>

text \<open>No step depends on itself or on a step listed later.\<close>

fun listed_after_deps :: "ArkFlowStep list \<Rightarrow> bool" where
  "listed_after_deps [] = True"
| "listed_after_deps (s # ss) = (set (sDependsOn s) \<inter> sName ` set (s # ss) = {} \<and> listed_after_deps ss)"

lemma DepsSucceeded_same:
  assumes "status_index m names" and "\<And>d i. d \<in> set deps \<Longrightarrow> m d = Some i \<Longrightarrow> sts' ! i = sts ! i"
  shows "DepsSucceeded deps m sts' = DepsSucceeded deps m sts"
  using assms(2) by (auto simp: status_index.deps_succeeded [OF assms(1)])

lemma collect_ready_none:
  assumes index: "status_index m names"
  shows "map stName sts = names \<Longrightarrow> distinct (map sName steps) \<Longrightarrow> listed_after_deps steps \<Longrightarrow>
     collect_ready E L m data steps sts w = ([], sts', w') \<Longrightarrow> \<forall>s \<in> set steps. \<not> ready m sts' s"
proof (induction steps arbitrary: sts w)
  case Nil
  then show ?case by simp
next
  case (Cons step steps)
  have tail: "distinct (map sName steps)" "listed_after_deps steps" using Cons.prems by auto
  have new: "sName step \<notin> sName ` set steps" and deps: "set (sDependsOn step) \<inter> sName ` set (step # steps) = {}"
    using Cons.prems by auto
  show ?case
  proof (cases "ready m sts step")
    case False
    then have rest: "collect_ready E L m data steps sts w = ([], sts', w')"
      using Cons.prems(4) by (auto simp: ready_def split: option.splits if_splits)
    have same: "sts' ! i = sts ! i" if "m n = Some i" "n \<notin> sName ` set steps" for n i
      using collect_ready_effect [OF index Cons.prems(1) tail(1) rest] that by blast
    have "DepsSucceeded (sDependsOn step) m sts' = DepsSucceeded (sDependsOn step) m sts"
      by (rule DepsSucceeded_same [OF index]) (use deps same in auto)
    with False same new have "\<not> ready m sts' step" by (auto simp: ready_def split: option.splits)
    with Cons.IH [OF Cons.prems(1) tail rest] show ?thesis by simp
  next
    case True
    then obtain i where i: "m (sName step) = Some i" and p: "stPhase (sts ! i) = StepPending"
      and d: "DepsSucceeded (sDependsOn step) m sts"
      by (auto simp: ready_def split: option.splits)
    obtain now w1 where clock: "leNow L w = (now, w1)" by fastforce
    let ?sts = "update_at i (mark_skipped now) sts"
    have skip: "\<not> condition_holds E data step"
      using Cons.prems(4) i p d by (auto split: prod.splits)
    then have rest: "collect_ready E L m data steps ?sts w1 = ([], sts', w')"
      using Cons.prems(4) i p d clock by simp
    note ptr = status_index.pointer [OF index i Cons.prems(1)]
    have names: "map stName ?sts = names" using Cons.prems(1) by (simp add: map_update_at)
    have "sts' ! i = ?sts ! i"
      using collect_ready_effect [OF index names tail(1) rest] i new by blast
    then have "\<not> ready m sts' step" using ptr i by (simp add: ready_def)
    with Cons.IH [OF names tail rest] show ?thesis by simp
  qed
qed

section \<open>Between passes nothing runs\<close>

definition none_running :: "ArkFlow \<Rightarrow> bool" where
  "none_running f \<longleftrightarrow> (\<forall>st \<in> set (fSteps (flStatus f)). stPhase st \<noteq> StepRunning)"

lemma ParseOutputJSON_life:
  "range_ok E \<Longrightarrow> i < length (fSteps (flStatus f)) \<Longrightarrow>
     life_of (fSteps (flStatus (ParseOutputJSON E f m)) ! i) = life_of (fSteps (flStatus f) ! i)"
  by (simp add: ParseOutputJSON_nth)

lemma eval_loop_phase: "stPhase (eval_loop E data lp st) = StepRunning \<Longrightarrow> stPhase st = StepRunning"
  by (auto simp: eval_loop_def loop_reset_def split: if_splits sum.splits)

lemma EvaluateLoops_none_running: "none_running f \<Longrightarrow> none_running (EvaluateLoops E f m data)"
proof -
  have step: "\<forall>st \<in> set (eval_loop_step E m data s sts). stPhase st \<noteq> StepRunning"
    if "\<forall>st \<in> set sts. stPhase st \<noteq> StepRunning" for s sts
    using that eval_loop_phase
    by (fastforce simp: eval_loop_step_def in_set_conv_nth nth_update_at split: option.splits if_splits)
  assume "none_running f"
  then have "\<forall>st \<in> set (fold (eval_loop_step E m data) (fsSteps (flSpec f)) (fSteps (flStatus f))). stPhase st \<noteq> StepRunning"
    unfolding none_running_def by (rule fold_invariant) (rule step)
  then show ?thesis by (simp add: none_running_def EvaluateLoops_def)
qed

lemma collect_ready_none_running:
  "collect_ready E L m data steps sts w = (rdy, sts', w') \<Longrightarrow> \<forall>st \<in> set sts. stPhase st \<noteq> StepRunning \<Longrightarrow>
     \<forall>st \<in> set sts'. stPhase st \<noteq> StepRunning"
proof (induction steps arbitrary: sts w rdy)
  case Nil
  then show ?case by simp
next
  case (Cons step steps)
  have upd: "\<forall>st \<in> set (update_at i (mark_skipped now) sts). stPhase st \<noteq> StepRunning" for i now
    using Cons.prems(2) by (fastforce simp: in_set_conv_nth nth_update_at mark_skipped_def split: if_splits)
  from Cons.prems(1) obtain sts0 w0 rdy0 where "collect_ready E L m data steps sts0 w0 = (rdy0, sts', w')"
    "sts0 = sts \<or> (\<exists>i now. sts0 = update_at i (mark_skipped now) sts)"
    by (fastforce simp: Let_def split: option.splits if_splits prod.splits)
  with Cons.IH Cons.prems(2) upd show ?case by blast
qed

context step_scheduler
begin

lemma pass_none_running:
  assumes E: "range_ok E" and L: "leExec L = exec" and match: "entries_match f" and idle: "none_running f"
    and pass: "local_pass E L f w = Some (Done (Next g evs), w')"
  shows "none_running g"
proof -
  let ?m = "BuildStatusByName f" and ?names = "map stName (fSteps (flStatus f))" and ?lim = "\<lambda>_. 0"
  define data where "data = BuildTemplateData E f ?m"
  define f1 where "f1 = EvaluateLoops E f ?m data"
  have index: "status_index ?m ?names" by (rule by_name.status_index_axioms)
  have unique: "distinct ?names" using match by (simp add: entries_match_def)
  have s1: "same_shape f f1" by (simp add: f1_def same_shape_EvaluateLoops)
  then have n1: "map stName (fSteps (flStatus f1)) = ?names" and dist: "distinct (map sName (fsSteps (flSpec f1)))"
    using match by (simp_all add: same_shape_def entries_match_def)
  obtain rdy sts1 w1 where col: "collect_ready E L ?m data (fsSteps (flSpec f1)) (fSteps (flStatus f1)) w = (rdy, sts1, w1)"
    by (metis prod_cases3)
  have "none_running f1" unfolding f1_def by (rule EvaluateLoops_none_running [OF idle])
  then have idle1: "\<forall>st \<in> set sts1. stPhase st \<noteq> StepRunning"
    using collect_ready_none_running [OF col] by (simp add: none_running_def)
  note c = collect_ready_effect [OF index n1 dist col, of ?lim]
  then have n2: "map stName sts1 = ?names" using status_rel_names n1 by metis
  show ?thesis
  proof (rule pass_stages [OF L pass data_def f1_def col])
    fix now assume "Next g evs = Break (UpdateFlowPhase E (with_steps f1 sts1) data now)"
    then show ?thesis by simp
  next
    fix sts2 w2 results w3 sts3 w4 f4 now evs1
    assume start: "start_steps L ?m rdy sts1 w1 = (sts2, w2)"
      and ex: "exec (map (\<lambda>s. (s, local_prompt E data s)) rdy) w2 = Some (Done results, w3)"
      and finish: "finish_steps L ?m results sts2 w3 = (sts3, w4)"
      and f4: "f4 = ParseOutputJSON E (with_steps f1 sts3) ?m"
      and g: "Next g evs = Next (UpdateFlowPhase E f4 (BuildTemplateData E f4 ?m) now) evs1"
    have dist_rdy: "distinct (map sName rdy)" using c by blast
    have res: "distinct (map xrName results)" "xrName ` set results = sName ` set rdy"
      by (rule result_names [where g = "local_prompt E data", OF ex dist_rdy])+
    note s = start_steps_effect [OF index n2 dist_rdy _ start, of E ?lim]
    have s': "status_rel E ?m ?lim sts1 sts2" "\<forall>s \<in> set rdy. pending_at ?m sts2 (sName s) StepRunning"
      "\<forall>n i. ?m n = Some i \<longrightarrow> n \<notin> sName ` set rdy \<longrightarrow> sts2 ! i = sts1 ! i"
      using s c by auto
    have n3: "map stName sts2 = ?names" using status_rel_names [OF s'(1)] n2 by simp
    have run_r: "\<forall>r \<in> set results. pending_at ?m sts2 (xrName r) StepRunning"
    proof
      fix r assume "r \<in> set results"
      then have "xrName r \<in> sName ` set rdy" using res(2) by blast
      with s'(2) show "pending_at ?m sts2 (xrName r) StepRunning" by auto
    qed
    note fin = finish_steps_effect [OF index n3 res(1) run_r finish, of E ?lim]
    have n4: "map stName sts3 = ?names" using status_rel_names fin n3 by metis
    have idle3: "stPhase (sts3 ! i) \<noteq> StepRunning" if i: "i < length sts3" for i
    proof -
      have len: "i < length (fSteps (flStatus f))" using i n4 by (metis length_map)
      then have mi: "?m (?names ! i) = Some i"
        by (intro by_name.index_unique [OF unique]) simp
      show ?thesis
      proof (cases "?names ! i \<in> xrName ` set results")
        case True
        then obtain r where r: "r \<in> set results" "?names ! i = xrName r" by blast
        then have "pending_at ?m sts3 (xrName r) (if xrErr r = None then StepSucceeded else StepFailed)" using fin by blast
        with mi r show ?thesis by (auto simp: pending_at_def split: if_splits)
      next
        case False
        then have "sts3 ! i = sts1 ! i" using fin s'(3) mi res(2) by metis
        moreover have "i < length sts1" using len n2 by (metis length_map)
        ultimately show ?thesis using idle1 by simp
      qed
    qed
    have "none_running f4"
    proof -
      have "life_of (fSteps (flStatus f4) ! i) = life_of (sts3 ! i)" if "i < length sts3" for i
        using that ParseOutputJSON_life [OF E, of i "with_steps f1 sts3"] by (simp add: f4)
      moreover have "length (fSteps (flStatus f4)) = length sts3"
        using same_shape_length [OF same_shape_ParseOutputJSON, of E "with_steps f1 sts3"] by (simp add: f4)
      ultimately show ?thesis using idle3
        by (auto simp: none_running_def in_set_conv_nth life_of_def)
    qed
    with g show ?thesis by (simp add: none_running_def UpdateFlowPhase_frame)
  qed
qed

lemma break_terminal:
  assumes E: "range_ok E" and L: "leExec L = exec" and match: "entries_match f" and idle: "none_running f"
    and valid: "ValidateDAG f = None" and listed: "listed_after_deps (fsSteps (flSpec f))"
    and pass: "local_pass E L f w = Some (Done (Break g), w')"
  shows "IsTerminalPhase (fPhase (flStatus g))"
proof (rule ccontr)
  assume going: "\<not> IsTerminalPhase (fPhase (flStatus g))"
  let ?m = "BuildStatusByName f" and ?names = "map stName (fSteps (flStatus f))"
  define data where "data = BuildTemplateData E f ?m"
  define f1 where "f1 = EvaluateLoops E f ?m data"
  have index: "status_index ?m ?names" by (rule by_name.status_index_axioms)
  have s1: "same_shape f f1" by (simp add: f1_def same_shape_EvaluateLoops)
  then have n1: "map stName (fSteps (flStatus f1)) = ?names" and spec: "flSpec f1 = flSpec f"
    and dist: "distinct (map sName (fsSteps (flSpec f1)))"
    using match by (simp_all add: same_shape_def entries_match_def)
  obtain rdy sts1 w1 where col: "collect_ready E L ?m data (fsSteps (flSpec f1)) (fSteps (flStatus f1)) w = (rdy, sts1, w1)"
    by (metis prod_cases3)
  obtain now where rdy: "rdy = []" and g: "g = UpdateFlowPhase E (with_steps f1 sts1) data now"
    by (rule pass_stages [OF L pass data_def f1_def col]) auto
  let ?f2 = "with_steps f1 sts1"
  have n2: "map stName sts1 = ?names"
    using collect_ready_effect [OF index n1 dist col, of "\<lambda>_. 0"] status_rel_names n1 by metis
  have shape: "same_shape f ?f2" using s1 n2 by (simp add: same_shape_def)
  have m2: "BuildStatusByName ?f2 = ?m" by (rule same_shape_index [OF shape])
  have "none_running f1" unfolding f1_def by (rule EvaluateLoops_none_running [OF idle])
  then have "\<not> list_ex in_flight (fSteps (flStatus ?f2))"
    using collect_ready_none_running [OF col] by (auto simp: none_running_def in_flight_def list_ex_iff)
  moreover have "deps_known ?f2" "acyclic (flow_graph ?f2)"
    using valid spec by (simp_all add: ValidateDAG_None deps_known_def flow_graph_def)
  moreover have "\<not> list_ex step_failed (fSteps (flStatus ?f2))" "\<not> list_all step_done (fSteps (flStatus ?f2))"
    using undecided_scan [of E ?f2 data now] going by (auto simp: g)
  ultimately obtain s where s: "s \<in> set (fsSteps (flSpec ?f2))" "ready (BuildStatusByName ?f2) (fSteps (flStatus ?f2)) s"
    using ready_step_exists [OF entries_match_shape [OF shape match]] by blast
  from s(2) have "ready ?m sts1 s" unfolding m2 by simp
  moreover have "\<forall>s \<in> set (fsSteps (flSpec f1)). \<not> ready ?m sts1 s"
    by (rule collect_ready_none [OF index n1 dist]) (use listed spec col rdy in simp_all)
  ultimately show False using s(1) by simp
qed

lemma loop_terminal:
  assumes E: "range_ok E" and L: "leExec L = exec"
    and run: "local_loop E L f evs w = Some (Done (g, evs'), w')"
    and inv: "entries_match f" "none_running f" "ValidateDAG f = None" "listed_after_deps (fsSteps (flSpec f))"
  shows "IsTerminalPhase (fPhase (flStatus g))"
  using run inv
proof (induction "flow_rank (name_limit (fsSteps (flSpec f))) (fSteps (flStatus f))" arbitrary: f evs w rule: less_induct)
  case less
  have dist: "distinct (map sName (fsSteps (flSpec f)))" using less.prems(2) by (simp add: entries_match_def)
  show ?case
  proof (cases "IsTerminalPhase (fPhase (flStatus f))")
    case True
    with less.prems(1) show ?thesis by (subst (asm) local_loop.simps) simp
  next
    case False
    with less.prems(1) obtain p w1 where pass: "local_pass E L f w = Some (Done p, w1)"
      by (subst (asm) local_loop.simps) (auto split: option.splits outcome.splits)
    show ?thesis
    proof (cases p)
      case (Break g1)
      with less.prems(1) False pass have "g1 = g" by (subst (asm) local_loop.simps) simp
      with break_terminal [OF E L less.prems(2-5)] pass Break show ?thesis by blast
    next
      case (Next g1 evs1)
      from pass_effect [OF E L dist pass refl refl] Next have shape: "same_shape f g1"
        and less_rank: "flow_rank (name_limit (fsSteps (flSpec f))) (fSteps (flStatus g1))
            < flow_rank (name_limit (fsSteps (flSpec f))) (fSteps (flStatus f))"
        by auto
      have spec: "flSpec g1 = flSpec f" using shape by (simp add: same_shape_def)
      have rest: "local_loop E L g1 (evs @ evs1) w1 = Some (Done (g, evs'), w')"
        using less.prems(1) False pass Next by (subst (asm) local_loop.simps) simp
      show ?thesis
      proof (rule less.hyps [OF _ rest])
        show "none_running g1" using pass_none_running [OF E L less.prems(2,3)] pass Next by blast
        show "entries_match g1" by (rule entries_match_shape [OF shape less.prems(2)])
        show "ValidateDAG g1 = None" using less.prems(4) by (simp add: ValidateDAG_None deps_known_def flow_graph_def spec)
        show "listed_after_deps (fsSteps (flSpec g1))" using less.prems(5) by (simp add: spec)
      qed (simp add: less_rank spec)
    qed
  qed
qed

text \<open>A run from the start: it initialises the steps, so the entries match.\<close>

lemma Run_from_start:
  assumes "fPhase (flStatus f) = FlowEmpty" and "leNow L w = (now, w1)"
    and "distinct (map sName (fsSteps (flSpec f)))" and "f0 = InitializeSteps E f now"
  shows "local_Run E L f w = local_loop E L f0 [] w1" and "entries_match f0" and "none_running f0" and "flSpec f0 = flSpec f"
proof -
  show "local_Run E L f w = local_loop E L f0 [] w1" using assms by (simp add: local_Run_def)
  have f0: "fSteps (flStatus f0) = map pending_status (fsSteps (flSpec f))" "flSpec f0 = flSpec f"
    using assms by (simp_all add: InitializeSteps_def SetCondition_frame)
  then show "entries_match f0" "none_running f0" "flSpec f0 = flSpec f"
    using assms(3) by (simp_all add: entries_match_def none_running_def pending_status_def comp_def)
qed

end

end
