(* ===== verification/ArkCli.thy ===== *)
theory ArkCli
  imports LocalRun
begin

text \<open>
  \<^verbatim>\<open>internal/ark/loader.go\<close> and \<^verbatim>\<open>cmd/ark/main.go\<close>: loading a multi-document file, and the subcommands
  \<open>run\<close>, \<open>validate\<close> and \<open>init\<close>. The YAML and JSON decoders, the file system and the LLM providers are the
  operations of \<open>cli_env\<close>; what is printed is returned.
\<close>

section \<open>The loader\<close>

record yaml_env =
  yaKind :: "string \<Rightarrow> gotext + string"
  yaFlow :: "string \<Rightarrow> gotext + ArkFlow"
  yaAgent :: "string \<Rightarrow> gotext + ArkAgent"

definition doc_sep :: string where "doc_sep = nl @ ''---''"

definition clean_doc :: "string \<Rightarrow> string" where
  "clean_doc part = TrimSpace (TrimPrefix (TrimSpace part) ''---'')"

definition splitDocs :: "string \<Rightarrow> string list" where
  "splitDocs data = filter (\<lambda>part. 0 < length part) (map clean_doc (split_at doc_sep data))"

type_synonym loaded = "ArkFlow list \<times> (string \<rightharpoonup> ArkAgent)"

fun parse_docs :: "yaml_env \<Rightarrow> nat \<Rightarrow> string list \<Rightarrow> loaded \<Rightarrow> gotext + loaded" where
  "parse_docs Y i [] acc = Inr acc"
| "parse_docs Y i (part # parts) (flows, agents) =
     (case yaKind Y part of
        Inl _ \<Rightarrow> parse_docs Y (Suc i) parts (flows, agents)
      | Inr kind \<Rightarrow>
          if kind = ''ArkFlow''
          then (case yaFlow Y part of
                  Inl err \<Rightarrow> Inl (TFmt ''document %d (ArkFlow): %w'' [GInt (int i), GText err])
                | Inr f \<Rightarrow> parse_docs Y (Suc i) parts (flows @ [f], agents))
          else if kind = ''ArkAgent''
          then (case yaAgent Y part of
                  Inl err \<Rightarrow> Inl (TFmt ''document %d (ArkAgent): %w'' [GInt (int i), GText err])
                | Inr a \<Rightarrow> parse_docs Y (Suc i) parts (flows, agents(mName (agMeta a) \<mapsto> a)))
          else parse_docs Y (Suc i) parts (flows, agents))"

definition ParseDocs :: "yaml_env \<Rightarrow> string \<Rightarrow> gotext + loaded" where
  "ParseDocs Y data = parse_docs Y 0 (splitDocs data) ([], Map.empty)"

section \<open>Commands\<close>

text \<open>The non-ASCII characters of the messages, as UTF-8.\<close>

definition em_dash :: string where "em_dash = [CHR 0xE2, CHR 0x80, CHR 0x94]"
definition check_mark :: string where "check_mark = [CHR 0xE2, CHR 0x9C, CHR 0x93]"
definition tree_branch :: string where "tree_branch = [CHR 0xE2, CHR 0x94, CHR 0x94, CHR 0xE2, CHR 0x94, CHR 0x80]"

record run_flags =
  rfProvider :: string
  rfFlow :: string
  rfDryRun :: bool
  rfWatch :: bool
  rfNoMCP :: bool
  rfOutput :: string
  rfInput :: string

record json_step =
  jsName :: string
  jsStatus :: string
  jsTokens :: i64
  jsOutput :: string

record json_result =
  jrStatus :: string
  jrDurationMS :: int
  jrTotalTokens :: i64
  jrOutput :: string
  jrSteps :: "json_step list"

datatype cli_out = Line gotext | ErrLine gotext | JsonResult json_result

record 'w cli_env =
  clReadFile :: "string \<Rightarrow> gotext + string"
  clYaml :: yaml_env
  clInput :: "string \<Rightarrow> gotext + (string \<rightharpoonup> string)"
  clExt :: ext
  clRegistry :: "string \<rightharpoonup> 'w provider"
  clAgentEnv :: "'w agent_env"
  clNow :: "'w \<Rightarrow> time \<times> 'w"
  clExec :: "'w executor \<Rightarrow> (string \<rightharpoonup> ArkAgent) \<Rightarrow> (ArkFlowStep \<times> string) list \<Rightarrow> 'w \<Rightarrow> (step_result list outcome \<times> 'w) option"
  clEncode :: "json_result \<Rightarrow> gotext option"
  clExists :: "string \<Rightarrow> 'w \<Rightarrow> bool"
  clMkdirAll :: "string \<Rightarrow> 'w \<Rightarrow> gotext option \<times> 'w"
  clWriteFile :: "string \<Rightarrow> string \<Rightarrow> 'w \<Rightarrow> gotext option \<times> 'w"

definition LoadFile :: "'w cli_env \<Rightarrow> string \<Rightarrow> gotext + loaded" where
  "LoadFile C path =
     (case clReadFile C path of
        Inl err \<Rightarrow> Inl (TFmt ''reading %s: %w'' [GStr path, GText err])
      | Inr data \<Rightarrow> ParseDocs (clYaml C) data)"

text \<open>The warning of the second case goes to standard error.\<close>

definition flow_name :: "ArkFlow \<Rightarrow> string" where "flow_name f = mName (flMeta f)"

definition selectFlow :: "ArkFlow list \<Rightarrow> string \<Rightarrow> cli_out list \<times> (gotext + ArkFlow)" where
  "selectFlow flows n =
     (if n \<noteq> []
      then ([], case find (\<lambda>f. flow_name f = n) flows of
                  Some f \<Rightarrow> Inr f
                | None \<Rightarrow> Inl (TFmt ''flow %q not found; available: %v'' [GStr n, GStrs (map flow_name flows)]))
      else ((if 1 < length flows
             then [ErrLine (TFmt (''warning: %d flows found %v '' @ em_dash @ '' running %q (use --flow <name> to pick)'' @ nl)
                     [GInt (int (length flows)), GStrs (map flow_name flows), GStr (flow_name (hd flows))])]
             else []), Inr (hd flows)))"

definition dry_line :: "(string \<rightharpoonup> ArkAgent) \<Rightarrow> ArkFlowStep \<Rightarrow> cli_out" where
  "dry_line agents step =
     Line (TFmt (''  %-20s  agent=%-20s  deps=%s'' @ nl)
       [GStr (sName step),
        GStr (case agents (sArkAgent step) of Some a \<Rightarrow> asModel (agSpec a) | None \<Rightarrow> ''<not found>''),
        (if 0 < length (sDependsOn step) then GStrs (sDependsOn step) else GStr ''-'')])"

definition missing_agent :: "(string \<rightharpoonup> ArkAgent) \<Rightarrow> ArkFlowStep \<Rightarrow> bool" where
  "missing_agent agents step \<longleftrightarrow> agents (sArkAgent step) = None"

definition missing_line :: "ArkFlowStep \<Rightarrow> gotext" where
  "missing_line step = TFmt ''step %q references unknown ArkAgent %q'' [GStr (sName step), GStr (sArkAgent step)]"

definition dryRun :: "ArkFlow \<Rightarrow> (string \<rightharpoonup> ArkAgent) \<Rightarrow> cli_out list \<times> gotext option" where
  "dryRun f agents =
     (case ValidateDAG f of
        Some err \<Rightarrow> ([], Some (TFmt ''invalid DAG: %w'' [GText err]))
      | None \<Rightarrow>
          (let steps = fsSteps (flSpec f);
               missing = map missing_line (filter (missing_agent agents) steps);
               out = [Line (TFmt (''Flow:   %s'' @ nl) [GStr (flow_name f)]), Line (TFmt (''Steps:  %d'' @ nl) [GInt (int (length steps))])] @
                     map (dry_line agents) steps
           in if 0 < length missing
              then (out @ map (\<lambda>t. ErrLine (TFmt (''error: %s'' @ nl) [GText t])) missing,
                    Some (TFmt (''%d missing agent(s) '' @ em_dash @ '' add the ArkAgent definitions to your YAML'') [GInt (int (length missing))]))
              else (out @ [Line (TLit (check_mark @ '' YAML is valid '' @ em_dash @ '' use `ark run` to execute'' @ nl))], None)))"

definition buildProviderFunc :: "(string \<rightharpoonup> 'p) \<Rightarrow> string \<Rightarrow> string \<Rightarrow> gotext + 'p" where
  "buildProviderFunc registry flag model =
     (let n = (if flag = ''auto'' then Detect model else flag) in
      case new_provider registry n of
        Inl _ \<Rightarrow> Inl (TFmt (''unknown provider %q '' @ em_dash @ '' supported: anthropic, openai, mock'') [GStr n])
      | Inr p \<Rightarrow> Inr p)"

definition event_lines :: "StepEvent \<Rightarrow> cli_out list" where
  "event_lines e =
     (case xePhase e of
        StepRunning \<Rightarrow> [Line (TFmt (''  %-20s [running]'' @ nl) [GStr (xeStep e)])]
      | StepSucceeded \<Rightarrow>
          [Line (TFmt (''  %-20s [done]    %d tokens  %.1fs'' @ nl)
             [GStr (xeStep e), GInt (sint (quInputTokens (xeTokens e) + quOutputTokens (xeTokens e))), GInt (sint (xeElapsed e))])] @
          (if xeOutput e \<noteq> []
           then [Line (TFmt (''    '' @ tree_branch @ '' %s'' @ nl) [GStr (if 120 < length (xeOutput e) then take 120 (xeOutput e) @ ''...'' else xeOutput e)])]
           else [])
      | StepSkipped \<Rightarrow> [Line (TFmt (''  %-20s [skipped]'' @ nl) [GStr (xeStep e)])]
      | StepFailed \<Rightarrow>
          [Line (TFmt (''  %-20s [failed]  %v'' @ nl) [GStr (xeStep e), (case xeErr e of None \<Rightarrow> GStr ''<nil>'' | Some t \<Rightarrow> GText t)])]
      | _ \<Rightarrow> [])"

definition buildEventHandler :: "bool \<Rightarrow> string \<Rightarrow> StepEvent \<Rightarrow> cli_out list" where
  "buildEventHandler watch outputFmt e = (if \<not> watch \<or> outputFmt = ''json'' then [] else event_lines e)"

fun step_phase_string :: "StepPhase \<Rightarrow> string" where
  "step_phase_string StepPending = ''Pending''"
| "step_phase_string StepRunning = ''Running''"
| "step_phase_string StepSucceeded = ''Succeeded''"
| "step_phase_string StepFailed = ''Failed''"
| "step_phase_string StepSkipped = ''Skipped''"

fun cli_phase_string :: "FlowPhase \<Rightarrow> string" where
  "cli_phase_string FlowEmpty = []"
| "cli_phase_string FlowPending = ''Pending''"
| "cli_phase_string FlowRunning = ''Running''"
| "cli_phase_string FlowSucceeded = ''Succeeded''"
| "cli_phase_string FlowFailed = ''Failed''"

definition usage_total :: "TokenUsage option \<Rightarrow> i64" where
  "usage_total u = (case u of None \<Rightarrow> 0 | Some u \<Rightarrow> tuTotalTokens u)"

definition flow_error :: "ArkFlow \<Rightarrow> gotext option" where
  "flow_error f = (if fPhase (flStatus f) = FlowFailed then Some (TLit ''flow failed'') else None)"

definition printText :: "ArkFlow \<Rightarrow> duration \<Rightarrow> cli_out list \<times> gotext option" where
  "printText f elapsed =
     ([Line (TFmt (nl @ ''Flow %s in %.1fs '' @ em_dash @ '' total: %d tokens'' @ nl)
         [GStr (cli_phase_string (fPhase (flStatus f))), GInt (sint elapsed), GInt (sint (usage_total (fTotalTokenUsage (flStatus f))))])] @
      (if fOutput (flStatus f) \<noteq> [] then [Line (TFmt (nl @ ''Output:'' @ nl @ ''%s'' @ nl) [GStr (fOutput (flStatus f))])] else []),
      flow_error f)"

text \<open>\<open>elapsed.Milliseconds()\<close>.\<close>

definition elapsed_ms :: "duration \<Rightarrow> int" where
  "elapsed_ms d = (if 0 \<le> sint d then sint d div 1000000 else - ((- sint d) div 1000000))"

definition json_result_of :: "ArkFlow \<Rightarrow> duration \<Rightarrow> json_result" where
  "json_result_of f elapsed =
     \<lparr>jrStatus = cli_phase_string (fPhase (flStatus f)), jrDurationMS = elapsed_ms elapsed,
      jrTotalTokens = usage_total (fTotalTokenUsage (flStatus f)), jrOutput = fOutput (flStatus f),
      jrSteps = map (\<lambda>st. \<lparr>jsName = stName st, jsStatus = step_phase_string (stPhase st),
                            jsTokens = usage_total (stTokenUsage st), jsOutput = stOutput st\<rparr>) (fSteps (flStatus f))\<rparr>"

definition printJSON :: "(json_result \<Rightarrow> gotext option) \<Rightarrow> ArkFlow \<Rightarrow> duration \<Rightarrow> cli_out list \<times> gotext option" where
  "printJSON encode f elapsed =
     (let r = json_result_of f elapsed in
      case encode r of
        Some err \<Rightarrow> ([], Some err)
      | None \<Rightarrow> ([JsonResult r], flow_error f))"

definition printResult :: "'w cli_env \<Rightarrow> ArkFlow \<Rightarrow> duration \<Rightarrow> string \<Rightarrow> cli_out list \<times> gotext option" where
  "printResult C f elapsed outputFmt =
     (if outputFmt = ''json'' then printJSON (clEncode C) f elapsed else printText f elapsed)"

definition load_and_select :: "'w cli_env \<Rightarrow> string \<Rightarrow> string \<Rightarrow> cli_out list \<times> (gotext + ArkFlow \<times> (string \<rightharpoonup> ArkAgent))" where
  "load_and_select C path n =
     (case LoadFile C path of
        Inl err \<Rightarrow> ([], Inl err)
      | Inr (flows, agents) \<Rightarrow>
          if length flows = 0 then ([], Inl (TFmt ''no ArkFlow resources found in %s'' [GStr path]))
          else (case selectFlow flows n of
                  (out, Inl err) \<Rightarrow> (out, Inl err)
                | (out, Inr f) \<Rightarrow> (out, Inr (f, agents))))"

definition validateCmd :: "'w cli_env \<Rightarrow> string \<Rightarrow> string \<Rightarrow> cli_out list \<times> gotext option" where
  "validateCmd C path n =
     (case load_and_select C path n of
        (out, Inl err) \<Rightarrow> (out, Some err)
      | (out, Inr (f, agents)) \<Rightarrow> (let (out', err) = dryRun f agents in (out @ out', err)))"

definition apply_input :: "'w cli_env \<Rightarrow> string \<Rightarrow> ArkFlow \<Rightarrow> gotext + ArkFlow" where
  "apply_input C raw f =
     (if raw = [] then Inr f
      else case clInput C raw of
        Inl err \<Rightarrow> Inl (TFmt ''--input must be a JSON object of string values: %w'' [GText err])
      | Inr m \<Rightarrow> Inr (f\<lparr>flSpec := (flSpec f)\<lparr>fsInput := m\<rparr>\<rparr>))"

definition cli_executor :: "'w cli_env \<Rightarrow> run_flags \<Rightarrow> 'w executor" where
  "cli_executor C flags =
     \<lparr>exProvider = buildProviderFunc (clRegistry C) (rfProvider flags), exNoMCP = rfNoMCP flags,
      exEnv = clAgentEnv C, exNow = clNow C\<rparr>"

definition runFlow ::
  "'w cli_env \<Rightarrow> string \<Rightarrow> run_flags \<Rightarrow> 'w \<Rightarrow> ((cli_out list \<times> gotext option) outcome \<times> 'w) option" where
  "runFlow C path flags w =
     (case load_and_select C path (rfFlow flags) of
        (out, Inl err) \<Rightarrow> Some (Done (out, Some err), w)
      | (out, Inr (f, agents)) \<Rightarrow>
     (case apply_input C (rfInput flags) f of
        Inl err \<Rightarrow> Some (Done (out, Some err), w)
      | Inr f \<Rightarrow>
          if rfDryRun flags then (let (out', err) = dryRun f agents in Some (Done (out @ out', err), w))
          else
            (let X = cli_executor C flags;
                 (start, w) = clNow C w
             in case local_Run (clExt C) \<lparr>leNow = clNow C, leExec = clExec C X agents\<rparr> f w of
                  None \<Rightarrow> None
                | Some (Panic, w) \<Rightarrow> Some (Panic, w)
                | Some (Done (g, evs), w) \<Rightarrow>
                    (let (stop, w) = clNow C w;
                         (out', err) = printResult C g (time_Sub stop start) (rfOutput flags)
                     in Some (Done (out @ concat (map (buildEventHandler (rfWatch flags) (rfOutput flags)) evs) @ out', err), w)))))"

section \<open>\<open>ark init\<close>\<close>

definition text_lines :: "string list \<Rightarrow> string" where
  "text_lines ls = concat (map (\<lambda>l. l @ nl) ls)"

definition initQuickstartYAML :: "string \<Rightarrow> string" where
  "initQuickstartYAML n = text_lines
     [''apiVersion: arkonis.dev/v1alpha1'',
      ''kind: ArkAgent'',
      ''metadata:'',
      ''  name: '' @ n @ ''-agent'',
      ''spec:'',
      ''  model: claude-sonnet-4-20250514'',
      ''  systemPrompt: |'',
      ''    You are a helpful assistant. Answer questions clearly and concisely.'',
      ''  limits:'',
      ''    maxTokensPerCall: 4000'',
      ''    timeoutSeconds: 60'',
      ''---'',
      ''apiVersion: arkonis.dev/v1alpha1'',
      ''kind: ArkFlow'',
      ''metadata:'',
      ''  name: '' @ n @ ''-flow'',
      ''spec:'',
      ''  input:'',
      ''    question: \"What is a Kubernetes operator?\"'',
      ''  steps:'',
      ''    - name: answer'',
      ''      arkAgent: '' @ n @ ''-agent'',
      ''      inputs:'',
      ''        prompt: \"{{ .pipeline.input.question }}\"'',
      ''  output: \"{{ .steps.answer.output }}\"'']"

definition initEnvExample :: string where
  "initEnvExample = text_lines
     [''# Copy this file to .env and fill in your API keys.'', [],
      ''# Required: LLM provider API key.'', ''ANTHROPIC_API_KEY=sk-ant-...'', ''# OPENAI_API_KEY=sk-...'', [],
      ''# Required for Kubernetes deployments (not needed for ark run locally).'',
      ''TASK_QUEUE_URL=redis.ark-system.svc.cluster.local:6379'']"

definition initDockerCompose :: string where
  "initDockerCompose = text_lines
     [''# Local Redis for task queue '' @ em_dash @ '' used when running the operator in a cluster.'',
      ''# Not required for ark run locally.'', ''services:'', ''  redis:'', ''    image: redis:7-alpine'', ''    ports:'',
      ''      - \"6379:6379\"'']"

fun write_files :: "'w cli_env \<Rightarrow> string \<Rightarrow> (string \<times> string) list \<Rightarrow> 'w \<Rightarrow> gotext option \<times> 'w" where
  "write_files C n [] w = (None, w)"
| "write_files C n ((filename, content) # files) w =
     (case clWriteFile C (n @ ''/'' @ filename) content w of
        (Some err, w) \<Rightarrow> (Some err, w)
      | (None, w) \<Rightarrow> write_files C n files w)"

definition init_lines :: "string \<Rightarrow> cli_out list" where
  "init_lines n =
     [Line (TFmt (''Created project %q'' @ nl @ nl) [GStr n]), Line (TLit (''Next steps:'' @ nl)),
      Line (TFmt (''  cd %s'' @ nl) [GStr n]), Line (TLit (''  ark run quickstart.yaml --provider mock --watch'' @ nl)),
      Line (TLit (''  ark run quickstart.yaml --provider anthropic --watch'' @ nl))]"

definition initProject :: "'w cli_env \<Rightarrow> string \<Rightarrow> 'w \<Rightarrow> (cli_out list \<times> gotext option) \<times> 'w" where
  "initProject C n w =
     (if clExists C n w then (([], Some (TFmt ''directory %q already exists'' [GStr n])), w)
      else case clMkdirAll C n w of
        (Some err, w) \<Rightarrow> (([], Some err), w)
      | (None, w) \<Rightarrow>
          (case write_files C n (xRangeInputs (clExt C)
                  [(''quickstart.yaml'', initQuickstartYAML n), (''.env.example'', initEnvExample),
                   (''docker-compose.yml'', initDockerCompose)]) w of
             (Some err, w) \<Rightarrow> (([], Some err), w)
           | (None, w) \<Rightarrow> ((init_lines n, None), w)))"

section \<open>Splitting what was joined\<close>

fun join_docs :: "string list \<Rightarrow> string" where
  "join_docs [] = []"
| "join_docs [d] = d"
| "join_docs (d # ds) = d @ doc_sep @ nl @ join_docs ds"

definition plain_doc :: "string \<Rightarrow> bool" where
  "plain_doc d \<longleftrightarrow> d \<noteq> [] \<and> TrimSpace d = d \<and> \<not> HasPrefix d ''---'' \<and> Index d doc_sep = None"

lemma doc_sep_chars: "doc_sep = [CHR 0x0A, CHR 0x2D, CHR 0x2D, CHR 0x2D]"
  by (simp add: doc_sep_def nl_def)

lemma no_prefix_append:
  "\<not> HasPrefix (c # s) doc_sep \<Longrightarrow> \<not> HasPrefix (c # s @ doc_sep @ rest) doc_sep"
  by (cases s; cases "tl s"; cases "tl (tl s)") (auto simp: HasPrefix_def doc_sep_chars)

lemma Index_joined: "Index d doc_sep = None \<Longrightarrow> Index (d @ doc_sep @ rest) doc_sep = Some (length d)"
proof (induction d)
  case Nil
  then show ?case by (simp add: doc_sep_chars HasPrefix_def)
next
  case (Cons c d)
  then have "\<not> HasPrefix (c # d) doc_sep" "Index d doc_sep = None" by (auto split: if_splits)
  with Cons.IH no_prefix_append show ?case by simp
qed

lemma TrimSpace_nl: "TrimSpace (nl @ d) = TrimSpace d"
  by (simp add: TrimSpace_def nl_def trim_left.simps [of "CHR 0x0A # d"] space_seqs_def HasPrefix_def)

lemma Index_nl: "plain_doc d \<Longrightarrow> Index (nl @ d) doc_sep = None"
  by (cases d; cases "tl d"; cases "tl (tl d)") (auto simp: plain_doc_def nl_def doc_sep_chars HasPrefix_def)

lemma clean_plain: "plain_doc d \<Longrightarrow> clean_doc d = d" "plain_doc d \<Longrightarrow> clean_doc (nl @ d) = d"
  by (simp_all add: clean_doc_def plain_doc_def TrimSpace_nl TrimPrefix_def)

lemma split_head:
  assumes "Index d doc_sep = None"
  shows "split_at doc_sep d = [d]" "split_at doc_sep (d @ doc_sep @ rest) = d # split_at doc_sep rest"
proof -
  have "doc_sep \<noteq> []" by (simp add: doc_sep_chars)
  then show "split_at doc_sep (d @ doc_sep @ rest) = d # split_at doc_sep rest"
    by (subst split_at.simps) (simp add: Index_joined [OF assms])
  show "split_at doc_sep d = [d]" by (subst split_at.simps) (simp add: assms)
qed

lemma split_joined_nl:
  "list_all plain_doc (d # ds) \<Longrightarrow> split_at doc_sep (nl @ join_docs (d # ds)) = map ((@) nl) (d # ds)"
proof (induction ds arbitrary: d)
  case Nil
  then show ?case using split_head(1) [OF Index_nl] by simp
next
  case (Cons e ds)
  have "split_at doc_sep ((nl @ d) @ doc_sep @ nl @ join_docs (e # ds)) = (nl @ d) # split_at doc_sep (nl @ join_docs (e # ds))"
    by (rule split_head(2)) (use Cons.prems in \<open>simp add: Index_nl\<close>)
  with Cons show ?case by simp
qed

lemma split_joined:
  assumes "list_all plain_doc (d # ds)"
  shows "split_at doc_sep (join_docs (d # ds)) = d # map ((@) nl) ds"
proof (cases ds)
  case Nil
  with assms show ?thesis using split_head(1) by (simp add: plain_doc_def)
next
  case (Cons e es)
  with assms have "Index d doc_sep = None" "list_all plain_doc (e # es)" by (simp_all add: plain_doc_def)
  with Cons show ?thesis by (simp add: split_head(2) split_joined_nl)
qed

end
