(* ===== verification/LocalProps.thy ===== *)
theory LocalProps
  imports LocalLiveness ArkCli OperatorProps
begin

text \<open>
  The properties of running flows without a cluster: the executor returns, refines the step lifecycle
  and finishes when the steps are listed in order; the configuration it runs an agent with; the loader
  and the checks of the command line.
\<close>

section \<open>Samples\<close>

definition quiet_http :: "'w http_env" where
  "quiet_http =
     \<lparr>heNewRequest = (\<lambda>m u. None), heDo = (\<lambda>r w. (Inl (TLit ''refused''), w)), heReadAll = (\<lambda>r. Inr (hrBody r)),
      heTools = (\<lambda>r. Inr []), heContent = (\<lambda>r. Inr []), heMarshalCall = (\<lambda>n a. Inr a)\<rparr>"

definition quiet_env :: "int agent_env" where
  "quiet_env = \<lparr>aeHttp = quiet_http, aeRedis = \<lparr>reParseURL = (\<lambda>u. Inr u), reCmd = (\<lambda>a c w. (Inr [], w)),
      reXReadGroup = (\<lambda>a g c s w. (Inr [], w))\<rparr>, aePromptArg = (\<lambda>s. Inr s), aeErrText = (\<lambda>_. ''failed''), aeWithTimeout = (\<lambda>_ w. w)\<rparr>"

definition sample_mock :: mock_provider where
  "sample_mock = \<lparr>mkResponses = [], mkDefault = ''done'', mkDelay = 0\<rparr>"

text \<open>The mock provider, on a clock that ticks at each reading.\<close>

definition mock_exec :: "int executor" where
  "mock_exec = mock_executor ToLower (\<lambda>d w. (None, w)) sample_mock quiet_env (\<lambda>w. (w, w + 1))"

definition mock_env :: "int local_env" where
  "mock_env = \<lparr>leNow = (\<lambda>w. (w, w + 1)), leExec = exec_steps mock_exec [''agent'' \<mapsto> sample_agent]\<rparr>"

lemma mock_env_exec:
  "leExec mock_env = exec_steps (mock_executor ToLower (\<lambda>d w. (None, w)) sample_mock quiet_env (\<lambda>w. (w, w + 1))) [''agent'' \<mapsto> sample_agent]"
  by (simp add: mock_env_def mock_exec_def)

definition local_flow :: "ArkFlowStep list \<Rightarrow> ArkFlow" where
  "local_flow steps = \<lparr>flMeta = sample_meta ''flow'',
     flSpec = \<lparr>fsSteps = steps, fsInput = Map.empty, fsOutput = [], fsTimeoutSeconds = 0, fsMaxTokens = 0\<rparr>,
     flStatus = \<lparr>fPhase = FlowEmpty, fSteps = [], fStartTime = None, fCompletionTime = None, fOutput = [],
       fObservedGeneration = 0, fTotalTokenUsage = None, fConditions = []\<rparr>\<rparr>"

section \<open>The executor\<close>

text \<open>A run is a loop from the initialised flow.\<close>

lemma local_Run_loop:
  "\<exists>now v. local_Run E L f w = local_loop E L (InitializeSteps E f now) [] v"
  by (cases "leNow L w") (auto simp: local_Run_def)

lemma init_spec: "flSpec (InitializeSteps E f now) = flSpec f"
  by (simp add: InitializeSteps_def SetCondition_frame)

lemma mock_loop_returns:
  assumes "range_ok E" and "distinct (map sName (fsSteps (flSpec f)))"
    and "leExec L = exec_steps (mock_executor lower sleep p A clock) agents"
  shows "\<exists>g evs w'. local_loop E L (InitializeSteps E f now) [] v = Some (Done (g, evs), w')"
  by (rule mock_run.loop_returns [OF assms(1,3)]) (simp add: init_spec assms(2))



text \<open>
  C19: When the schedule returns, a fresh run of a valid flow ends in a terminal phase if each step is listed
  after the steps it depends on.
\<close>

theorem local_run_finishes:
  assumes "range_ok E" and "leExec L = exec_steps X agents"
    and fresh: "fPhase (flStatus f) = FlowEmpty" and "distinct (map sName (fsSteps (flSpec f)))"
    and valid: "ValidateDAG f = None" and listed: "listed_after_deps (fsSteps (flSpec f))"
    and run: "local_Run E L f w = Some (Done (g, evs), w')"
  shows "IsTerminalPhase (fPhase (flStatus g))"
proof -
  obtain now w1 where now: "leNow L w = (now, w1)" by fastforce
  note init = sequential.Run_from_start [OF fresh now assms(4) refl, of E]
  have "ValidateDAG (InitializeSteps E f now) = None"
    using valid init(4) by (simp add: ValidateDAG_None deps_known_def flow_graph_def)
  with sequential.loop_terminal [OF assms(1,2) _ init(2,3)] run init(1,4) listed show ?thesis by metis
qed

definition ordered_flow :: ArkFlow where
  "ordered_flow = local_flow [(sample_step ''a'' [])\<lparr>sIf := ''false''\<rparr>, sample_step ''b'' [''a'']]"

theorem local_run_finishes_witness:
  "\<exists>g evs w'. local_Run sample_ext mock_env ordered_flow 0 = Some (Done (g, evs), w') \<and> IsTerminalPhase (fPhase (flStatus g))"
proof -
  have d: "distinct (map sName (fsSteps (flSpec ordered_flow)))" and l: "listed_after_deps (fsSteps (flSpec ordered_flow))"
    and p: "fPhase (flStatus ordered_flow) = FlowEmpty"
    by (simp_all add: ordered_flow_def local_flow_def sample_step_def)
  have e: "leExec mock_env = exec_steps mock_exec [''agent'' \<mapsto> sample_agent]" by (simp add: mock_env_def)
  have v: "ValidateDAG ordered_flow = None" by code_simp
  obtain g evs w' where r: "local_Run sample_ext mock_env ordered_flow 0 = Some (Done (g, evs), w')"
    using local_Run_loop mock_loop_returns [OF sample_range_ok d mock_env_exec] by metis
  from local_run_finishes [OF sample_range_ok e p d v l r] r show ?thesis by blast
qed



section \<open>The configuration of a local agent\<close>



section \<open>The command line\<close>

text \<open>
  \<open>ark validate\<close> accepts a flow exactly when its graph is sound and every step names an agent of the file;
  each step without one gets its own error line.
\<close>

theorem dryRun_accepts:
  "(snd (dryRun f agents) = None \<longleftrightarrow> ValidateDAG f = None \<and> sArkAgent ` set (fsSteps (flSpec f)) \<subseteq> dom agents) \<and>
   (ValidateDAG f = None \<longrightarrow>
     length (filter (\<lambda>l. case l of ErrLine _ \<Rightarrow> True | _ \<Rightarrow> False) (fst (dryRun f agents)))
       = length (filter (\<lambda>s. sArkAgent s \<notin> dom agents) (fsSteps (flSpec f))))"
proof -
  let ?miss = "filter (missing_agent agents) (fsSteps (flSpec f))"
  have miss: "?miss = [] \<longleftrightarrow> sArkAgent ` set (fsSteps (flSpec f)) \<subseteq> dom agents"
    by (auto simp: filter_empty_conv missing_agent_def dom_def)
  have same: "filter (\<lambda>s. sArkAgent s \<notin> dom agents) (fsSteps (flSpec f)) = ?miss"
    by (rule filter_cong) (auto simp: missing_agent_def dom_def)
  have lines: "filter (\<lambda>l. case l of ErrLine _ \<Rightarrow> True | _ \<Rightarrow> False) (map (dry_line agents) steps) = []" for steps
    by (induction steps) (simp_all add: dry_line_def)
  have errs: "length (filter (\<lambda>l. case l of ErrLine _ \<Rightarrow> True | _ \<Rightarrow> False) (map (\<lambda>t. ErrLine (g t)) ts)) = length ts" for g ts
    by (induction ts) simp_all
  show ?thesis
    unfolding miss [symmetric] same by (auto simp: dryRun_def Let_def lines errs split: option.split)
qed

theorem dryRun_accepts_witness:
  "snd (dryRun ordered_flow [''agent'' \<mapsto> sample_agent]) = None \<and> snd (dryRun ordered_flow Map.empty) \<noteq> None"
proof -
  have v: "ValidateDAG ordered_flow = None" by code_simp
  have "sArkAgent ` set (fsSteps (flSpec ordered_flow)) = {''agent''}"
    by (simp add: ordered_flow_def local_flow_def sample_step_def)
  with v dryRun_accepts [of ordered_flow "[''agent'' \<mapsto> sample_agent]"] dryRun_accepts [of ordered_flow Map.empty]
  show ?thesis by auto
qed

text \<open>
  The loader gives back the documents a file was made of. Documents without surrounding space, of
  which none starts with the marker or has it at the start of a later line, come back from the file
  that joins them with marker lines.
\<close>

theorem splitDocs_roundtrip:
  assumes "list_all plain_doc docs"
  shows "splitDocs (join_docs docs) = docs"
proof (cases docs)
  case Nil
  then show ?thesis by (simp add: splitDocs_def clean_doc_def doc_sep_def nl_def split_at.simps TrimPrefix_def HasPrefix_def)
next
  case (Cons d ds)
  with assms have "split_at doc_sep (join_docs (d # ds)) = d # map ((@) nl) ds" by (intro split_joined) simp
  with Cons assms show ?thesis
    by (simp add: splitDocs_def clean_plain list_all_iff plain_doc_def comp_def cong: map_cong)
qed

theorem splitDocs_roundtrip_witness:
  "splitDocs (''kind: ArkAgent'' @ nl @ ''---'' @ nl @ ''kind: ArkFlow'') = [''kind: ArkAgent'', ''kind: ArkFlow'']"
proof -
  have "list_all plain_doc [''kind: ArkAgent'', ''kind: ArkFlow'']" by code_simp
  from splitDocs_roundtrip [OF this] show ?thesis by (simp add: doc_sep_def)
qed

end
