(* ===== verification/ArkMain.thy ===== *)
theory ArkMain
  imports LocalProps
begin

text \<open>
  The rest of \<^verbatim>\<open>cmd/ark/main.go\<close>: the commands with their flags, and the process. Which command the arguments select,
  and the values of its flags, is decided by cobra, a parameter; what the code relies on is the predicate \<open>cobra_ok\<close>.
\<close>

section \<open>Commands and flags\<close>

datatype flag_value = FlagStr string | FlagBool bool

record command =
  cmName :: string
  cmExactArgs :: nat
  cmFlags :: "(string \<times> flag_value) list" \<comment> \<open>with their defaults\<close>

definition runCmd :: command where
  "runCmd = \<lparr>cmName = ''run'', cmExactArgs = 1,
     cmFlags = [(''provider'', FlagStr ''auto''), (''flow'', FlagStr []), (''dry-run'', FlagBool False),
                (''watch'', FlagBool False), (''no-mcp'', FlagBool False), (''output'', FlagStr ''text''),
                (''input'', FlagStr [])]\<rparr>"

definition validate_command :: command where
  "validate_command = \<lparr>cmName = ''validate'', cmExactArgs = 1, cmFlags = [(''flow'', FlagStr [])]\<rparr>"

definition initCmd :: command where
  "initCmd = \<lparr>cmName = ''init'', cmExactArgs = 1, cmFlags = []\<rparr>"

definition rootCmd :: "command list" where
  "rootCmd = [runCmd, validate_command, initCmd]"

type_synonym flag_values = "string \<rightharpoonup> flag_value"

definition str_flag :: "flag_values \<Rightarrow> string \<Rightarrow> string" where
  "str_flag vals n = (case vals n of Some (FlagStr s) \<Rightarrow> s | _ \<Rightarrow> [])"

definition bool_flag :: "flag_values \<Rightarrow> string \<Rightarrow> bool" where
  "bool_flag vals n = (case vals n of Some (FlagBool b) \<Rightarrow> b | _ \<Rightarrow> False)"

text \<open>The variables of \<open>runCmd\<close> that its flags set.\<close>

definition run_flags_of :: "flag_values \<Rightarrow> run_flags" where
  "run_flags_of vals =
     \<lparr>rfProvider = str_flag vals ''provider'', rfFlow = str_flag vals ''flow'', rfDryRun = bool_flag vals ''dry-run'',
      rfWatch = bool_flag vals ''watch'', rfNoMCP = bool_flag vals ''no-mcp'', rfOutput = str_flag vals ''output'',
      rfInput = str_flag vals ''input''\<rparr>"

section \<open>The process\<close>

text \<open>
  What cobra makes of the arguments: an error it has printed, a help or version text it has printed, or a command with
  its arguments and the values of its flags. It also prints an error that a command returns.
\<close>

datatype invocation = CobraError gotext | CobraText | Invoke string "string list" flag_values

definition run_command ::
  "'w cli_env \<Rightarrow> string \<Rightarrow> string list \<Rightarrow> flag_values \<Rightarrow> 'w \<Rightarrow> ((cli_out list \<times> gotext option) outcome \<times> 'w) option" where
  "run_command C name args vals w =
     (if name = cmName runCmd then runFlow C (hd args) (run_flags_of vals) w
      else if name = cmName validate_command then Some (Done (validateCmd C (hd args) (str_flag vals ''flow'')), w)
      else (let (r, w) = initProject C (hd args) w in Some (Done r, w)))"

definition exit_code :: "gotext option \<Rightarrow> int" where
  "exit_code err = (case err of None \<Rightarrow> 0 | Some _ \<Rightarrow> 1)"

text \<open>\<open>main\<close>: what it prints and its exit code; the Go runtime ends a process that panics with code 2.\<close>

definition ark_main ::
  "(command list \<Rightarrow> string list \<Rightarrow> invocation) \<Rightarrow> 'w cli_env \<Rightarrow> string list \<Rightarrow> 'w \<Rightarrow> ((cli_out list \<times> int) \<times> 'w) option" where
  "ark_main cobra C args w =
     (case cobra rootCmd args of
        CobraError _ \<Rightarrow> Some (([], 1), w)
      | CobraText \<Rightarrow> Some (([], 0), w)
      | Invoke name as vals \<Rightarrow>
          (case run_command C name as vals w of
             None \<Rightarrow> None
           | Some (Panic, w) \<Rightarrow> Some (([], 2), w)
           | Some (Done (out, err), w) \<Rightarrow> Some ((out, exit_code err), w)))"

section \<open>What cobra promises\<close>

fun same_kind :: "flag_value \<Rightarrow> flag_value \<Rightarrow> bool" where
  "same_kind (FlagStr _) (FlagStr _) = True"
| "same_kind (FlagBool _) (FlagBool _) = True"
| "same_kind _ _ = False"

text \<open>
  A command it invokes is one of those it was given, has the number of arguments asked for, and has a value for each of
  its flags and no other: the default for one that no argument mentions. An argument mentions a flag as
  \<open>--name\<close> or \<open>--name=value\<close>.
\<close>

definition mentions :: "string \<Rightarrow> string list \<Rightarrow> bool" where
  "mentions n args \<longleftrightarrow> (\<exists>a \<in> set args. a = ''--'' @ n \<or> HasPrefix a (''--'' @ n @ ''=''))"

definition cobra_ok :: "(command list \<Rightarrow> string list \<Rightarrow> invocation) \<Rightarrow> bool" where
  "cobra_ok cobra \<longleftrightarrow> (\<forall>cmds args name as vals. cobra cmds args = Invoke name as vals \<longrightarrow>
     (\<exists>c \<in> set cmds. cmName c = name \<and> length as = cmExactArgs c \<and> dom vals = fst ` set (cmFlags c) \<and>
        (\<forall>(n, d) \<in> set (cmFlags c). \<exists>v. vals n = Some v \<and> same_kind v d \<and> (\<not> mentions n args \<longrightarrow> v = d))))"

lemma invoked:
  assumes "cobra_ok cobra" and "cobra rootCmd args = Invoke name as vals"
  obtains c where "c \<in> {runCmd, validate_command, initCmd}" and "cmName c = name" and "length as = cmExactArgs c"
    and "\<And>n d. (n, d) \<in> set (cmFlags c) \<Longrightarrow> \<not> mentions n args \<Longrightarrow> vals n = Some d"
proof -
  from assms obtain c where c: "c \<in> set rootCmd" "cmName c = name" "length as = cmExactArgs c"
    "\<forall>(n, d) \<in> set (cmFlags c). \<exists>v. vals n = Some v \<and> same_kind v d \<and> (\<not> mentions n args \<longrightarrow> v = d)"
    unfolding cobra_ok_def by blast
  from c(4) have "\<And>n d. (n, d) \<in> set (cmFlags c) \<Longrightarrow> \<not> mentions n args \<Longrightarrow> vals n = Some d" by fastforce
  with that [of c] c(1-3) show thesis by (simp add: rootCmd_def)
qed

section \<open>Validation\<close>

text \<open>The flow a command works on: the first of the given name, or the first of the file.\<close>

definition chosen_flow :: "string \<Rightarrow> ArkFlow list \<Rightarrow> ArkFlow option" where
  "chosen_flow n flows =
     (if flows = [] then None else if n = [] then Some (hd flows) else find (\<lambda>f. flow_name f = n) flows)"

lemma load_and_select_chosen:
  "snd (load_and_select C path n) = Inr (f, agents) \<longleftrightarrow>
     (\<exists>flows. LoadFile C path = Inr (flows, agents) \<and> chosen_flow n flows = Some f)"
  by (auto simp: load_and_select_def selectFlow_def chosen_flow_def split: sum.splits prod.splits option.splits)

lemma validateCmd_accepts:
  "snd (validateCmd C path n) = None \<longleftrightarrow>
     (\<exists>flows agents f. LoadFile C path = Inr (flows, agents) \<and> chosen_flow n flows = Some f \<and>
        ValidateDAG f = None \<and> sArkAgent ` set (fsSteps (flSpec f)) \<subseteq> dom agents)"
proof -
  have "snd (validateCmd C path n) = None \<longleftrightarrow>
      (\<exists>f agents. snd (load_and_select C path n) = Inr (f, agents) \<and> snd (dryRun f agents) = None)"
    by (auto simp: validateCmd_def Let_def split: prod.splits sum.splits)
  then show ?thesis using dryRun_accepts by (auto simp: load_and_select_chosen)
qed

text \<open>
  C25: \<open>ark validate\<close> always ends, changes nothing, and exits with 0 exactly when the file loads, has a flow (the one
  that \<open>--flow\<close> names, or the first when no argument mentions the flag), the dependencies of that flow are sound and each
  of its steps names an agent of the file; and with 1 otherwise.
\<close>
theorem ark_validate_exit:
  assumes "cobra_ok cobra" and "cobra rootCmd args = Invoke ''validate'' as vals"
  shows "\<exists>path out code. as = [path] \<and> ark_main cobra C args w = Some ((out, code), w) \<and> code \<in> {0, 1} \<and>
     (code = 0 \<longleftrightarrow> (\<exists>flows agents f. LoadFile C path = Inr (flows, agents) \<and>
        chosen_flow (if mentions ''flow'' args then str_flag vals ''flow'' else []) flows = Some f \<and>
        ValidateDAG f = None \<and> sArkAgent ` set (fsSteps (flSpec f)) \<subseteq> dom agents))"
proof -
  from invoked [OF assms] obtain c where c: "c \<in> {runCmd, validate_command, initCmd}" "cmName c = ''validate''"
      "length as = cmExactArgs c" "\<And>n d. (n, d) \<in> set (cmFlags c) \<Longrightarrow> \<not> mentions n args \<Longrightarrow> vals n = Some d"
    by blast
  then have v: "c = validate_command" by (auto simp: runCmd_def initCmd_def)
  with c(3) obtain path where path: "as = [path]" by (auto simp: validate_command_def length_Suc_conv)
  have flow: "str_flag vals ''flow'' = (if mentions ''flow'' args then str_flag vals ''flow'' else [])"
    using c(4) [of "''flow''" "FlagStr []"] v by (simp add: validate_command_def str_flag_def)
  obtain out err where r: "validateCmd C path (str_flag vals ''flow'') = (out, err)" by fastforce
  then have "ark_main cobra C args w = Some ((out, exit_code err), w)"
    using assms(2) path by (simp add: ark_main_def run_command_def runCmd_def validate_command_def)
  moreover have "exit_code err \<in> {0, 1}" "exit_code err = 0 \<longleftrightarrow> err = None"
    by (auto simp: exit_code_def split: option.split)
  ultimately show ?thesis
    using validateCmd_accepts [of C path "str_flag vals ''flow''"] r path flow by auto
qed

text \<open>A parser for a command and one argument, and a file with an agent and a flow.\<close>

definition sample_cobra :: "command list \<Rightarrow> string list \<Rightarrow> invocation" where
  "sample_cobra cmds args =
     (case args of
        [n, path] \<Rightarrow>
          (case find (\<lambda>c. cmName c = n \<and> cmExactArgs c = 1 \<and> distinct (map fst (cmFlags c))) cmds of
             Some c \<Rightarrow> Invoke n [path] (map_of (cmFlags c))
           | None \<Rightarrow> CobraError (TLit ''unknown command''))
      | _ \<Rightarrow> CobraText)"

lemma same_kind_refl: "same_kind v v"
  by (cases v) auto

lemma sample_cobra_ok: "cobra_ok sample_cobra"
  unfolding cobra_ok_def
proof (intro allI impI)
  fix cmds args name as vals
  assume "sample_cobra cmds args = Invoke name as vals"
  then obtain path c where c: "find (\<lambda>c. cmName c = name \<and> cmExactArgs c = 1 \<and> distinct (map fst (cmFlags c))) cmds = Some c"
      "as = [path]" "vals = map_of (cmFlags c)"
    by (auto simp: sample_cobra_def split: list.splits option.splits)
  then have "c \<in> set cmds" "cmName c = name" "cmExactArgs c = 1" "distinct (map fst (cmFlags c))"
    by (auto simp: find_Some_iff)
  with c(2,3) show "\<exists>c \<in> set cmds. cmName c = name \<and> length as = cmExactArgs c \<and> dom vals = fst ` set (cmFlags c) \<and>
      (\<forall>(n, d) \<in> set (cmFlags c). \<exists>v. vals n = Some v \<and> same_kind v d \<and> (\<not> mentions n args \<longrightarrow> v = d))"
    by (intro bexI [of _ c]) (auto simp: dom_map_of_conv_image_fst same_kind_refl)
qed

definition sample_file :: string where
  "sample_file = ''ArkAgent'' @ nl @ ''---'' @ nl @ ''ArkFlow''"

definition sample_cli :: "int cli_env" where
  "sample_cli =
     \<lparr>clReadFile = (\<lambda>p. Inr sample_file),
      clYaml = \<lparr>yaKind = Inr, yaFlow = (\<lambda>_. Inr ordered_flow), yaAgent = (\<lambda>_. Inr sample_agent)\<rparr>,
      clInput = (\<lambda>_. Inr Map.empty), clExt = sample_ext, clRegistry = Map.empty, clAgentEnv = quiet_env,
      clNow = (\<lambda>w. (w, w + 1)), clExec = exec_steps, clEncode = (\<lambda>_. None), clExists = (\<lambda>_ _. False),
      clMkdirAll = (\<lambda>_ w. (None, w)), clWriteFile = (\<lambda>_ _ w. (None, w))\<rparr>"

lemma sample_load: "LoadFile sample_cli ''f.yaml'' = Inr ([ordered_flow], [''agent'' \<mapsto> sample_agent])"
proof -
  have "list_all plain_doc [''ArkAgent'', ''ArkFlow'']" by code_simp
  from splitDocs_roundtrip [OF this] have "splitDocs sample_file = [''ArkAgent'', ''ArkFlow'']"
    by (simp add: sample_file_def doc_sep_def)
  then show ?thesis
    by (simp add: LoadFile_def sample_cli_def ParseDocs_def sample_agent_def sample_meta_def)
qed

lemma ark_validate_exit_witness:
  "\<exists>out. ark_main sample_cobra sample_cli [''validate'', ''f.yaml''] 0 = Some ((out, 0), 0)"
proof -
  have i: "sample_cobra rootCmd [''validate'', ''f.yaml''] = Invoke ''validate'' [''f.yaml''] (map_of (cmFlags validate_command))"
    by (simp add: sample_cobra_def rootCmd_def runCmd_def validate_command_def)
  have v: "ValidateDAG ordered_flow = None" by code_simp
  have m: "\<not> mentions ''flow'' [''validate'', ''f.yaml'']" by (simp add: mentions_def HasPrefix_def)
  have "sArkAgent ` set (fsSteps (flSpec ordered_flow)) = {''agent''}"
    by (simp add: ordered_flow_def local_flow_def sample_step_def)
  with v m sample_load ark_validate_exit [OF sample_cobra_ok i, of sample_cli 0] show ?thesis
    by (auto simp: chosen_flow_def)
qed

end
