(* ===== verification/ControllerSetup.thy ===== *)
theory ControllerSetup
  imports AgentReconcile EventController ResourceControllers
begin

text \<open>
  \<open>SetupWithManager\<close> of the six controllers of \<^verbatim>\<open>internal/controller/\<close>: which changes of which objects make a
  controller reconcile what. The builder of controller-runtime is a parameter; what the code relies on is
  the predicate \<open>builder_ok\<close>. A controller that reads an object in its reconcile has to hear of its changes.
\<close>

section \<open>Objects and their kinds\<close>

datatype kind =
    KArkAgent | KArkEvent | KArkFlow | KArkMemory | KArkService | KArkSettings
  | KDeployment | KService | KConfigMap | KSecret

datatype obj =
    OArkAgent ArkAgent | OArkEvent ArkEvent | OArkFlow ArkFlow
  | OArkMemory ArkMemory | OArkService ArkService | OArkSettings ArkSettings
  | ODeployment NamespacedName | OService NamespacedName | OConfigMap NamespacedName | OSecret NamespacedName

fun kind_of :: "obj \<Rightarrow> kind" where
  "kind_of (OArkAgent _) = KArkAgent"
| "kind_of (OArkEvent _) = KArkEvent"
| "kind_of (OArkFlow _) = KArkFlow"
| "kind_of (OArkMemory _) = KArkMemory"
| "kind_of (OArkService _) = KArkService"
| "kind_of (OArkSettings _) = KArkSettings"
| "kind_of (ODeployment _) = KDeployment"
| "kind_of (OService _) = KService"
| "kind_of (OConfigMap _) = KConfigMap"
| "kind_of (OSecret _) = KSecret"

definition meta_key :: "ObjectMeta \<Rightarrow> NamespacedName" where
  "meta_key m = \<lparr>nnName = mName m, nnNamespace = mNamespace m\<rparr>"

fun obj_key :: "obj \<Rightarrow> NamespacedName" where
  "obj_key (OArkAgent a) = meta_key (agMeta a)"
| "obj_key (OArkEvent e) = meta_key (evMeta e)"
| "obj_key (OArkFlow f) = meta_key (flMeta f)"
| "obj_key (OArkMemory m) = meta_key (meMeta m)"
| "obj_key (OArkService s) = meta_key (svMeta s)"
| "obj_key (OArkSettings s) = meta_key (seMeta s)"
| "obj_key (ODeployment n) = n"
| "obj_key (OService n) = n"
| "obj_key (OConfigMap n) = n"
| "obj_key (OSecret n) = n"

section \<open>SetupWithManager\<close>

text \<open>
  What is handed to the builder: the kind the controller reconciles, the kinds it owns, and the kinds it
  watches with their mapping to requests. \<open>Named\<close> is optional.
\<close>

record 'w controller =
  ctFor :: kind
  ctOwns :: "kind list"
  ctWatches :: "(kind \<times> (obj \<Rightarrow> 'w \<Rightarrow> NamespacedName list)) list"
  ctNamed :: "string option"

text \<open>The type assertions with which the mappings begin.\<close>

fun on_flow :: "(ArkFlow \<Rightarrow> 'w \<Rightarrow> NamespacedName list) \<Rightarrow> obj \<Rightarrow> 'w \<Rightarrow> NamespacedName list" where
  "on_flow f (OArkFlow x) w = f x w" | "on_flow f _ w = []"

fun on_agent :: "(ArkAgent \<Rightarrow> 'w \<Rightarrow> NamespacedName list) \<Rightarrow> obj \<Rightarrow> 'w \<Rightarrow> NamespacedName list" where
  "on_agent f (OArkAgent x) w = f x w" | "on_agent f _ w = []"

fun on_config_map :: "(NamespacedName \<Rightarrow> 'w \<Rightarrow> NamespacedName list) \<Rightarrow> obj \<Rightarrow> 'w \<Rightarrow> NamespacedName list" where
  "on_config_map f (OConfigMap x) w = f x w" | "on_config_map f _ w = []"

fun on_secret :: "(NamespacedName \<Rightarrow> 'w \<Rightarrow> NamespacedName list) \<Rightarrow> obj \<Rightarrow> 'w \<Rightarrow> NamespacedName list" where
  "on_secret f (OSecret x) w = f x w" | "on_secret f _ w = []"

definition agent_SetupWithManager :: "'w agent_api \<Rightarrow> 'w controller" where
  "agent_SetupWithManager A =
     \<lparr>ctFor = KArkAgent, ctOwns = [KDeployment],
      ctWatches = [(KArkFlow, on_flow (\<lambda>f w. flowToAgents f)),
                   (KConfigMap, on_config_map (configMapToAgents A)),
                   (KSecret, on_secret (secretToAgents A))],
      ctNamed = Some ''arkagent''\<rparr>"

definition service_SetupWithManager :: "'w service_api \<Rightarrow> 'w controller" where
  "service_SetupWithManager V =
     \<lparr>ctFor = KArkService, ctOwns = [KService],
      ctWatches = [(KArkAgent, on_agent (findServicesForAgent V))],
      ctNamed = Some ''arkservice''\<rparr>"

definition settings_SetupWithManager :: "'w controller" where
  "settings_SetupWithManager = \<lparr>ctFor = KArkSettings, ctOwns = [], ctWatches = [], ctNamed = Some ''arksettings''\<rparr>"

definition flow_SetupWithManager :: "'w controller" where
  "flow_SetupWithManager = \<lparr>ctFor = KArkFlow, ctOwns = [], ctWatches = [], ctNamed = Some ''arkflow''\<rparr>"

definition memory_SetupWithManager :: "'w controller" where
  "memory_SetupWithManager = \<lparr>ctFor = KArkMemory, ctOwns = [], ctWatches = [], ctNamed = Some ''arkmemory''\<rparr>"

definition event_SetupWithManager :: "'w event_api \<Rightarrow> 'w controller" where
  "event_SetupWithManager V =
     \<lparr>ctFor = KArkEvent, ctOwns = [KArkFlow],
      ctWatches = [(KArkFlow, on_flow (flowToTriggers V))],
      ctNamed = None\<rparr>"

text \<open>The kinds whose changes a controller hears of.\<close>

definition heard :: "'w controller \<Rightarrow> kind set" where
  "heard c = {ctFor c} \<union> set (ctOwns c) \<union> fst ` set (ctWatches c)"

text \<open>
  The documented behaviour of the builder: a change of an object of the controller's own kind enqueues that
  object, a change of a watched kind enqueues what the mapping gives, and other kinds enqueue nothing.
\<close>

definition builder_ok :: "('w controller \<Rightarrow> obj \<Rightarrow> 'w \<Rightarrow> NamespacedName set) \<Rightarrow> bool" where
  "builder_ok enq \<longleftrightarrow>
     (\<forall>c ob w. kind_of ob = ctFor c \<longrightarrow> obj_key ob \<in> enq c ob w) \<and>
     (\<forall>c ob w k f. (k, f) \<in> set (ctWatches c) \<longrightarrow> kind_of ob = k \<longrightarrow> set (f ob w) \<subseteq> enq c ob w) \<and>
     (\<forall>c ob w. kind_of ob \<notin> heard c \<longrightarrow> enq c ob w = {})"

lemma builder_watch:
  "builder_ok enq \<Longrightarrow> (k, f) \<in> set (ctWatches c) \<Longrightarrow> kind_of ob = k \<Longrightarrow> n \<in> set (f ob w) \<Longrightarrow> n \<in> enq c ob w"
  unfolding builder_ok_def by blast

lemma builder_silent: "builder_ok enq \<Longrightarrow> kind_of ob \<notin> heard c \<Longrightarrow> enq c ob w = {}"
  unfolding builder_ok_def by blast

section \<open>What the mappings find\<close>

lemma configMapToAgents_finds:
  "aaListAgents A w (mNamespace (agMeta a)) = Inr as \<Longrightarrow> a \<in> set as \<Longrightarrow>
   asSystemPromptRef (agSpec a) = Some ref \<Longrightarrow> spConfigMapKeyRef ref = Some c \<Longrightarrow>
   agent_request a \<in> set (configMapToAgents A \<lparr>nnName = ksName c, nnNamespace = mNamespace (agMeta a)\<rparr> w)"
  by (auto simp: configMapToAgents_def refs_config_map_def)

lemma secretToAgents_finds:
  "aaListAgents A w (mNamespace (agMeta a)) = Inr as \<Longrightarrow> a \<in> set as \<Longrightarrow>
   asSystemPromptRef (agSpec a) = Some ref \<Longrightarrow> spSecretKeyRef ref = Some c \<Longrightarrow>
   agent_request a \<in> set (secretToAgents A \<lparr>nnName = ksName c, nnNamespace = mNamespace (agMeta a)\<rparr> w)"
  by (auto simp: secretToAgents_def refs_secret_def)

lemma flow_agents_finds:
  "sArkAgent step = n \<Longrightarrow> step \<in> set steps \<Longrightarrow> n \<noteq> [] \<Longrightarrow> n \<notin> seen \<Longrightarrow>
   \<lparr>nnName = n, nnNamespace = ns\<rparr> \<in> set (flow_agents ns seen steps)"
  by (induction ns seen steps rule: flow_agents.induct) auto

text \<open>A flow counts against the budget of an agent only if one of its steps names the agent.\<close>

lemma stepAgent_in: "stepAgent steps n = Some a \<Longrightarrow> \<exists>s \<in> set steps. sArkAgent s = a"
proof -
  have "fold (\<lambda>s m. m(sName s \<mapsto> sArkAgent s)) steps m n = Some a \<Longrightarrow> m n \<noteq> Some a \<Longrightarrow> \<exists>s \<in> set steps. sArkAgent s = a" for m
    by (induction steps arbitrary: m) (fastforce split: if_splits)+
  then show "stepAgent steps n = Some a \<Longrightarrow> ?thesis" by (simp add: stepAgent_def)
qed

lemma budget_step_stranger:
  "agent \<noteq> [] \<Longrightarrow> \<forall>s \<in> set steps. sArkAgent s \<noteq> agent \<Longrightarrow> budget_step agent ws (stepAgent steps) st acc = acc"
  by (auto simp: budget_step_def step_agent_name_def dest: stepAgent_in split: option.splits)

lemma budget_flow_stranger:
  assumes "agent \<noteq> []" and "\<forall>s \<in> set (fsSteps (flSpec f)). sArkAgent s \<noteq> agent"
  shows "budget_flow agent ws f acc = acc"
proof -
  have "budget_step agent ws (stepAgent (fsSteps (flSpec f))) = (\<lambda>st acc. acc)"
    using budget_step_stranger [OF assms] by (intro ext) simp
  then have "fold (budget_step agent ws (stepAgent (fsSteps (flSpec f)))) xs acc = acc" for xs
    by (induction xs) auto
  then show ?thesis by (simp add: budget_flow_def)
qed

lemma flowToAgents_finds:
  assumes "agent \<noteq> []" and "budget_flow agent ws f acc \<noteq> acc"
  shows "\<lparr>nnName = agent, nnNamespace = mNamespace (flMeta f)\<rparr> \<in> set (flowToAgents f)"
proof -
  from budget_flow_stranger [OF assms(1)] assms(2) obtain s where "s \<in> set (fsSteps (flSpec f))" "sArkAgent s = agent"
    by blast
  then show ?thesis using assms(1) flow_agents_finds unfolding flowToAgents_def by fastforce
qed

end
