(* ===== verification/WatchProps.thy ===== *)
theory WatchProps
  imports ControllerSetup OperatorProps
begin

text \<open>
  Whether the controller of agents hears of the changes of what its reconcile reads: of prompts and of what flows
  have used it does, of settings and memories it does not.
\<close>

section \<open>A builder\<close>

text \<open>The least that the documented builder enqueues.\<close>

definition sample_builder :: "'w controller \<Rightarrow> obj \<Rightarrow> 'w \<Rightarrow> NamespacedName set" where
  "sample_builder c ob w =
     (if kind_of ob = ctFor c then {obj_key ob} else {}) \<union>
     \<Union> ((\<lambda>(k, f). if kind_of ob = k then set (f ob w) else {}) ` set (ctWatches c))"

lemma sample_builder_ok: "builder_ok sample_builder"
  unfolding builder_ok_def
proof (intro conjI allI impI)
  fix c :: "'w controller" and ob w k f
  assume "(k, f) \<in> set (ctWatches c)" and "kind_of ob = k"
  then have "set (f ob w) = (case (k, f) of (k, f) \<Rightarrow> if kind_of ob = k then set (f ob w) else {})" by simp
  also have "\<dots> \<subseteq> \<Union> ((\<lambda>(k, f). if kind_of ob = k then set (f ob w) else {}) ` set (ctWatches c))"
    by (rule UN_upper) fact
  also have "\<dots> \<subseteq> sample_builder c ob w" by (simp add: sample_builder_def)
  finally show "set (f ob w) \<subseteq> sample_builder c ob w" .
next
  fix c :: "'w controller" and ob w
  assume "kind_of ob \<notin> heard c"
  then have "kind_of ob \<noteq> ctFor c" and "(k, f) \<in> set (ctWatches c) \<Longrightarrow> kind_of ob \<noteq> k" for k f
    by (force simp: heard_def)+
  then show "sample_builder c ob w = {}" unfolding sample_builder_def by auto
qed (simp add: sample_builder_def)

section \<open>Properties\<close>

lemma prompt_reads:
  assumes "resolveSystemPrompt A a w' \<noteq> resolveSystemPrompt A a w"
  obtains ref c where "asSystemPromptRef (agSpec a) = Some ref" "spConfigMapKeyRef ref = Some c"
      "aaGetConfigMap A w' \<lparr>nnName = ksName c, nnNamespace = mNamespace (agMeta a)\<rparr> \<noteq>
       aaGetConfigMap A w \<lparr>nnName = ksName c, nnNamespace = mNamespace (agMeta a)\<rparr>"
    | ref k where "asSystemPromptRef (agSpec a) = Some ref" "spConfigMapKeyRef ref = None" "spSecretKeyRef ref = Some k"
      "aaGetSecret A w' \<lparr>nnName = ksName k, nnNamespace = mNamespace (agMeta a)\<rparr> \<noteq>
       aaGetSecret A w \<lparr>nnName = ksName k, nnNamespace = mNamespace (agMeta a)\<rparr>"
proof -
  from assms obtain ref where r: "asSystemPromptRef (agSpec a) = Some ref"
    by (cases "asSystemPromptRef (agSpec a)") (auto simp: resolveSystemPrompt_def)
  show thesis
  proof (cases "spConfigMapKeyRef ref")
    case (Some c)
    with r assms that(1) show thesis by (force simp: resolveSystemPrompt_def)
  next
    case None
    with r assms obtain k where "spSecretKeyRef ref = Some k"
      by (cases "spSecretKeyRef ref") (auto simp: resolveSystemPrompt_def)
    with None r assms that(2) show thesis by (force simp: resolveSystemPrompt_def)
  qed
qed

text \<open>
  C22: if a change of one object, whichever it is, changes the system prompt that an agent resolves, the agent is
  reconciled; and if a flow counts against the daily budget of an agent of its namespace, every change of that flow
  makes the agent reconcile.
\<close>
theorem agent_changes_noticed:
  assumes "builder_ok enq" and "aaListAgents A w' (mNamespace (agMeta a)) = Inr as" and "a \<in> set as"
    and "\<And>n. ob \<noteq> OConfigMap n \<Longrightarrow> aaGetConfigMap A w' n = aaGetConfigMap A w n"
    and "\<And>n. ob \<noteq> OSecret n \<Longrightarrow> aaGetSecret A w' n = aaGetSecret A w n"
    and "mName (agMeta a) \<noteq> []"
  shows "(resolveSystemPrompt A a w' \<noteq> resolveSystemPrompt A a w \<longrightarrow>
       agent_request a \<in> enq (agent_SetupWithManager A) ob w') \<and>
     (mNamespace (flMeta f) = mNamespace (agMeta a) \<and> budget_flow (mName (agMeta a)) windowStart f acc \<noteq> acc \<longrightarrow>
       agent_request a \<in> enq (agent_SetupWithManager A) (OArkFlow f) w')"
proof (intro conjI impI; (elim conjE)?)
  assume "resolveSystemPrompt A a w' \<noteq> resolveSystemPrompt A a w"
  then show "agent_request a \<in> enq (agent_SetupWithManager A) ob w'"
  proof (cases rule: prompt_reads)
    case (1 ref c)
    let ?n = "\<lparr>nnName = ksName c, nnNamespace = mNamespace (agMeta a)\<rparr>"
    from 1(3) assms(4) have ob: "ob = OConfigMap ?n" by blast
    show ?thesis
      using configMapToAgents_finds [OF assms(2,3) 1(1,2)]
      by (intro builder_watch [OF assms(1), of KConfigMap "on_config_map (configMapToAgents A)"])
        (simp_all add: agent_SetupWithManager_def ob)
  next
    case (2 ref k)
    let ?n = "\<lparr>nnName = ksName k, nnNamespace = mNamespace (agMeta a)\<rparr>"
    from 2(4) assms(5) have ob: "ob = OSecret ?n" by blast
    show ?thesis
      using secretToAgents_finds [OF assms(2,3) 2(1,3)]
      by (intro builder_watch [OF assms(1), of KSecret "on_secret (secretToAgents A)"])
        (simp_all add: agent_SetupWithManager_def ob)
  qed
next
  assume "mNamespace (flMeta f) = mNamespace (agMeta a)" "budget_flow (mName (agMeta a)) windowStart f acc \<noteq> acc"
  with flowToAgents_finds [OF assms(6)] have "agent_request a \<in> set (flowToAgents f)"
    by (fastforce simp: agent_request_def)
  then show "agent_request a \<in> enq (agent_SetupWithManager A) (OArkFlow f) w'"
    by (intro builder_watch [OF assms(1), of KArkFlow "on_flow (\<lambda>f w. flowToAgents f)"])
      (simp_all add: agent_SetupWithManager_def)
qed

text \<open>An agent whose prompt is in a ConfigMap; the world is the version of that ConfigMap.\<close>

definition prompted_agent :: ArkAgent where
  "prompted_agent = sample_agent\<lparr>agSpec := (agSpec sample_agent)\<lparr>asSystemPromptRef :=
     Some \<lparr>spConfigMapKeyRef = Some \<lparr>ksName = ''prompts'', ksKey = ''p''\<rparr>, spSecretKeyRef = None\<rparr>\<rparr>\<rparr>"

definition prompt_api :: "int agent_api" where
  "prompt_api = sample_agent_api\<lparr>aaListAgents := (\<lambda>w ns. Inr [prompted_agent]),
     aaGetConfigMap := (\<lambda>w n. if n = \<lparr>nnName = ''prompts'', nnNamespace = ''default''\<rparr>
       then Inr [''p'' \<mapsto> if w = 0 then ''old'' else ''new''] else Inl (ApiNotFound (TLit ''no'')))\<rparr>"

lemma agent_changes_noticed_witness:
  "agent_request prompted_agent \<in> sample_builder (agent_SetupWithManager prompt_api)
     (OConfigMap \<lparr>nnName = ''prompts'', nnNamespace = ''default''\<rparr>) 1 \<and>
   agent_request prompted_agent \<in> sample_builder (agent_SetupWithManager prompt_api) (OArkFlow spent_flow) 1"
proof -
  have noticed: "(resolveSystemPrompt prompt_api prompted_agent 1 \<noteq> resolveSystemPrompt prompt_api prompted_agent 0 \<longrightarrow>
      agent_request prompted_agent \<in> sample_builder (agent_SetupWithManager prompt_api)
        (OConfigMap \<lparr>nnName = ''prompts'', nnNamespace = ''default''\<rparr>) 1) \<and>
    (mNamespace (flMeta spent_flow) = mNamespace (agMeta prompted_agent) \<and>
      budget_flow (mName (agMeta prompted_agent)) 0 spent_flow \<lparr>bsUsage = no_tokens, bsEarliest = None\<rparr> \<noteq>
        \<lparr>bsUsage = no_tokens, bsEarliest = None\<rparr> \<longrightarrow>
      agent_request prompted_agent \<in> sample_builder (agent_SetupWithManager prompt_api) (OArkFlow spent_flow) 1)"
    by (rule agent_changes_noticed [OF sample_builder_ok, where as = "[prompted_agent]"])
      (auto simp: prompt_api_def prompted_agent_def sample_agent_def sample_meta_def sample_agent_api_def)
  have "resolveSystemPrompt prompt_api prompted_agent 1 \<noteq> resolveSystemPrompt prompt_api prompted_agent 0"
    by (simp add: resolveSystemPrompt_def prompt_from_map_def prompt_api_def prompted_agent_def sample_agent_def sample_meta_def)
  moreover have "bsEarliest (budget_flow ''agent'' 0 spent_flow \<lparr>bsUsage = no_tokens, bsEarliest = None\<rparr>) = Some 5"
    by code_simp
  then have "budget_flow ''agent'' 0 spent_flow \<lparr>bsUsage = no_tokens, bsEarliest = None\<rparr> \<noteq> \<lparr>bsUsage = no_tokens, bsEarliest = None\<rparr>"
    by auto
  ultimately show ?thesis
    using noticed by (simp add: prompted_agent_def sample_agent_def sample_meta_def spent_flow_def sample_flow_def)
qed




end
