(* ===== verification/ManagerMain.thy ===== *)
theory ManagerMain
  imports ControllerSetup WebhookServer
begin

text \<open>
  \<^verbatim>\<open>cmd/main.go\<close>, the process of the operator, with \<^verbatim>\<open>api/v1alpha1/groupversion_info.go\<close> and the registration of
  the API types: the command line, the options of the two servers, and \<open>main\<close> as the sequence of calls it makes to
  controller-runtime, each of which may fail. What a call does is a parameter, so are the flags of zap.
\<close>

section \<open>The scheme\<close>

type_synonym gvk = "string \<times> string \<times> string" \<comment> \<open>group, version, kind\<close>

definition GroupVersion :: "string \<times> string" where
  "GroupVersion = (''arkonis.dev'', ''v1alpha1'')"

text \<open>\<open>SchemeBuilder\<close> collects the types that the \<open>init\<close> functions of the package register.\<close>

type_synonym scheme_builder = "string list"

definition scheme_Register :: "string list \<Rightarrow> scheme_builder \<Rightarrow> scheme_builder" where
  "scheme_Register types b = b @ types"

definition init_arkagent :: "scheme_builder \<Rightarrow> scheme_builder" where
  "init_arkagent = scheme_Register [''ArkAgent'', ''ArkAgentList'']"
definition init_arkevent :: "scheme_builder \<Rightarrow> scheme_builder" where
  "init_arkevent = scheme_Register [''ArkEvent'', ''ArkEventList'']"
definition init_arkflow :: "scheme_builder \<Rightarrow> scheme_builder" where
  "init_arkflow = scheme_Register [''ArkFlow'', ''ArkFlowList'']"
definition init_arkmemory :: "scheme_builder \<Rightarrow> scheme_builder" where
  "init_arkmemory = scheme_Register [''ArkMemory'', ''ArkMemoryList'']"
definition init_arkservice :: "scheme_builder \<Rightarrow> scheme_builder" where
  "init_arkservice = scheme_Register [''ArkService'', ''ArkServiceList'']"
definition init_arksettings :: "scheme_builder \<Rightarrow> scheme_builder" where
  "init_arksettings = scheme_Register [''ArkSettings'', ''ArkSettingsList'']"

text \<open>The \<open>init\<close> functions run in the order of the file names.\<close>

definition SchemeBuilder :: scheme_builder where
  "SchemeBuilder =
     (init_arksettings \<circ> init_arkservice \<circ> init_arkmemory \<circ> init_arkflow \<circ> init_arkevent \<circ> init_arkagent) []"

definition AddToScheme :: "gvk list \<Rightarrow> gvk list" where
  "AddToScheme scheme = scheme @ map (\<lambda>k. (fst GroupVersion, snd GroupVersion, k)) SchemeBuilder"

text \<open>\<open>init\<close> of \<^verbatim>\<open>cmd/main.go\<close>, on the types of client-go.\<close>

definition scheme_init :: "gvk list \<Rightarrow> gvk list" where
  "scheme_init clientgo = AddToScheme clientgo"

fun gvk_of :: "kind \<Rightarrow> gvk" where
  "gvk_of KArkAgent = (''arkonis.dev'', ''v1alpha1'', ''ArkAgent'')"
| "gvk_of KArkEvent = (''arkonis.dev'', ''v1alpha1'', ''ArkEvent'')"
| "gvk_of KArkFlow = (''arkonis.dev'', ''v1alpha1'', ''ArkFlow'')"
| "gvk_of KArkMemory = (''arkonis.dev'', ''v1alpha1'', ''ArkMemory'')"
| "gvk_of KArkService = (''arkonis.dev'', ''v1alpha1'', ''ArkService'')"
| "gvk_of KArkSettings = (''arkonis.dev'', ''v1alpha1'', ''ArkSettings'')"
| "gvk_of KDeployment = (''apps'', ''v1'', ''Deployment'')"
| "gvk_of KService = ('''', ''v1'', ''Service'')"
| "gvk_of KConfigMap = ('''', ''v1'', ''ConfigMap'')"
| "gvk_of KSecret = ('''', ''v1'', ''Secret'')"

section \<open>Flags\<close>

text \<open>The variables of \<open>main\<close> that flags set; \<open>mfZap\<close> is the state of the options of zap.\<close>

record 'z main_flags =
  mfMetricsAddr :: string
  mfProbeAddr :: string
  mfEnableLeaderElection :: bool
  mfSecureMetrics :: bool
  mfWebhookCertPath :: string
  mfWebhookCertName :: string
  mfWebhookCertKey :: string
  mfMetricsCertPath :: string
  mfMetricsCertName :: string
  mfMetricsCertKey :: string
  mfEnableHTTP2 :: bool
  mfAgentImage :: string
  mfTriggerWebhookAddr :: string
  mfTriggerWebhookURL :: string
  mfZap :: 'z

text \<open>Their values when \<open>flag.Parse\<close> is called with no argument.\<close>

definition flag_defaults :: "'z \<Rightarrow> 'z main_flags" where
  "flag_defaults z =
     \<lparr>mfMetricsAddr = ''0'', mfProbeAddr = '':8081'', mfEnableLeaderElection = False, mfSecureMetrics = True,
      mfWebhookCertPath = '''', mfWebhookCertName = ''tls.crt'', mfWebhookCertKey = ''tls.key'',
      mfMetricsCertPath = '''', mfMetricsCertName = ''tls.crt'', mfMetricsCertKey = ''tls.key'',
      mfEnableHTTP2 = False, mfAgentImage = ''ghcr.io/arkonis-dev/ark-runtime:latest'',
      mfTriggerWebhookAddr = '':8092'', mfTriggerWebhookURL = '''', mfZap = z\<rparr>"

datatype 'f flag_var = StringVar "string \<Rightarrow> 'f \<Rightarrow> 'f" | BoolVar "bool \<Rightarrow> 'f \<Rightarrow> 'f"

definition main_flag_table :: "(string \<times> 'z main_flags flag_var) list" where
  "main_flag_table =
     [(''metrics-bind-address'', StringVar (\<lambda>s f. f\<lparr>mfMetricsAddr := s\<rparr>)),
      (''health-probe-bind-address'', StringVar (\<lambda>s f. f\<lparr>mfProbeAddr := s\<rparr>)),
      (''leader-elect'', BoolVar (\<lambda>b f. f\<lparr>mfEnableLeaderElection := b\<rparr>)),
      (''metrics-secure'', BoolVar (\<lambda>b f. f\<lparr>mfSecureMetrics := b\<rparr>)),
      (''webhook-cert-path'', StringVar (\<lambda>s f. f\<lparr>mfWebhookCertPath := s\<rparr>)),
      (''webhook-cert-name'', StringVar (\<lambda>s f. f\<lparr>mfWebhookCertName := s\<rparr>)),
      (''webhook-cert-key'', StringVar (\<lambda>s f. f\<lparr>mfWebhookCertKey := s\<rparr>)),
      (''metrics-cert-path'', StringVar (\<lambda>s f. f\<lparr>mfMetricsCertPath := s\<rparr>)),
      (''metrics-cert-name'', StringVar (\<lambda>s f. f\<lparr>mfMetricsCertName := s\<rparr>)),
      (''metrics-cert-key'', StringVar (\<lambda>s f. f\<lparr>mfMetricsCertKey := s\<rparr>)),
      (''enable-http2'', BoolVar (\<lambda>b f. f\<lparr>mfEnableHTTP2 := b\<rparr>)),
      (''agent-image'', StringVar (\<lambda>s f. f\<lparr>mfAgentImage := s\<rparr>)),
      (''trigger-webhook-addr'', StringVar (\<lambda>s f. f\<lparr>mfTriggerWebhookAddr := s\<rparr>)),
      (''trigger-webhook-url'', StringVar (\<lambda>s f. f\<lparr>mfTriggerWebhookURL := s\<rparr>))]"

text \<open>
  \<open>flag.Parse\<close> of the standard library: how it sets a flag, with \<open>None\<close> for a value it rejects, and how it goes
  through the arguments. \<open>zap\<close> are the flags that zap binds: for a name, whether it is boolean, and its setter.
\<close>

definition ParseBool :: "string \<Rightarrow> bool option" where
  "ParseBool s =
     (if s \<in> {''1'', ''t'', ''T'', ''TRUE'', ''true'', ''True''} then Some True
      else if s \<in> {''0'', ''f'', ''F'', ''FALSE'', ''false'', ''False''} then Some False else None)"

type_synonym 'z zap_flags = "string \<Rightarrow> (bool \<times> (string \<Rightarrow> 'z \<Rightarrow> 'z option)) option"

fun set_var :: "'f flag_var \<Rightarrow> string \<Rightarrow> 'f \<Rightarrow> 'f option" where
  "set_var (StringVar put) v f = Some (put v f)"
| "set_var (BoolVar put) v f = map_option (\<lambda>b. put b f) (ParseBool v)"

definition lookup_flag ::
  "'z zap_flags \<Rightarrow> string \<Rightarrow> (bool \<times> (string \<Rightarrow> 'z main_flags \<Rightarrow> 'z main_flags option)) option" where
  "lookup_flag zap n =
     (case map_of main_flag_table n of
        Some var \<Rightarrow> Some (case var of BoolVar _ \<Rightarrow> True | _ \<Rightarrow> False, set_var var)
      | None \<Rightarrow> map_option (\<lambda>(b, put). (b, \<lambda>v f. map_option (\<lambda>z. f\<lparr>mfZap := z\<rparr>) (put v (mfZap f)))) (zap n))"

text \<open>An argument: not a flag, a flag that is badly written, or a flag's name and the value after the equals sign.\<close>

datatype arg = Positional | Terminator | BadSyntax | FlagArg string "string option"

definition read_arg :: "string \<Rightarrow> arg" where
  "read_arg s =
     (if length s < 2 \<or> hd s \<noteq> CHR ''-'' then Positional
      else if s = ''--'' then Terminator
      else let name = (if s ! 1 = CHR ''-'' then drop 2 s else drop 1 s) in
        if name = [] \<or> hd name = CHR ''-'' \<or> hd name = CHR ''='' then BadSyntax
        else if CHR ''='' \<in> set name
          then FlagArg (takeWhile (\<lambda>c. c \<noteq> CHR ''='') name) (Some (tl (dropWhile (\<lambda>c. c \<noteq> CHR ''='') name)))
          else FlagArg name None)"

datatype 'f parsed = Parsed 'f | UsageError | HelpAsked

fun parse_flags :: "'z zap_flags \<Rightarrow> string list \<Rightarrow> 'z main_flags \<Rightarrow> 'z main_flags parsed" where
  "parse_flags zap [] f = Parsed f"
| "parse_flags zap (s # args) f =
     (case read_arg s of
        Positional \<Rightarrow> Parsed f
      | Terminator \<Rightarrow> Parsed f
      | BadSyntax \<Rightarrow> UsageError
      | FlagArg name value \<Rightarrow>
          (case lookup_flag zap name of
             None \<Rightarrow> if name = ''help'' \<or> name = ''h'' then HelpAsked else UsageError
           | Some (True, put) \<Rightarrow>
               (case put (case value of None \<Rightarrow> ''true'' | Some v \<Rightarrow> v) f of
                  None \<Rightarrow> UsageError
                | Some f \<Rightarrow> parse_flags zap args f)
           | Some (False, put) \<Rightarrow>
               (case value of
                  Some v \<Rightarrow> (case put v f of None \<Rightarrow> UsageError | Some f \<Rightarrow> parse_flags zap args f)
                | None \<Rightarrow>
                    (case args of
                       [] \<Rightarrow> UsageError
                     | v # args \<Rightarrow> (case put v f of None \<Rightarrow> UsageError | Some f \<Rightarrow> parse_flags zap args f)))))"

section \<open>Options of the servers\<close>

record tls_config =
  tlNextProtos :: "string list"

type_synonym tls_option = "tls_config \<Rightarrow> tls_config"

text \<open>The option also logs that HTTP/2 is disabled.\<close>

definition buildTLSOptions :: "bool \<Rightarrow> tls_option list" where
  "buildTLSOptions enableHTTP2 = (if enableHTTP2 then [] else [\<lambda>c. c\<lparr>tlNextProtos := [''http/1.1'']\<rparr>])"

record server_options =
  opTLSOpts :: "tls_option list"
  opCertDir :: string
  opCertName :: string
  opKeyName :: string

datatype filter_provider = WithAuthenticationAndAuthorization

record metrics_options = server_options +
  opBindAddress :: string
  opSecureServing :: bool
  opFilterProvider :: "filter_provider option"

text \<open>Both with the messages they log.\<close>

definition buildWebhookServerOptions ::
  "tls_option list \<Rightarrow> string \<Rightarrow> string \<Rightarrow> string \<Rightarrow> server_options \<times> string list" where
  "buildWebhookServerOptions tlsOpts certPath certName certKey =
     (let opts = \<lparr>opTLSOpts = tlsOpts, opCertDir = [], opCertName = [], opKeyName = []\<rparr> in
      if certPath \<noteq> [] then
        (opts\<lparr>opCertDir := certPath, opCertName := certName, opKeyName := certKey\<rparr>,
         [''Initializing webhook certificate watcher using provided certificates''])
      else (opts, []))"

definition buildMetricsServerOptions ::
  "string \<Rightarrow> tls_option list \<Rightarrow> bool \<Rightarrow> string \<Rightarrow> string \<Rightarrow> string \<Rightarrow> metrics_options \<times> string list" where
  "buildMetricsServerOptions bindAddr tlsOpts secureMetrics certPath certName certKey =
     (let opts = \<lparr>opTLSOpts = tlsOpts, opCertDir = [], opCertName = [], opKeyName = [],
                  opBindAddress = bindAddr, opSecureServing = secureMetrics, opFilterProvider = None\<rparr>;
          opts = (if secureMetrics then opts\<lparr>opFilterProvider := Some WithAuthenticationAndAuthorization\<rparr> else opts) in
      if certPath \<noteq> [] then
        (opts\<lparr>opCertDir := certPath, opCertName := certName, opKeyName := certKey\<rparr>,
         [''Initializing metrics certificate watcher using provided certificates''])
      else (opts, []))"

section \<open>The runnable of the trigger endpoint\<close>

text \<open>The handler is the server with the reconciler it shares, here its base URL.\<close>

type_synonym http_handler = "string \<times> TriggerWebhookServer"

definition NewTriggerWebhookServer :: "string \<Rightarrow> string \<Rightarrow> http_handler" where
  "NewTriggerWebhookServer r taskQueueURL = (r, \<lparr>twTaskQueueURL = taskQueueURL, twRdbOnce = False, twRdb = None\<rparr>)"

record webhookRunnable =
  wrAddr :: string
  wrHandler :: http_handler

definition triggerWebhookRunnable :: "string \<Rightarrow> http_handler \<Rightarrow> webhookRunnable" where
  "triggerWebhookRunnable addr handler = \<lparr>wrAddr = addr, wrHandler = handler\<rparr>"

text \<open>
  \<open>Start\<close>: a goroutine listens, and puts its error into a channel unless the server was closed; \<open>Start\<close> waits for
  that error or for the end of the context, and then shuts the server down, which ends the listening. The select
  takes either branch when both are ready.
\<close>

record start_state =
  stListening :: bool
  stErrCh :: "gotext option"
  stCtxDone :: bool
  stShutdown :: bool
  stReturned :: "gotext option option"

definition start_runnable :: start_state where
  "start_runnable = \<lparr>stListening = True, stErrCh = None, stCtxDone = False, stShutdown = False, stReturned = None\<rparr>"

inductive start_step :: "start_state \<Rightarrow> start_state \<Rightarrow> bool" where
  listen_fails: "stListening s \<Longrightarrow> start_step s (s\<lparr>stListening := False, stErrCh := Some e\<rparr>)"
| listen_closed: "stListening s \<Longrightarrow> stShutdown s \<Longrightarrow> start_step s (s\<lparr>stListening := False\<rparr>)"
| ctx_done: "start_step s (s\<lparr>stCtxDone := True\<rparr>)"
| select_done: "stReturned s = None \<Longrightarrow> stCtxDone s \<Longrightarrow> start_step s (s\<lparr>stShutdown := True, stReturned := Some r\<rparr>)"
| select_err: "stReturned s = None \<Longrightarrow> stErrCh s = Some e \<Longrightarrow> start_step s (s\<lparr>stErrCh := None, stReturned := Some (Some e)\<rparr>)"

section \<open>main\<close>

record 'w apis =
  apAgent :: "'w agent_api"
  apService :: "'w service_api"
  apEvent :: "'w event_api"

record manager_options =
  mnScheme :: "gvk list"
  mnMetrics :: metrics_options
  mnWebhookServer :: server_options
  mnHealthProbeBindAddress :: string
  mnLeaderElection :: bool
  mnLeaderElectionID :: string

text \<open>The fields of the reconcilers apart from the client and the scheme, which they take from the manager.\<close>

datatype reconciler =
    ArkAgentReconciler string \<comment> \<open>AgentImage\<close>
  | ArkServiceReconciler
  | ArkSettingsReconciler
  | ArkFlowReconciler string \<comment> \<open>TaskQueueURL\<close>
  | ArkMemoryReconciler
  | ArkEventReconciler string \<comment> \<open>TriggerWebhookURL\<close>

fun SetupWithManager :: "'w apis \<Rightarrow> reconciler \<Rightarrow> 'w controller" where
  "SetupWithManager V (ArkAgentReconciler _) = agent_SetupWithManager (apAgent V)"
| "SetupWithManager V ArkServiceReconciler = service_SetupWithManager (apService V)"
| "SetupWithManager V ArkSettingsReconciler = settings_SetupWithManager"
| "SetupWithManager V (ArkFlowReconciler _) = flow_SetupWithManager"
| "SetupWithManager V ArkMemoryReconciler = memory_SetupWithManager"
| "SetupWithManager V (ArkEventReconciler _) = event_SetupWithManager (apEvent V)"

datatype mgr_call =
    GetConfigOrDie
  | CtrlNewManager manager_options
  | Complete reconciler \<comment> \<open>the call that ends its \<open>SetupWithManager\<close>\<close>
  | AddRunnable webhookRunnable
  | AddHealthzCheck string
  | AddReadyzCheck string
  | StartManager

text \<open>
  \<open>main\<close> after its flags: each call with the message of its failure, which is logged before the process exits with
  code 1, and what is logged in between.
\<close>

datatype action = Do mgr_call string | Say string

definition manager_options_of :: "gvk list \<Rightarrow> 'z main_flags \<Rightarrow> manager_options \<times> string list" where
  "manager_options_of clientgo f =
     (let tlsOpts = buildTLSOptions (mfEnableHTTP2 f);
          (webhookServer, log1) = buildWebhookServerOptions tlsOpts (mfWebhookCertPath f) (mfWebhookCertName f) (mfWebhookCertKey f);
          (metricsServerOptions, log2) = buildMetricsServerOptions (mfMetricsAddr f) tlsOpts (mfSecureMetrics f)
            (mfMetricsCertPath f) (mfMetricsCertName f) (mfMetricsCertKey f)
      in (\<lparr>mnScheme = scheme_init clientgo, mnMetrics = metricsServerOptions, mnWebhookServer = webhookServer,
           mnHealthProbeBindAddress = mfProbeAddr f, mnLeaderElection = mfEnableLeaderElection f,
           mnLeaderElectionID = ''a7754879.arkonis.dev''\<rparr>, log1 @ log2))"

definition main_actions :: "gvk list \<Rightarrow> (string \<Rightarrow> string) \<Rightarrow> 'z main_flags \<Rightarrow> action list" where
  "main_actions clientgo getenv f =
     (let (opts, logs) = manager_options_of clientgo f;
          triggerReconciler = ArkEventReconciler (mfTriggerWebhookURL f);
          webhookSrv = NewTriggerWebhookServer (mfTriggerWebhookURL f) (getenv ''TASK_QUEUE_URL'')
      in map Say logs @
         [Do GetConfigOrDie ''unable to get kubeconfig'',
          Do (CtrlNewManager opts) ''Failed to start manager'',
          Do (Complete (ArkAgentReconciler (mfAgentImage f))) ''Failed to create controller'',
          Do (Complete ArkServiceReconciler) ''Failed to create controller'',
          Do (Complete ArkSettingsReconciler) ''Failed to create controller'',
          Do (Complete (ArkFlowReconciler (getenv ''TASK_QUEUE_URL''))) ''Failed to create controller'',
          Do (Complete ArkMemoryReconciler) ''Failed to create controller'',
          Do (Complete triggerReconciler) ''Failed to create controller'',
          Do (AddRunnable (triggerWebhookRunnable (mfTriggerWebhookAddr f) webhookSrv))
            ''Failed to add trigger webhook server to manager'',
          Say ''Trigger webhook server registered'',
          Do (AddHealthzCheck ''healthz'') ''Failed to set up health check'',
          Do (AddReadyzCheck ''readyz'') ''Failed to set up ready check'',
          Say ''Starting manager'',
          Do StartManager ''Failed to run manager''])"

datatype trace_event = Called mgr_call | Logged string | LoggedError gotext string

text \<open>The calls in order, with the exit code; \<open>outcome\<close> is the error of a call.\<close>

fun run_actions :: "(mgr_call \<Rightarrow> gotext option) \<Rightarrow> action list \<Rightarrow> trace_event list \<times> int" where
  "run_actions outcome [] = ([], 0)"
| "run_actions outcome (Say m # as) = (let (tr, code) = run_actions outcome as in (Logged m # tr, code))"
| "run_actions outcome (Do c m # as) =
     (case outcome c of
        Some err \<Rightarrow> ([Called c, LoggedError err m], 1)
      | None \<Rightarrow> (let (tr, code) = run_actions outcome as in (Called c # tr, code)))"

definition main ::
  "'z zap_flags \<Rightarrow> 'z \<Rightarrow> gvk list \<Rightarrow> (string \<Rightarrow> string) \<Rightarrow> (mgr_call \<Rightarrow> gotext option) \<Rightarrow> string list \<Rightarrow> trace_event list \<times> int" where
  "main zap z clientgo getenv outcome args =
     (case parse_flags zap args (flag_defaults z) of
        UsageError \<Rightarrow> ([], 2)
      | HelpAsked \<Rightarrow> ([], 0)
      | Parsed f \<Rightarrow> run_actions outcome (main_actions clientgo getenv f))"

end
