(* ===== verification/ManagerProps.thy ===== *)
theory ManagerProps
  imports ManagerMain "HOL-Library.Sublist"
begin

text \<open>
  The properties of the operator's process: what is registered when the manager starts, what its servers offer by
  default, and which changes make the controller of agents reconcile.
\<close>

section \<open>Flags\<close>

definition names_flag :: "string \<Rightarrow> string list \<Rightarrow> bool" where
  "names_flag n args \<longleftrightarrow> (\<exists>s \<in> set args. \<exists>v. read_arg s = FlagArg n v)"

lemma names_flag_Cons [simp]: "names_flag n (s # args) \<longleftrightarrow> (\<exists>v. read_arg s = FlagArg n v) \<or> names_flag n args"
  by (auto simp: names_flag_def)

lemma parse_flags_step:
  assumes "parse_flags zap (s # args) f = Parsed f'"
  shows "f' = f \<or> (\<exists>n v b put x f1 args'. read_arg s = FlagArg n v \<and> lookup_flag zap n = Some (b, put) \<and>
     put x f = Some f1 \<and> parse_flags zap args' f1 = Parsed f' \<and> suffix args' args)"
proof (cases "read_arg s")
  case (FlagArg n v)
  with assms obtain b put where l: "lookup_flag zap n = Some (b, put)" by (auto split: option.splits if_splits)
  have "\<exists>x f1 args'. put x f = Some f1 \<and> parse_flags zap args' f1 = Parsed f' \<and> suffix args' args"
  proof (cases b)
    case True
    with FlagArg assms l show ?thesis by (auto split: option.splits)
  next
    case False
    show ?thesis
    proof (cases v)
      case (Some x)
      with False FlagArg assms l show ?thesis by (auto split: option.splits)
    next
      case None
      with False FlagArg assms l obtain x args' where "args = x # args'"
        "(case put x f of None \<Rightarrow> UsageError | Some f \<Rightarrow> parse_flags zap args' f) = Parsed f'"
        by (auto split: list.splits)
      then show ?thesis by (intro exI [of _ x] exI [of _ "the (put x f)"] exI [of _ args']) (simp add: suffix_ConsI split: option.splits)
    qed
  qed
  with FlagArg l show ?thesis by blast
qed (use assms in auto)

text \<open>A variable that only the flag \<open>n\<close> sets keeps its value if no argument names \<open>n\<close>.\<close>

lemma parse_flags_keeps:
  assumes only: "\<And>k b put v f f'. lookup_flag zap k = Some (b, put) \<Longrightarrow> k \<noteq> n \<Longrightarrow> put v f = Some f' \<Longrightarrow> get f' = get f"
  shows "parse_flags zap args f = Parsed f' \<Longrightarrow> \<not> names_flag n args \<Longrightarrow> get f' = get f"
proof (induction args arbitrary: f rule: length_induct)
  case (1 args)
  show ?case
  proof (cases args)
    case Nil
    with 1 show ?thesis by simp
  next
    case (Cons s rest)
    with 1(2) parse_flags_step consider "f' = f" | k v b put x f1 args' where "read_arg s = FlagArg k v"
      "lookup_flag zap k = Some (b, put)" "put x f = Some f1" "parse_flags zap args' f1 = Parsed f'" "suffix args' rest"
      by blast
    then show ?thesis
    proof cases
      case 2
      with Cons 1(3) have "k \<noteq> n" "\<not> names_flag n args'"
        by (auto simp: names_flag_def dest: set_mono_suffix)
      moreover have "length args' < length args" using 2(5) Cons by (auto dest: suffix_length_le)
      ultimately show ?thesis using 1(1) 2 only by metis
    qed simp
  qed
qed

lemma lookup_enable_http2:
  "lookup_flag zap k = Some (b, put) \<Longrightarrow> k \<noteq> ''enable-http2'' \<Longrightarrow> put v f = Some f' \<Longrightarrow> mfEnableHTTP2 f' = mfEnableHTTP2 f"
  by (auto simp: lookup_flag_def main_flag_table_def split: option.splits if_splits)

lemma lookup_metrics_secure:
  "lookup_flag zap k = Some (b, put) \<Longrightarrow> k \<noteq> ''metrics-secure'' \<Longrightarrow> put v f = Some f' \<Longrightarrow> mfSecureMetrics f' = mfSecureMetrics f"
  by (auto simp: lookup_flag_def main_flag_table_def split: option.splits if_splits)

lemma keeps_http2:
  "parse_flags zap args f = Parsed f' \<Longrightarrow> \<not> names_flag ''enable-http2'' args \<Longrightarrow> mfEnableHTTP2 f' = mfEnableHTTP2 f"
  using lookup_enable_http2 by (rule parse_flags_keeps)

lemma keeps_secure:
  "parse_flags zap args f = Parsed f' \<Longrightarrow> \<not> names_flag ''metrics-secure'' args \<Longrightarrow> mfSecureMetrics f' = mfSecureMetrics f"
  using lookup_metrics_secure by (rule parse_flags_keeps)

section \<open>The calls of main\<close>

fun calls :: "trace_event list \<Rightarrow> mgr_call list" where
  "calls [] = []"
| "calls (Called c # tr) = c # calls tr"
| "calls (_ # tr) = calls tr"

fun planned :: "action list \<Rightarrow> mgr_call list" where
  "planned [] = []"
| "planned (Do c m # as) = c # planned as"
| "planned (Say m # as) = planned as"

lemma calls_append [simp]: "calls (xs @ ys) = calls xs @ calls ys"
  by (induction xs rule: calls.induct) auto

lemma planned_append [simp]: "planned (as @ bs) = planned as @ planned bs"
  by (induction as rule: planned.induct) auto

lemma planned_Say [simp]: "planned (map Say ms) = []"
  by (induction ms) auto

text \<open>Either every planned call was made and accepted, or the last one made failed and the process exits with 1.\<close>

lemma run_actions_calls:
  "run_actions outcome as = (tr, code) \<Longrightarrow>
     (code = 0 \<and> calls tr = planned as \<and> (\<forall>c \<in> set (planned as). outcome c = None)) \<or>
     (\<exists>pre c post err m. planned as = pre @ c # post \<and> calls tr = pre @ [c] \<and> (\<forall>d \<in> set pre. outcome d = None) \<and>
        outcome c = Some err \<and> code = 1 \<and> last tr = LoggedError err m)"
proof (induction as arbitrary: tr code rule: planned.induct)
  case (2 c m as)
  show ?case
  proof (cases "outcome c")
    case None
    with 2(2) obtain tr' where tr: "run_actions outcome as = (tr', code)" "tr = Called c # tr'"
      by (auto simp: Let_def split: prod.splits)
    from 2(1) [OF tr(1)] show ?thesis
    proof (elim disjE exE conjE)
      fix pre d post err m
      assume "planned as = pre @ d # post" "calls tr' = pre @ [d]" "\<forall>e \<in> set pre. outcome e = None"
        "outcome d = Some err" "code = 1" "last tr' = LoggedError err m"
      moreover from this(2) have "tr' \<noteq> []" by auto
      ultimately show ?thesis using None tr(2)
        by (intro disjI2 exI [of _ "c # pre"] exI [of _ d] exI [of _ post] exI [of _ err] exI [of _ m]) simp
    qed (simp add: None tr(2))
  next
    case (Some err)
    with 2(2) show ?thesis
      by (intro disjI2 exI [of _ "[]"] exI [of _ c] exI [of _ "planned as"] exI [of _ err] exI [of _ m]) auto
  qed
next
  case (3 m as)
  then obtain tr' where tr: "run_actions outcome as = (tr', code)" "tr = Logged m # tr'"
    by (auto simp: Let_def split: prod.splits)
  from 3(1) [OF tr(1)] show ?case
  proof (elim disjE exE conjE)
    fix pre d post err m
    assume "planned as = pre @ d # post" "calls tr' = pre @ [d]" "\<forall>e \<in> set pre. outcome e = None"
      "outcome d = Some err" "code = 1" "last tr' = LoggedError err m"
    moreover from this(2) have "tr' \<noteq> []" by auto
    ultimately show ?thesis using tr(2)
      by (intro disjI2 exI [of _ pre] exI [of _ d] exI [of _ post] exI [of _ err] exI [of _ m]) simp
  qed (simp add: tr(2))
qed auto

text \<open>What main plans to call.\<close>

definition registrations :: "gvk list \<Rightarrow> (string \<Rightarrow> string) \<Rightarrow> 'z main_flags \<Rightarrow> mgr_call list" where
  "registrations clientgo getenv f = butlast (planned (main_actions clientgo getenv f))"

lemma planned_main: "planned (main_actions clientgo getenv f) = registrations clientgo getenv f @ [StartManager]"
  by (simp add: registrations_def main_actions_def Let_def split: prod.split)

lemma registrations_eq:
  "registrations clientgo getenv f =
     [GetConfigOrDie, CtrlNewManager (fst (manager_options_of clientgo f)),
      Complete (ArkAgentReconciler (mfAgentImage f)), Complete ArkServiceReconciler, Complete ArkSettingsReconciler,
      Complete (ArkFlowReconciler (getenv ''TASK_QUEUE_URL'')), Complete ArkMemoryReconciler,
      Complete (ArkEventReconciler (mfTriggerWebhookURL f)),
      AddRunnable (triggerWebhookRunnable (mfTriggerWebhookAddr f)
        (NewTriggerWebhookServer (mfTriggerWebhookURL f) (getenv ''TASK_QUEUE_URL''))),
      AddHealthzCheck ''healthz'', AddReadyzCheck ''readyz'']"
  by (simp add: registrations_def main_actions_def Let_def split: prod.split)

lemma main_calls:
  assumes "main zap z clientgo getenv outcome args = (tr, code)"
  shows "(\<forall>f. parse_flags zap args (flag_defaults z) \<noteq> Parsed f) \<and> calls tr = [] \<and> code \<in> {0, 2} \<or>
    (\<exists>f. parse_flags zap args (flag_defaults z) = Parsed f \<and>
      (code = 0 \<and> calls tr = registrations clientgo getenv f @ [StartManager] \<and>
         (\<forall>c \<in> set (calls tr). outcome c = None) \<or>
       (\<exists>pre c post err m. registrations clientgo getenv f @ [StartManager] = pre @ c # post \<and> calls tr = pre @ [c] \<and>
         (\<forall>d \<in> set pre. outcome d = None) \<and> outcome c = Some err \<and> code = 1 \<and> last tr = LoggedError err m)))"
proof (cases "parse_flags zap args (flag_defaults z)")
  case (Parsed f)
  with assms have "run_actions outcome (main_actions clientgo getenv f) = (tr, code)" by (simp add: main_def)
  from run_actions_calls [OF this] Parsed show ?thesis unfolding planned_main by metis
qed (use assms in \<open>auto simp: main_def\<close>)

lemma main_accepted:
  "main zap z clientgo getenv (\<lambda>_. None) args = (tr, code) \<Longrightarrow> parse_flags zap args (flag_defaults z) = Parsed f \<Longrightarrow>
     calls tr = registrations clientgo getenv f @ [StartManager]"
  using main_calls [of zap z clientgo getenv "\<lambda>_. None" args tr code] by auto

text \<open>
  When the manager starts, the calls before it are the registrations, and they were all accepted. A call that
  fails is the last one.
\<close>

lemma started:
  assumes "main zap z clientgo getenv outcome args = (tr, code)" and "StartManager \<in> set (calls tr)"
  obtains f where "parse_flags zap args (flag_defaults z) = Parsed f"
    and "calls tr = registrations clientgo getenv f @ [StartManager]"
    and "\<forall>c \<in> set (registrations clientgo getenv f). outcome c = None"
  using main_calls [OF assms(1)]
proof (elim disjE exE conjE)
  fix f pre c post err m
  assume f: "parse_flags zap args (flag_defaults z) = Parsed f"
    and pre: "registrations clientgo getenv f @ [StartManager] = pre @ c # post" "calls tr = pre @ [c]"
      "\<forall>d \<in> set pre. outcome d = None"
  have "StartManager \<notin> set (registrations clientgo getenv f)" by (simp add: registrations_eq)
  with pre(1,2) assms(2) have "post = []" by (cases post rule: rev_cases) (auto simp: append_eq_append_conv2 Cons_eq_append_conv)
  with pre have "registrations clientgo getenv f = pre" "c = StartManager" by auto
  with that f pre(2,3) show thesis by simp
next
  fix f
  assume "parse_flags zap args (flag_defaults z) = Parsed f" "calls tr = registrations clientgo getenv f @ [StartManager]"
    "\<forall>c \<in> set (calls tr). outcome c = None"
  with that show thesis by simp
qed (use assms(2) in simp)

lemma failed_call_last:
  assumes "main zap z clientgo getenv outcome args = (tr, code)" and "c \<in> set (calls tr)" and "outcome c = Some err"
  shows "code = 1 \<and> last (calls tr) = c \<and> (\<exists>m. last tr = LoggedError err m)"
  using main_calls [OF assms(1)]
proof (elim disjE exE conjE)
  fix pre d err' m
  assume "calls tr = pre @ [d]" "\<forall>e \<in> set pre. outcome e = None" "outcome d = Some err'" "code = 1" "last tr = LoggedError err' m"
  moreover from this assms(2,3) have "c = d" by auto
  ultimately show ?thesis using assms(3) by simp
qed (use assms(2,3) in force)+

lemma only_planned:
  assumes "main zap z clientgo getenv outcome args = (tr, code)" and "c \<in> set (calls tr)"
  obtains f where "parse_flags zap args (flag_defaults z) = Parsed f"
    and "c \<in> set (registrations clientgo getenv f @ [StartManager])"
  using main_calls [OF assms(1)]
proof (elim disjE exE conjE)
  fix f pre d post
  assume "parse_flags zap args (flag_defaults z) = Parsed f"
    and "registrations clientgo getenv f @ [StartManager] = pre @ d # post" "calls tr = pre @ [d]"
  moreover from this(3) assms(2) have "c \<in> set (pre @ d # post)" by auto
  ultimately show thesis using that by metis
qed (use assms(2) that in force)+

definition ark_kinds :: "kind set" where
  "ark_kinds = {KArkAgent, KArkEvent, KArkFlow, KArkMemory, KArkService, KArkSettings}"

lemma SchemeBuilder_eq:
  "SchemeBuilder = [''ArkAgent'', ''ArkAgentList'', ''ArkEvent'', ''ArkEventList'', ''ArkFlow'', ''ArkFlowList'',
     ''ArkMemory'', ''ArkMemoryList'', ''ArkService'', ''ArkServiceList'', ''ArkSettings'', ''ArkSettingsList'']"
  by (simp add: SchemeBuilder_def scheme_Register_def init_arkagent_def init_arkevent_def init_arkflow_def init_arkmemory_def
      init_arkservice_def init_arksettings_def)

lemma kind_registered:
  assumes "gvk_of ` {KDeployment, KService, KConfigMap, KSecret} \<subseteq> set clientgo"
  shows "gvk_of k \<in> set (scheme_init clientgo)"
proof (cases "k \<in> ark_kinds")
  case True
  then show ?thesis
    unfolding ark_kinds_def scheme_init_def AddToScheme_def SchemeBuilder_eq GroupVersion_def by (cases k) simp_all
next
  case False
  then have "k \<in> {KDeployment, KService, KConfigMap, KSecret}" by (cases k) (simp_all add: ark_kinds_def)
  with assms show ?thesis unfolding scheme_init_def AddToScheme_def by (simp only: set_append) blast
qed

lemma mnScheme_eq: "mnScheme (fst (manager_options_of clientgo f)) = scheme_init clientgo"
  by (simp add: manager_options_of_def Let_def split: prod.split)

text \<open>
  Everything is registered: each resource of the API group has a controller, every kind that a controller hears of
  is in the scheme of the manager, the trigger endpoint shares the reconciler of events and reads tokens from the
  queue that the controller of flows writes tasks to, and both probes exist.
\<close>

definition fully_registered :: "'w apis \<Rightarrow> mgr_call list \<Rightarrow> bool" where
  "fully_registered V cs \<longleftrightarrow>
     (\<forall>k \<in> ark_kinds. \<exists>r. Complete r \<in> set cs \<and> ctFor (SetupWithManager V r) = k) \<and>
     (\<exists>opts. CtrlNewManager opts \<in> set cs \<and> (\<forall>r. gvk_of ` heard (SetupWithManager V r) \<subseteq> set (mnScheme opts))) \<and>
     (\<exists>hook. AddRunnable hook \<in> set cs \<and> Complete (ArkEventReconciler (fst (wrHandler hook))) \<in> set cs \<and>
        Complete (ArkFlowReconciler (twTaskQueueURL (snd (wrHandler hook)))) \<in> set cs) \<and>
     AddHealthzCheck ''healthz'' \<in> set cs \<and> AddReadyzCheck ''readyz'' \<in> set cs"

lemma ctFor_SetupWithManager:
  "ctFor (SetupWithManager V r) = (case r of ArkAgentReconciler _ \<Rightarrow> KArkAgent | ArkServiceReconciler \<Rightarrow> KArkService
     | ArkSettingsReconciler \<Rightarrow> KArkSettings | ArkFlowReconciler _ \<Rightarrow> KArkFlow | ArkMemoryReconciler \<Rightarrow> KArkMemory
     | ArkEventReconciler _ \<Rightarrow> KArkEvent)"
  by (cases r) (simp_all add: agent_SetupWithManager_def service_SetupWithManager_def settings_SetupWithManager_def
      flow_SetupWithManager_def memory_SetupWithManager_def event_SetupWithManager_def)

lemma registered_controllers:
  assumes "k \<in> ark_kinds"
  obtains r where "Complete r \<in> set (registrations clientgo getenv f)" and "ctFor (SetupWithManager V r) = k"
proof -
  let ?r = "case k of KArkAgent \<Rightarrow> ArkAgentReconciler (mfAgentImage f) | KArkService \<Rightarrow> ArkServiceReconciler
    | KArkSettings \<Rightarrow> ArkSettingsReconciler | KArkFlow \<Rightarrow> ArkFlowReconciler (getenv ''TASK_QUEUE_URL'')
    | KArkMemory \<Rightarrow> ArkMemoryReconciler | _ \<Rightarrow> ArkEventReconciler (mfTriggerWebhookURL f)"
  have "ctFor (SetupWithManager V ?r) = k"
    using assms unfolding ctFor_SetupWithManager by (cases k) (simp_all add: ark_kinds_def)
  moreover have "Complete ?r \<in> set (registrations clientgo getenv f)"
    unfolding registrations_eq by (cases k) simp_all
  ultimately show thesis by (rule that [rotated])
qed

lemma registrations_complete:
  assumes "gvk_of ` {KDeployment, KService, KConfigMap, KSecret} \<subseteq> set clientgo"
  shows "fully_registered V (registrations clientgo getenv f)"
  unfolding fully_registered_def
proof (intro conjI ballI)
  fix k assume "k \<in> ark_kinds"
  then show "\<exists>r. Complete r \<in> set (registrations clientgo getenv f) \<and> ctFor (SetupWithManager V r) = k"
    using registered_controllers by metis
next
  have "CtrlNewManager (fst (manager_options_of clientgo f)) \<in> set (registrations clientgo getenv f)"
    unfolding registrations_eq by simp
  moreover have "gvk_of ` heard (SetupWithManager V r) \<subseteq> set (mnScheme (fst (manager_options_of clientgo f)))" for r
    unfolding mnScheme_eq using kind_registered [OF assms] by blast
  ultimately show "\<exists>opts. CtrlNewManager opts \<in> set (registrations clientgo getenv f) \<and>
     (\<forall>r. gvk_of ` heard (SetupWithManager V r) \<subseteq> set (mnScheme opts))" by metis
next
  let ?hook = "triggerWebhookRunnable (mfTriggerWebhookAddr f)
    (NewTriggerWebhookServer (mfTriggerWebhookURL f) (getenv ''TASK_QUEUE_URL''))"
  have "AddRunnable ?hook \<in> set (registrations clientgo getenv f)"
    "Complete (ArkEventReconciler (mfTriggerWebhookURL f)) \<in> set (registrations clientgo getenv f)"
    "Complete (ArkFlowReconciler (getenv ''TASK_QUEUE_URL'')) \<in> set (registrations clientgo getenv f)"
    unfolding registrations_eq by simp_all
  moreover have "fst (wrHandler ?hook) = mfTriggerWebhookURL f" "twTaskQueueURL (snd (wrHandler ?hook)) = getenv ''TASK_QUEUE_URL''"
    by (simp_all add: triggerWebhookRunnable_def NewTriggerWebhookServer_def)
  ultimately show "\<exists>hook. AddRunnable hook \<in> set (registrations clientgo getenv f) \<and>
     Complete (ArkEventReconciler (fst (wrHandler hook))) \<in> set (registrations clientgo getenv f) \<and>
     Complete (ArkFlowReconciler (twTaskQueueURL (snd (wrHandler hook)))) \<in> set (registrations clientgo getenv f)"
    by (intro exI [of _ ?hook]) simp
qed (simp_all add: registrations_eq)

section \<open>The start of the operator\<close>

text \<open>
  C21: the manager starts only after every registration was made and accepted: each resource of the API group
  has a controller, every kind that a controller hears of is in the scheme, the trigger endpoint shares the
  reconciler of events and reads tokens from the queue that the controller of flows writes tasks to, and both
  probes exist. A call that fails is the last one, its error is logged, and the process exits with code 1.
\<close>
theorem manager_starts_complete:
  assumes "main zap z clientgo getenv outcome args = (tr, code)"
    and "gvk_of ` {KDeployment, KService, KConfigMap, KSecret} \<subseteq> set clientgo"
  shows "(StartManager \<in> set (calls tr) \<longrightarrow>
      (\<exists>pre. calls tr = pre @ [StartManager] \<and> (\<forall>c \<in> set pre. outcome c = None) \<and> fully_registered V pre)) \<and>
    (\<forall>c \<in> set (calls tr). \<forall>err. outcome c = Some err \<longrightarrow>
        code = 1 \<and> last (calls tr) = c \<and> (\<exists>m. last tr = LoggedError err m))"
  using started [OF assms(1)] registrations_complete [OF assms(2)] failed_call_last [OF assms(1)] by metis

lemma manager_starts_complete_witness:
  "\<forall>V. \<exists>pre. calls (fst (main (\<lambda>_. None) () (map gvk_of [KDeployment, KService, KConfigMap, KSecret])
       (\<lambda>_. ''redis:6379'') (\<lambda>_. None) [''--leader-elect''])) = pre @ [StartManager] \<and> fully_registered V pre"
proof
  fix V :: "'w apis"
  obtain tr code where r: "main (\<lambda>_. None) () (map gvk_of [KDeployment, KService, KConfigMap, KSecret])
    (\<lambda>_. ''redis:6379'') (\<lambda>_. None) [''--leader-elect''] = (tr, code)" by fastforce
  have "\<exists>f. parse_flags (\<lambda>_. None) [''--leader-elect''] (flag_defaults ()) = Parsed f"
    by (simp add: read_arg_def lookup_flag_def main_flag_table_def ParseBool_def)
  with main_calls [OF r] have "StartManager \<in> set (calls tr)" by auto
  with manager_starts_complete [OF r, of V] show "\<exists>pre. calls (fst (main (\<lambda>_. None) ()
      (map gvk_of [KDeployment, KService, KConfigMap, KSecret]) (\<lambda>_. ''redis:6379'') (\<lambda>_. None) [''--leader-elect''])) =
      pre @ [StartManager] \<and> fully_registered V pre"
    unfolding r by auto
qed

text \<open>
  C24: unless an argument names the flag, HTTP/2 is not offered: whatever a server's TLS configuration was, both
  servers are left with HTTP/1.1 alone. Metrics are served over TLS, to authenticated and authorized callers only,
  unless an argument names that flag; and in every case the filter is there exactly when serving is secure.
\<close>
theorem servers_secure_by_default:
  assumes "main zap z clientgo getenv outcome args = (tr, code)" and "CtrlNewManager opts \<in> set (calls tr)"
  shows "(\<not> names_flag ''enable-http2'' args \<longrightarrow>
      (\<forall>tls. tlNextProtos (fold (\<lambda>opt. opt) (opTLSOpts (mnMetrics opts)) tls) = [''http/1.1''] \<and>
             tlNextProtos (fold (\<lambda>opt. opt) (opTLSOpts (mnWebhookServer opts)) tls) = [''http/1.1''])) \<and>
    (\<not> names_flag ''metrics-secure'' args \<longrightarrow> opSecureServing (mnMetrics opts)) \<and>
    (opSecureServing (mnMetrics opts) \<longleftrightarrow> opFilterProvider (mnMetrics opts) = Some WithAuthenticationAndAuthorization)"
proof -
  from only_planned [OF assms] obtain f where f: "parse_flags zap args (flag_defaults z) = Parsed f"
    and "CtrlNewManager opts \<in> set (registrations clientgo getenv f @ [StartManager])" .
  then have opts: "opts = fst (manager_options_of clientgo f)" by (simp add: registrations_eq)
  show ?thesis
    using keeps_http2 [OF f] keeps_secure [OF f]
    by (auto simp: opts manager_options_of_def buildTLSOptions_def buildWebhookServerOptions_def
        buildMetricsServerOptions_def flag_defaults_def Let_def)
qed

lemma servers_secure_by_default_witness:
  "\<exists>opts. CtrlNewManager opts \<in> set (calls (fst (main (\<lambda>_. None) () [] (\<lambda>_. []) (\<lambda>_. None) [''--metrics-bind-address=:8443'']))) \<and>
     opSecureServing (mnMetrics opts) \<and> opFilterProvider (mnMetrics opts) = Some WithAuthenticationAndAuthorization \<and>
     tlNextProtos (fold (\<lambda>opt. opt) (opTLSOpts (mnMetrics opts)) \<lparr>tlNextProtos = [''h2'']\<rparr>) = [''http/1.1'']"
proof -
  obtain tr code where r: "main (\<lambda>_. None) () [] (\<lambda>_. []) (\<lambda>_. None) [''--metrics-bind-address=:8443''] = (tr, code)" by fastforce
  have "\<exists>f. parse_flags (\<lambda>_. None) [''--metrics-bind-address=:8443''] (flag_defaults ()) = Parsed f"
    by (simp add: read_arg_def lookup_flag_def main_flag_table_def)
  then obtain f where "parse_flags (\<lambda>_. None) [''--metrics-bind-address=:8443''] (flag_defaults ()) = Parsed f" ..
  from main_accepted [OF r this] have "calls tr = registrations [] (\<lambda>_. []) f @ [StartManager]" .
  then have c: "CtrlNewManager (fst (manager_options_of [] f)) \<in> set (calls tr)" by (simp add: registrations_eq)
  have "\<not> names_flag ''enable-http2'' [''--metrics-bind-address=:8443'']" "\<not> names_flag ''metrics-secure'' [''--metrics-bind-address=:8443'']"
    by (simp_all add: names_flag_def read_arg_def)
  with servers_secure_by_default [OF r c] c r show ?thesis
    by (intro exI [of _ "fst (manager_options_of [] f)"]) auto
qed

section \<open>The end of the trigger endpoint\<close>

inductive_cases start_step_cases: "start_step s s'"

text \<open>
  When \<open>Start\<close> has returned, the server was shut down because the context ended, or it had stopped by itself and its
  error is what \<open>Start\<close> returned: no server is left listening that nobody shuts down.
\<close>

definition start_inv :: "start_state \<Rightarrow> bool" where
  "start_inv s \<longleftrightarrow> (stErrCh s \<noteq> None \<longrightarrow> \<not> stListening s) \<and> (stShutdown s \<longrightarrow> stCtxDone s) \<and>
     (stReturned s \<noteq> None \<longrightarrow> stShutdown s \<or> (\<not> stListening s \<and> (\<exists>e. stReturned s = Some (Some e)))) \<and>
     (stReturned s = None \<and> \<not> stListening s \<longrightarrow> stErrCh s \<noteq> None)"

lemma start_step_inv: "start_step s s' \<Longrightarrow> start_inv s \<Longrightarrow> stShutdown s \<longrightarrow> stReturned s \<noteq> None \<Longrightarrow>
    start_inv s' \<and> (stShutdown s' \<longrightarrow> stReturned s' \<noteq> None)"
  by (erule start_step_cases) (auto simp: start_inv_def)

lemma start_closes:
  assumes "start_step\<^sup>*\<^sup>* start_runnable s"
  shows "start_inv s"
proof -
  have "start_inv s \<and> (stShutdown s \<longrightarrow> stReturned s \<noteq> None)"
    using assms by (induction rule: rtranclp_induct) (auto simp: start_inv_def start_runnable_def dest: start_step_inv)
  then show ?thesis ..
qed

text \<open>Once the context is done or the listening has failed, \<open>Start\<close> can return.\<close>

lemma start_returns:
  assumes "start_step\<^sup>*\<^sup>* start_runnable s" and "stReturned s = None" and "stCtxDone s \<or> \<not> stListening s"
  shows "\<exists>s'. start_step s s' \<and> stReturned s' \<noteq> None"
proof (cases "stCtxDone s")
  case True
  from select_done [OF assms(2) this, of None] show ?thesis by fastforce
next
  case False
  with start_closes [OF assms(1)] assms(2,3) obtain e where "stErrCh s = Some e" by (auto simp: start_inv_def)
  from select_err [OF assms(2) this] show ?thesis by fastforce
qed

end
