(* ===== verification/Spec2Isabelle.thy ===== *)
theory Spec2Isabelle
  imports SystemProps FlowAgents CopyProps OperatorProps EventProps WebhookProps LocalProps ArkMain WatchProps ManagerProps
begin

text \<open>
  A verification development for the ark operator: a Kubernetes operator that runs LLM agents, the runtime of
  these agents, and a command that runs their flows locally.

  The program. A flow (\<^verbatim>\<open>ArkFlow\<close>) is a graph of steps, each a prompt for an agent
  (\<^verbatim>\<open>ArkAgent\<close>). The flow controller submits the steps that are ready to a Redis stream;
  agent pods, which the agent controller deploys, poll the stream, run the task against an LLM provider with its
  tools, and write the result to a second stream, which the flow controller reads in its next pass. Triggers
  (\<^verbatim>\<open>ArkEvent\<close>) create runs of template flows on a schedule, on a webhook request or when
  another flow completes. Settings and memories configure agents, and services route to their pods. One process, the
  manager, hosts the controllers and the trigger endpoint. \<^verbatim>\<open>ark run\<close> executes a flow in one
  process.

  Conventions. A Go struct is a record with prefixed fields, a string enum a datatype,
  \<^verbatim>\<open>int64\<close> a word of 64 bits read with \<open>sint\<close> (\<open>GoBase\<close>), a Go
  string a list of bytes, a map a partial function or, where its order can be observed, a list that the parameter
  \<open>xRangeInputs\<close> or \<open>xRangeNat\<close> permutes. An error is the left of a sum, its text a term
  over the formats of the source (\<open>gotext\<close>). Times are nanoseconds as integers. A function with effects
  takes the world of an interface record, of any type, and returns it: the API server, Redis, HTTP, the clock, the
  LLM SDKs and the file system are the fields of such records, and so are JSON, YAML, templates and cron. A property
  about writes is stated over the same interface with a log beside the world. \<open>statusByName\<close>, a map of
  pointers into the status list, is a map to indices, so that updates through it and through the list are seen by
  both. Records are values, so a Go copy of a struct is the value itself; where that would hide what the code is for,
  in the deep copies, \<open>GoMemory\<close> has an explicit heap.

  The parts, each theory with the files it models:
  \<^item> \<open>GoBase\<close>, \<open>GoStrings\<close>, \<open>ArkTypes\<close>: 64-bit arithmetic, the functions
    of \<^verbatim>\<open>strings\<close> and \<^verbatim>\<open>strconv\<close> the code uses, and the resources
    (\<^verbatim>\<open>api/v1alpha1/*_types.go\<close>).
  \<^item> \<open>FlowDag\<close>, \<open>FlowTemplate\<close>, \<open>FlowStep\<close>,
    \<open>FlowPhaseLogic\<close>: the engine (\<^verbatim>\<open>internal/flow/\<close>): validation by depth-first
    search, prompts, loops, JSON outputs, timeout, budget and phase.
  \<^item> \<open>StepLife\<close>: the specification, a step relation on the life of one step, what it means that a
    status list refines another along it, and the rank that every move lowers.
  \<^item> \<open>FlowController\<close> (\<^verbatim>\<open>arkflow_controller.go\<close>), with
    \<open>FlowSafety\<close> (every stage refines the lifecycle), \<open>FlowProgress\<close> (a pass that ends with
    nothing in flight lowered the rank), \<open>FlowEffects\<close> (the log of a reconcile is that of its stages),
    \<open>FlowResults\<close> (the result a waiting step takes).
  \<^item> \<open>FlowLiveness\<close>: sequences of passes between which the tasks in flight are answered, which
    lower the rank.
  \<^item> \<open>AgentQueue\<close>, \<open>AgentConfig\<close>, \<open>AgentMcp\<close>,
    \<open>AgentProviders\<close>, \<open>AgentAnthropic\<close>, \<open>AgentOpenAI\<close>,
    \<open>AgentRunner\<close>: the runtime (\<^verbatim>\<open>internal/agent/\<close> and
    \<^verbatim>\<open>runtime/agent/main.go\<close>), with the agentic loop of both providers as an instance of one
    locale, \<open>AgentStream\<close>: what a handled task leaves in Redis, and \<open>AgentWorld\<close>: what a
    task may touch.
  \<^item> \<open>SystemModel\<close>, \<open>SystemSafety\<close>: the program as a whole, a step relation over the
    controller of flows, any number of agent pods and the rest of the cluster, with the history of both streams and
    of the stored flows; the invariant of its reachable states.
  \<^item> \<open>AgentController\<close>, \<open>AgentReconcile\<close>
    (\<^verbatim>\<open>arkagent_controller.go\<close>), \<open>AgentEnvVars\<close> (the environment read back by
    the runtime), \<open>AgentWrites\<close> (what a reconcile writes), \<open>ResourceControllers\<close> (memories,
    settings, services).
  \<^item> \<open>EventController\<close> (\<^verbatim>\<open>arkevent_controller.go\<close>),
    \<open>EventCron\<close> (the search for due times against a schedule as a set of instants, and histories of
    reconciles), \<open>EventFire\<close> (what a firing creates).
  \<^item> \<open>WebhookServer\<close>, \<open>WebhookStream\<close>
    (\<^verbatim>\<open>trigger_webhook_server.go\<close>): the endpoint, and the event stream as a machine whose
    actions interleave the handler with the goroutine that reads tokens.
  \<^item> \<open>LocalExecutor\<close> (\<^verbatim>\<open>internal/ark/local/executor.go\<close>),
    \<open>LocalProgress\<close>, \<open>LocalRun\<close>, \<open>LocalLiveness\<close>: the local loop, for any
    order in which the goroutines of a pass deliver their results; \<open>ArkCli\<close>
    (\<^verbatim>\<open>internal/ark/loader.go\<close>, \<^verbatim>\<open>cmd/ark/main.go\<close>): loading and the
    subcommands; \<open>ArkMain\<close>: the commands with their flags, and the process.
  \<^item> \<open>ControllerSetup\<close> (the \<open>SetupWithManager\<close> functions): which changes make which
    controller reconcile what; \<open>ManagerMain\<close> (\<^verbatim>\<open>cmd/main.go\<close>,
    \<^verbatim>\<open>groupversion_info.go\<close>): the types registered, the flags with the parser of the standard
    library, the options of the servers, and \<open>main\<close> as a list of calls each of which may fail.
  \<^item> \<open>GoMemory\<close>: values with addresses, a heap, the statements of a deep copy, and the data a
    value stands for; \<open>DeepCopy\<close> (\<^verbatim>\<open>zz_generated.deepcopy.go\<close>): the copies of
    all 43 types, each against its declared type.
  \<^item> \<open>Samples\<close>, \<open>SystemProps\<close>, \<open>FlowProps\<close>, \<open>FlowAgents\<close>,
    \<open>AgentProps\<close>, \<open>OperatorProps\<close>, \<open>EventProps\<close>, \<open>WebhookProps\<close>,
    \<open>LocalProps\<close>, \<open>WatchProps\<close>, \<open>ManagerProps\<close>, \<open>CopyProps\<close>, and
    the end of \<open>ArkMain\<close>: the properties, each applied to concrete resources by its witness.

  Interfaces. \<open>status_index\<close> (\<open>FlowDag\<close>): what clients rely on of the index from names to
  statuses, interpreted on \<open>BuildStatusByName\<close>. The locales of the agentic loop
  (\<open>AgentProviders\<close>): a provider whose turns report the chunks they emit, interpreted on both providers.
  \<open>sealed_provider\<close> (\<open>AgentWorld\<close>): a provider that reaches the world only through its own
  API, the tools and the chunk function, so that a task keeps what these keep, interpreted on all three providers.
  \<open>config_resource\<close> (\<open>ResourceControllers\<close>): a controller that judges and stores a status,
  interpreted on memories and settings. \<open>step_scheduler\<close> and \<open>total_scheduler\<close>
  (\<open>LocalRun\<close>): a schedule that runs each started step once, interpreted on the sequential schedule and
  on runs with the mock provider.

  What is shown. The whole: in every state the controller, the pods and the rest of the cluster reach, with stale
  reads and lost tasks, the output of a succeeded step is what a provider answered to the prompt of that step; and a
  flow whose tasks are answered ends within as many passes as its rank. Flows: validation accepts exactly the acyclic
  graphs over known names; a reconcile only moves steps along the lifecycle, submits exactly the ready steps and only
  behind every guard, takes results for the task it waits for, and never stops with work left undone; timeout, budget
  and phase are exact within 64 bits; and which agent a step names has no part in which agent runs it. Runtime:
  retries are bounded, results and chunks arrive as written, tools are dispatched as offered. Operator: one
  Deployment write with the replicas the budget allows and an environment that reads back as the spec; accepted
  memories and services do what they promise. Triggers: a cron trigger answers for each instant once; a firing
  creates runs of its templates; only the holder of the token can fire. Callers: a waiting request is answered by its
  deadline, and the stream shows every chunk in order and one final event. The manager starts only with everything
  registered, is secure by default, and reconciles an agent when its prompt or its usage changes, though not when its
  settings do. Deep copies share no memory with the original. \<^verbatim>\<open>ark validate\<close> exits with 0
  exactly for sound files. Local runs return with the mock provider, refine the same lifecycle, and finish when steps
  are listed in order.

  Termination. Structural recursion and measures everywhere, but for four loops that need not end in the code and
  are partial functions here: the agentic loop of a provider, the search of \<open>mostRecentSchedule\<close>, the polling
  of \<open>waitForFlow\<close> and the loop of the local executor. For the last three the development proves when they
  return: exactly when some iterate of the schedule passes the present, when the deadline comes, and when
  every step that is started returns. No fuel is used.

  Not modelled. Two one-line helpers (\<^verbatim>\<open>helpers.go\<close>) and the utilities of the end-to-end
  tests. Logging, the HTTP framing of responses and events, and what controller-runtime, cobra and zap do inside are
  input and output or parameters: \<open>builder_ok\<close> and \<open>cobra_ok\<close> say what the code relies on.
  The deadline of a context is an operation on the world, and what a call does when it passes is the behaviour of the
  library called.
\<close>

end
